(* ===== verification/Prelude.thy ===== *)
theory Prelude
  imports Main "HOL-Library.AList" "HOL-Library.Word" "HOL-Library.Sublist"
begin

text \<open>
  The vocabulary shared by every component of the device simulator.

  The simulator is written in Python, so every operation may raise and every object is
  mutable. An operation on an object of type \<open>'s\<close> is a state transformer with an
  exception outcome: it returns either an exception or a value, and in both cases the
  state it leaves behind, because an assignment made before a \<open>raise\<close> stays made.
  A computation without effects is a plain sum \<open>pyexc + 'a\<close>.

  The theory also holds the weakest-precondition style triple \<open>run_ok\<close> that the
  components use to state that an operation returns, and the list lemmas on
  insertion-ordered dictionaries (association lists).
\<close>

section \<open>Exceptions\<close>

text \<open>
  The exception classes the sources raise or catch. The text of an exception is left out.
  \<open>DeviceRejectedException\<close> is a subclass of \<open>ValueError\<close> and
  \<open>SdoObjectNotFoundException\<close> a subclass of \<open>KeyError\<close> (adapter/errors.py).
\<close>

datatype pyexc =
    KeyError
  | ValueError
  | TypeError
  | IndexError
  | AttributeError
  | OverflowError
  | ZeroDivisionError
  | StructError
  | RuntimeError
  | OSError
  | NameError
  | TimeoutExpired
  | DeviceRejectedException
  | SdoObjectNotFoundException int int

text \<open>\<open>isinstance\<close> along the class hierarchy, as an \<open>except\<close> clause tests it.\<close>

fun is_ValueError :: "pyexc \<Rightarrow> bool" where
  "is_ValueError ValueError = True"
| "is_ValueError DeviceRejectedException = True"
| "is_ValueError _ = False"

fun is_KeyError :: "pyexc \<Rightarrow> bool" where
  "is_KeyError KeyError = True"
| "is_KeyError (SdoObjectNotFoundException _ _) = True"
| "is_KeyError _ = False"

section \<open>Fallible computations\<close>

type_synonym 'a res = "pyexc + 'a"

definition ebind :: "'a res \<Rightarrow> ('a \<Rightarrow> 'b res) \<Rightarrow> 'b res" where
  "ebind r f = (case r of Inl e \<Rightarrow> Inl e | Inr x \<Rightarrow> f x)"

lemma ebind_simps [simp]:
  "ebind (Inl e) f = Inl e"
  "ebind (Inr x) f = f x"
  by (simp_all add: ebind_def)

lemma ebind_Inr_iff: "ebind r f = Inr y \<longleftrightarrow> (\<exists>x. r = Inr x \<and> f x = Inr y)"
  by (cases r) simp_all

lemma ebind_assoc: "ebind (ebind r f) g = ebind r (\<lambda>x. ebind (f x) g)"
  by (cases r) simp_all

fun emap :: "('a \<Rightarrow> 'b res) \<Rightarrow> 'a list \<Rightarrow> 'b list res" where
  "emap f [] = Inr []"
| "emap f (x # xs) = ebind (f x) (\<lambda>y. ebind (emap f xs) (\<lambda>ys. Inr (y # ys)))"

lemma emap_length: "emap f xs = Inr ys \<Longrightarrow> length ys = length xs"
  by (induction xs arbitrary: ys) (auto simp: ebind_Inr_iff)

lemma emap_Inr: "(\<And>x. x \<in> set xs \<Longrightarrow> f x = Inr (g x)) \<Longrightarrow> emap f xs = Inr (map g xs)"
  by (induction xs) simp_all

section \<open>Stateful computations with exceptions\<close>

type_synonym ('s, 'a) pym = "'s \<Rightarrow> 'a res \<times> 's"

definition ret :: "'a \<Rightarrow> ('s, 'a) pym" where
  "ret x = (\<lambda>s. (Inr x, s))"

definition raise :: "pyexc \<Rightarrow> ('s, 'a) pym" where
  "raise e = (\<lambda>s. (Inl e, s))"

definition bnd :: "('s, 'a) pym \<Rightarrow> ('a \<Rightarrow> ('s, 'b) pym) \<Rightarrow> ('s, 'b) pym" where
  "bnd m f = (\<lambda>s. case m s of (Inl e, s') \<Rightarrow> (Inl e, s') | (Inr x, s') \<Rightarrow> f x s')"

definition thn :: "('s, unit) pym \<Rightarrow> ('s, 'b) pym \<Rightarrow> ('s, 'b) pym" where
  "thn m k = bnd m (\<lambda>_. k)"

definition lift :: "'a res \<Rightarrow> ('s, 'a) pym" where
  "lift r = (\<lambda>s. (r, s))"

definition gets :: "('s \<Rightarrow> 'a) \<Rightarrow> ('s, 'a) pym" where
  "gets f = (\<lambda>s. (Inr (f s), s))"

definition modify :: "('s \<Rightarrow> 's) \<Rightarrow> ('s, unit) pym" where
  "modify f = (\<lambda>s. (Inr (), f s))"

definition whenm :: "bool \<Rightarrow> ('s, unit) pym \<Rightarrow> ('s, unit) pym" where
  "whenm c m = (if c then m else ret ())"

text \<open>\<open>try: m except e: h e\<close>: the handler sees the exception and the state it left.\<close>

definition catch :: "('s, 'a) pym \<Rightarrow> (pyexc \<Rightarrow> ('s, 'a) pym) \<Rightarrow> ('s, 'a) pym" where
  "catch m h = (\<lambda>s. case m s of (Inl e, s') \<Rightarrow> h e s' | (Inr x, s') \<Rightarrow> (Inr x, s'))"

text \<open>
  An operation on a part of an object: \<open>get\<close> reads the part, \<open>upd\<close> stores it back,
  also when the operation raises.
\<close>

definition on_part :: "('s \<Rightarrow> 't) \<Rightarrow> ('t \<Rightarrow> 's \<Rightarrow> 's) \<Rightarrow> ('t, 'a) pym \<Rightarrow> ('s, 'a) pym" where
  "on_part get upd m = (\<lambda>s. case m (get s) of (r, t) \<Rightarrow> (r, upd t s))"

fun forM :: "('a \<Rightarrow> ('s, unit) pym) \<Rightarrow> 'a list \<Rightarrow> ('s, unit) pym" where
  "forM f [] = ret ()"
| "forM f (x # xs) = thn (f x) (forM f xs)"

lemma forM_append: "forM f (xs @ ys) s = thn (forM f xs) (forM f ys) s"
  by (induction xs arbitrary: s) (auto simp: thn_def bnd_def ret_def split: prod.splits sum.splits)

named_theorems pym \<open>equations that execute a computation step by step\<close>

lemma ret_run [pym]: "ret x s = (Inr x, s)"
  by (simp add: ret_def)

lemma raise_run [pym]: "raise e s = (Inl e, s)"
  by (simp add: raise_def)

lemma lift_run [pym]: "lift r s = (r, s)"
  by (simp add: lift_def)

lemma gets_run [pym]: "gets f s = (Inr (f s), s)"
  by (simp add: gets_def)

lemma modify_run [pym]: "modify f s = (Inr (), f s)"
  by (simp add: modify_def)

lemma thn_bnd [pym]: "thn m k s = bnd m (\<lambda>_. k) s"
  by (simp add: thn_def)

lemma whenm_run [pym]: "whenm c m s = (if c then m s else (Inr (), s))"
  by (simp add: whenm_def ret_def)

lemma bnd_Inr: "m s = (Inr x, s') \<Longrightarrow> bnd m f s = f x s'"
  by (simp add: bnd_def)

lemma bnd_Inl: "m s = (Inl e, s') \<Longrightarrow> bnd m f s = (Inl e, s')"
  by (simp add: bnd_def)

lemma bnd_steps [pym]:
  "bnd (ret x) f s = f x s"
  "bnd (raise e) f s = (Inl e, s)"
  "bnd (lift (Inr x)) f s = f x s"
  "bnd (lift (Inl e)) f s = (Inl e, s)"
  "bnd (gets g) f s = f (g s) s"
  "bnd (modify h) k s = k () (h s)"
  by (simp_all add: bnd_def ret_def raise_def lift_def gets_def modify_def)

lemma bnd_whenm [pym]: "bnd (whenm c m) k s = (if c then bnd m k s else k () s)"
  by (simp add: bnd_def whenm_def ret_def)

lemma bnd_if [pym]: "bnd (if c then m else n) k s = (if c then bnd m k s else bnd n k s)"
  by simp

lemma bnd_bnd [pym]: "bnd (bnd m f) g s = bnd m (\<lambda>x. bnd (f x) g) s"
  by (auto simp: bnd_def split: prod.splits sum.splits)

lemma bnd_thn [pym]: "bnd (thn m k) g s = bnd m (\<lambda>_. bnd k g) s"
  by (simp add: thn_def bnd_bnd)

lemma on_part_run [pym]: "on_part g u m s = (case m (g s) of (r, t) \<Rightarrow> (r, u t s))"
  by (simp add: on_part_def)

lemma catch_run [pym]:
  "catch m h s = (case m s of (Inl e, s') \<Rightarrow> h e s' | (Inr x, s') \<Rightarrow> (Inr x, s'))"
  by (simp add: catch_def)

section \<open>Triples\<close>

text \<open>
  \<open>run_ok m s Q\<close>: from the state \<open>s\<close> the computation returns a value, raises nothing,
  and value and final state satisfy \<open>Q\<close>. \<open>run_any\<close> also admits an exception and
  constrains the state it leaves.
\<close>

definition run_ok :: "('s, 'a) pym \<Rightarrow> 's \<Rightarrow> ('a \<Rightarrow> 's \<Rightarrow> bool) \<Rightarrow> bool" where
  "run_ok m s Q \<longleftrightarrow> (\<exists>x s'. m s = (Inr x, s') \<and> Q x s')"

definition run_any :: "('s, 'a) pym \<Rightarrow> 's \<Rightarrow> ('s \<Rightarrow> bool) \<Rightarrow> bool" where
  "run_any m s Q \<longleftrightarrow> Q (snd (m s))"

lemma run_okI: "m s = (Inr x, s') \<Longrightarrow> Q x s' \<Longrightarrow> run_ok m s Q"
  by (auto simp: run_ok_def)

lemma run_okE: "run_ok m s Q \<Longrightarrow> (\<And>x s'. m s = (Inr x, s') \<Longrightarrow> Q x s' \<Longrightarrow> P) \<Longrightarrow> P"
  by (auto simp: run_ok_def)

lemma run_ok_mono: "run_ok m s Q \<Longrightarrow> (\<And>x s'. Q x s' \<Longrightarrow> R x s') \<Longrightarrow> run_ok m s R"
  by (auto simp: run_ok_def)

lemma run_ok_conj: "run_ok m s Q \<Longrightarrow> run_ok m s R \<Longrightarrow> run_ok m s (\<lambda>x t. Q x t \<and> R x t)"
  by (auto simp: run_ok_def)

lemma run_ok_ret: "Q x s \<Longrightarrow> run_ok (ret x) s Q"
  by (simp add: run_ok_def ret_def)

lemma run_ok_modify: "Q () (f s) \<Longrightarrow> run_ok (modify f) s Q"
  by (simp add: run_ok_def modify_def)

lemma run_ok_bnd: "run_ok m s (\<lambda>x t. run_ok (f x) t Q) \<Longrightarrow> run_ok (bnd m f) s Q"
  by (auto simp: run_ok_def bnd_def)

lemma run_ok_thn: "run_ok m s (\<lambda>_ t. run_ok k t Q) \<Longrightarrow> run_ok (thn m k) s Q"
  by (auto simp: thn_def intro: run_ok_bnd)

lemma run_ok_whenm:
  "(c \<Longrightarrow> run_ok m s Q) \<Longrightarrow> (\<not> c \<Longrightarrow> Q () s) \<Longrightarrow> run_ok (whenm c m) s Q"
  by (auto simp: whenm_def intro: run_ok_ret)

lemma run_ok_forM:
  assumes "I s" and "\<And>x t. x \<in> set xs \<Longrightarrow> I t \<Longrightarrow> run_ok (f x) t (\<lambda>_. I)"
  shows "run_ok (forM f xs) s (\<lambda>_. I)"
  using assms
proof (induction xs arbitrary: s)
  case Nil
  then show ?case by (simp add: run_ok_ret)
next
  case (Cons x xs)
  have "run_ok (f x) s (\<lambda>_. I)"
    using Cons.prems by simp
  then have "run_ok (f x) s (\<lambda>_ t. run_ok (forM f xs) t (\<lambda>_. I))"
    by (rule run_ok_mono) (use Cons in simp)
  then show ?case by (simp add: run_ok_thn)
qed

lemma run_any_ret: "Q s \<Longrightarrow> run_any (ret x) s Q"
  by (simp add: run_any_def ret_def)

lemma run_any_bnd:
  assumes "run_any m s I" and "\<And>x t. I t \<Longrightarrow> run_any (f x) t I"
  shows "run_any (bnd m f) s I"
  using assms by (auto simp: run_any_def bnd_def split: prod.splits sum.splits)

lemma run_any_forM:
  assumes "I s" and "\<And>x t. x \<in> set xs \<Longrightarrow> I t \<Longrightarrow> run_any (f x) t I"
  shows "run_any (forM f xs) s I"
  using assms
proof (induction xs arbitrary: s)
  case Nil
  then show ?case by (simp add: run_any_ret)
next
  case (Cons x xs)
  then have fx: "run_any (f x) s I" by simp
  show ?case
  proof (cases "f x s")
    case (Pair r t)
    with fx have "I t" by (simp add: run_any_def)
    then have "run_any (forM f xs) t I" using Cons by simp
    with Pair fx show ?thesis
      by (auto simp: run_any_def thn_def bnd_def split: sum.splits)
  qed
qed

section \<open>Insertion-ordered dictionaries\<close>

text \<open>
  A Python dictionary that is iterated is an association list. \<open>AList.update\<close> stores
  under an existing key in place and appends a new key, as \<open>d[k] = v\<close> does.
\<close>

lemma map_of_update_eq [simp]: "map_of (AList.update k v al) k = Some v"
  by (simp add: update_conv')

lemma map_of_update_neq [simp]: "k \<noteq> k' \<Longrightarrow> map_of (AList.update k v al) k' = map_of al k'"
  by (simp add: update_conv')

lemma map_update_value:
  assumes "map_of al k = Some v" and "g (k, w) = g (k, v)"
  shows "map g (AList.update k w al) = map g al"
  using assms by (induction al) (auto split: if_splits)

lemma filter_map_update:
  "map_of al k = Some v \<Longrightarrow> g w = g v \<Longrightarrow> map (g \<circ> snd) (AList.update k w al) = map (g \<circ> snd) al"
  by (rule map_update_value) auto

end
