(* ===== verification/PyFloat.thy ===== *)
theory PyFloat
  imports Prelude "HOL-Library.Log_Nat"
begin

text \<open>
  Python's \<open>float\<close>: IEEE 754 binary64 with round-to-nearest-even. The servo model of the
  simulator integrates position and velocity with these numbers, so rounding is part of
  what it does. A finite float is its exact rational value, with the negative zero kept
  apart; an arithmetic operation computes the exact rational result and rounds it.
\<close>

section \<open>Rounding\<close>

text \<open>Round half to even.\<close>

definition rhe :: "rat \<Rightarrow> int" where
  "rhe x = (let f = \<lfloor>x\<rfloor>; d = x - of_int f in
     if d < 1 / 2 then f
     else if 1 / 2 < d then f + 1
     else if even f then f else f + 1)"

text \<open>The exponent \<open>k\<close> with \<open>2 ^ k \<le> x < 2 ^ (k + 1)\<close>, for positive \<open>x\<close>.\<close>

definition ilog2 :: "rat \<Rightarrow> int" where
  "ilog2 x = (let (a, b) = quotient_of x; k = bitlen a - bitlen b in
     if 2 powi k \<le> x then k else k - 1)"

text \<open>
  Rounding to \<open>p\<close> bits of precision with smallest exponent \<open>emin\<close> (gradual underflow);
  the exponent is not bounded above here.
\<close>

definition rnd :: "int \<Rightarrow> int \<Rightarrow> rat \<Rightarrow> rat" where
  "rnd p emin x = (if x = 0 then 0 else
     let e = max emin (ilog2 \<bar>x\<bar> - (p - 1)) in
     of_int (rhe (x * 2 powi (- e))) * 2 powi e)"


section \<open>Properties of rounding\<close>

lemma rhe_bounds: "\<lfloor>x\<rfloor> \<le> rhe x" "rhe x \<le> \<lfloor>x\<rfloor> + 1"
  by (auto simp: rhe_def Let_def)

lemma rhe_of_int [simp]: "rhe (of_int n) = n"
  by (simp add: rhe_def)

lemma rhe_mono: "x \<le> y \<Longrightarrow> rhe x \<le> rhe y"
proof -
  assume xy: "x \<le> y"
  then have "\<lfloor>x\<rfloor> \<le> \<lfloor>y\<rfloor>" by (rule floor_mono)
  then consider "\<lfloor>x\<rfloor> = \<lfloor>y\<rfloor>" | "\<lfloor>x\<rfloor> + 1 \<le> \<lfloor>y\<rfloor>" by linarith
  then show ?thesis
  proof cases
    case 1
    with xy show ?thesis by (auto simp: rhe_def Let_def)
  next
    case 2
    with rhe_bounds [of x] rhe_bounds [of y] show ?thesis by linarith
  qed
qed

lemma rhe_minus: "rhe (- x) = - rhe x"
proof (cases "x = of_int \<lfloor>x\<rfloor>")
  case True
  then have "rhe (- x) = rhe (of_int (- \<lfloor>x\<rfloor>))" by simp
  also have "\<dots> = - \<lfloor>x\<rfloor>" by (rule rhe_of_int)
  also have "\<lfloor>x\<rfloor> = rhe x" using True by (metis rhe_of_int)
  finally show ?thesis .
next
  case False
  then have "\<lfloor>- x\<rfloor> = - \<lfloor>x\<rfloor> - 1"
    by (simp add: floor_minus ceiling_altdef)
  moreover have "of_int \<lfloor>x\<rfloor> < x" using False using of_int_floor_le [of x] by linarith
  ultimately show ?thesis by (auto simp: rhe_def Let_def)
qed

lemma powi_nat:
  assumes "0 \<le> k"
  shows "(2::rat) powi k = of_int (2 ^ nat k)"
  using assms by (simp add: power_int_def)

lemma powi_le_iff: "(2::rat) powi m \<le> 2 powi n \<longleftrightarrow> m \<le> n"
proof (cases "m \<le> n")
  case True
  then show ?thesis using power_int_increasing [of m n "2::rat"] by simp
next
  case False
  then show ?thesis using power_int_strict_increasing [of n m "2::rat"] by simp
qed

lemma powi_less_iff: "(2::rat) powi m < 2 powi n \<longleftrightarrow> m < n"
  using powi_le_iff [of n m] by linarith

lemma ilog2_bounds:
  assumes "0 < x"
  shows "2 powi ilog2 x \<le> x" "x < 2 powi (ilog2 x + 1)"
proof -
  obtain a b where ab: "quotient_of x = (a, b)" by fastforce
  then have x: "x = of_int a / of_int b" and b: "0 < b"
    by (simp_all add: quotient_of_div quotient_of_denom_pos)
  from assms x b have a: "0 < a" by (simp add: zero_less_divide_iff)
  define i j where "i = bitlen a" and "j = bitlen b"
  have pos: "0 < i" "0 < j"
    using a b bitlen_nonneg [of a] bitlen_nonneg [of b] bitlen_eq_zero_iff [of a] bitlen_eq_zero_iff [of b]
    unfolding i_def j_def by linarith+
  have "2 ^ nat (i - 1) \<le> a" "a < 2 ^ nat i" "2 ^ nat (j - 1) \<le> b" "b < 2 ^ nat j"
    using bitlen_bounds [OF a] bitlen_bounds [OF b] by (simp_all add: i_def j_def)
  then have bnds: "(2::rat) powi (i - 1) \<le> of_int a" "of_int a < (2::rat) powi i"
    "(2::rat) powi (j - 1) \<le> of_int b" "of_int b < (2::rat) powi j"
    using pos by (simp_all only: powi_nat of_int_le_iff of_int_less_iff)
  have bq: "(0::rat) < of_int b" using b by simp
  have p: "(2::rat) powi (i - j - 1) * 2 powi j = 2 powi (i - 1)"
    "(2::rat) powi (i - j + 1) * 2 powi (j - 1) = 2 powi i"
    by (simp_all flip: power_int_add)
  have lo: "2 powi (i - j - 1) < x"
  proof -
    have "(2::rat) powi (i - j - 1) * of_int b < 2 powi (i - j - 1) * 2 powi j"
      using bnds(4) by (intro mult_strict_left_mono) auto
    also have "\<dots> \<le> of_int a" using bnds(1) p(1) by simp
    finally show ?thesis using bq by (simp add: x less_divide_eq)
  qed
  have hi: "x < 2 powi (i - j + 1)"
  proof -
    have "of_int a < (2::rat) powi (i - j + 1) * 2 powi (j - 1)" using bnds(2) p(2) by simp
    also have "\<dots> \<le> 2 powi (i - j + 1) * of_int b"
      using bnds(3) by (intro mult_left_mono) auto
    finally show ?thesis using bq by (simp add: x divide_less_eq)
  qed
  show "2 powi ilog2 x \<le> x" "x < 2 powi (ilog2 x + 1)"
    using lo hi by (auto simp: ilog2_def ab i_def [symmetric] j_def [symmetric] Let_def)
qed


lemma ilog2_mono:
  assumes "0 < x" "x \<le> y"
  shows "ilog2 x \<le> ilog2 y"
proof -
  have "(2::rat) powi ilog2 x \<le> x" "y < 2 powi (ilog2 y + 1)"
    using assms ilog2_bounds [of x] ilog2_bounds [of y] by auto
  with assms have "(2::rat) powi ilog2 x < 2 powi (ilog2 y + 1)" by linarith
  then show ?thesis by (simp only: powi_less_iff)
qed

text \<open>The exponent of the last place that \<open>rnd\<close> keeps.\<close>

definition ulp_exp :: "int \<Rightarrow> int \<Rightarrow> rat \<Rightarrow> int" where
  "ulp_exp p emin x = max emin (ilog2 \<bar>x\<bar> - (p - 1))"

lemma rnd_ulp: "x \<noteq> 0 \<Longrightarrow> rnd p emin x =
    of_int (rhe (x * 2 powi (- ulp_exp p emin x))) * 2 powi ulp_exp p emin x"
  by (simp add: rnd_def ulp_exp_def Let_def)

lemma rnd_0 [simp]: "rnd p emin 0 = 0"
  by (simp add: rnd_def)

lemma rnd_minus: "rnd p emin (- x) = - rnd p emin x"
  by (simp add: rnd_def Let_def rhe_minus)

lemma powi_shift: "(2::rat) powi a * 2 powi (- b) = 2 powi (a - b)"
  by (simp flip: power_int_add)

lemma powi_cancel: "(n::rat) * 2 powi (a - b) * 2 powi b = n * 2 powi a"
  by (simp add: mult.assoc flip: power_int_add)

lemma rnd_le_pow:
  assumes "0 < x" "x \<le> 2 powi k" "ulp_exp p emin x \<le> k"
  shows "rnd p emin x \<le> 2 powi k"
proof -
  define e where "e = ulp_exp p emin x"
  have "x * 2 powi (- e) \<le> 2 powi k * 2 powi (- e)"
    using assms(2) by (intro mult_right_mono) auto
  also have "\<dots> = of_int (2 ^ nat (k - e))"
    using assms(3) by (simp add: powi_shift powi_nat e_def)
  finally have "rhe (x * 2 powi (- e)) \<le> 2 ^ nat (k - e)"
    using rhe_mono rhe_of_int by metis
  then have "of_int (rhe (x * 2 powi (- e))) \<le> (2::rat) powi (k - e)"
    using assms(3) by (simp only: powi_nat of_int_le_iff e_def diff_ge_0_iff_ge)
  then have "of_int (rhe (x * 2 powi (- e))) * (2::rat) powi e \<le> 2 powi (k - e) * 2 powi e"
    by (intro mult_right_mono) auto
  also have "\<dots> = 2 powi k" using powi_cancel [of 1 k e] by simp
  finally show ?thesis using assms(1) by (simp add: rnd_ulp e_def)
qed

lemma rnd_ge_pow:
  assumes "0 < x" "2 powi k \<le> x" "ulp_exp p emin x \<le> k"
  shows "2 powi k \<le> rnd p emin x"
proof -
  define e where "e = ulp_exp p emin x"
  have "of_int (2 ^ nat (k - e)) = (2::rat) powi k * 2 powi (- e)"
    using assms(3) by (simp add: powi_shift powi_nat e_def)
  also have "\<dots> \<le> x * 2 powi (- e)"
    using assms(2) by (intro mult_right_mono) auto
  finally have "2 ^ nat (k - e) \<le> rhe (x * 2 powi (- e))"
    using rhe_mono rhe_of_int by metis
  then have "(2::rat) powi (k - e) \<le> of_int (rhe (x * 2 powi (- e)))"
    using assms(3) by (simp only: powi_nat of_int_le_iff e_def diff_ge_0_iff_ge)
  then have "(2::rat) powi (k - e) * 2 powi e \<le> of_int (rhe (x * 2 powi (- e))) * 2 powi e"
    by (intro mult_right_mono) auto
  also have "\<dots> = rnd p emin x" using assms(1) by (simp add: rnd_ulp e_def)
  finally show ?thesis using powi_cancel [of 1 k e] by simp
qed

lemma rnd_nonneg: "0 \<le> x \<Longrightarrow> 0 \<le> rnd p emin x"
proof (cases "x = 0")
  case False
  assume "0 \<le> x"
  then have "rhe 0 \<le> rhe (x * 2 powi (- ulp_exp p emin x))"
    by (intro rhe_mono) auto
  with False show ?thesis using rhe_of_int [of 0] by (simp add: rnd_ulp)
qed simp

lemma rnd_mono_pos:
  assumes "0 < x" "x \<le> y" "1 \<le> p"
  shows "rnd p emin x \<le> rnd p emin y"
proof -
  define a b where "a = ulp_exp p emin x" and "b = ulp_exp p emin y"
  have y: "0 < y" using assms by linarith
  have E: "ilog2 x \<le> ilog2 y" using assms by (intro ilog2_mono)
  then have "a \<le> b" using assms y by (simp add: a_def b_def ulp_exp_def)
  then consider "a = b" | "a < b" by linarith
  then show ?thesis
  proof cases
    case 1
    have "rhe (x * 2 powi (- a)) \<le> rhe (y * 2 powi (- a))"
      using assms by (intro rhe_mono mult_right_mono) auto
    then have "of_int (rhe (x * 2 powi (- a))) * (2::rat) powi a \<le> of_int (rhe (y * 2 powi (- a))) * 2 powi a"
      by (intro mult_right_mono) auto
    with 1 assms y show ?thesis by (simp add: rnd_ulp a_def b_def)
  next
    case 2
    then have lt: "ilog2 x + 1 \<le> ilog2 y" and b: "b = ilog2 y - (p - 1)"
      using assms y by (auto simp: a_def b_def ulp_exp_def)
    have "x \<le> 2 powi (ilog2 x + 1)" using ilog2_bounds(2) [OF assms(1)] by simp
    also have "\<dots> \<le> 2 powi ilog2 y" using lt by (simp only: powi_le_iff)
    finally have "rnd p emin x \<le> 2 powi ilog2 y"
      using assms 2 b by (intro rnd_le_pow) (auto simp: a_def)
    also have "\<dots> \<le> rnd p emin y"
      using y b assms ilog2_bounds(1) [OF y] by (intro rnd_ge_pow) (auto simp: b_def)
    finally show ?thesis .
  qed
qed

lemma rnd_mono:
  assumes "1 \<le> p" "x \<le> y"
  shows "rnd p emin x \<le> rnd p emin y"
proof -
  consider "0 < x" | "x \<le> 0" "0 \<le> y" | "y < 0" using assms by linarith
  then show ?thesis
  proof cases
    case 1
    then show ?thesis using assms by (intro rnd_mono_pos)
  next
    case 2
    then have "0 \<le> rnd p emin (- x)" "0 \<le> rnd p emin y" by (simp_all add: rnd_nonneg)
    then show ?thesis by (simp add: rnd_minus)
  next
    case 3
    then have "rnd p emin (- y) \<le> rnd p emin (- x)" using assms by (intro rnd_mono_pos) auto
    then show ?thesis by (simp add: rnd_minus)
  qed
qed

text \<open>The numbers a format represents: \<open>n * 2 ^ e\<close> with at most \<open>p\<close> bits in \<open>n\<close>.\<close>

definition isf :: "int \<Rightarrow> int \<Rightarrow> rat \<Rightarrow> bool" where
  "isf p emin x \<longleftrightarrow> (\<exists>n e. x = of_int n * 2 powi e \<and> \<bar>n\<bar> < 2 ^ nat p \<and> emin \<le> e)"

lemma isfI: "x = of_int n * 2 powi e \<Longrightarrow> \<bar>n\<bar> < 2 ^ nat p \<Longrightarrow> emin \<le> e \<Longrightarrow> isf p emin x"
  by (auto simp: isf_def)

lemma isf_minus: "isf p emin (- x) \<longleftrightarrow> isf p emin x"
proof -
  have "isf p emin (- y)" if y: "isf p emin y" for y
  proof -
    from y obtain n e where "y = of_int n * 2 powi e" "\<bar>n\<bar> < 2 ^ nat p" "emin \<le> e"
      by (auto simp: isf_def)
    then show ?thesis by (intro isfI [of _ "- n" e]) auto
  qed
  from this [of x] this [of "- x"] show ?thesis by auto
qed

lemma rnd_isf:
  assumes "isf p emin x" "1 \<le> p"
  shows "rnd p emin x = x"
proof (cases "x = 0")
  case False
  from assms obtain n e where x: "x = of_int n * 2 powi e" and n: "\<bar>n\<bar> < 2 ^ nat p" and e: "emin \<le> e"
    by (auto simp: isf_def)
  define u where "u = ulp_exp p emin x"
  have "\<bar>x\<bar> = of_int \<bar>n\<bar> * 2 powi e" by (simp add: x abs_mult)
  also have "\<dots> < of_int (2 ^ nat p) * 2 powi e"
    using n by (intro mult_strict_right_mono) (simp_all only: of_int_less_iff zero_less_power_int zero_less_numeral)
  also have "\<dots> = 2 powi (p + e)" using assms(2) by (simp add: power_int_add powi_nat)
  finally have "(2::rat) powi ilog2 \<bar>x\<bar> < 2 powi (p + e)"
    using ilog2_bounds(1) [of "\<bar>x\<bar>"] False by linarith
  then have "ilog2 \<bar>x\<bar> < p + e" by (simp only: powi_less_iff)
  with e have u: "u \<le> e" by (simp add: u_def ulp_exp_def)
  have "x * 2 powi (- u) = of_int (n * 2 ^ nat (e - u))"
    using u by (simp add: x mult.assoc powi_shift powi_nat)
  then have "rhe (x * 2 powi (- u)) = n * 2 ^ nat (e - u)" by (simp only: rhe_of_int)
  moreover have "of_int (n * 2 ^ nat (e - u)) * (2::rat) powi u = x"
    using u powi_cancel [of "of_int n" e u] by (simp add: x powi_nat)
  ultimately show ?thesis using False by (simp add: rnd_ulp u_def)
qed simp

lemma isf_rnd_pos:
  assumes "0 < x" "1 \<le> p"
  shows "isf p emin (rnd p emin x)"
proof -
  define e where "e = ulp_exp p emin x"
  define n where "n = rhe (x * 2 powi (- e))"
  have "emin \<le> e" "ilog2 x + 1 \<le> p + e" using assms by (auto simp: e_def ulp_exp_def)
  moreover from this have "x * 2 powi (- e) \<le> of_int (2 ^ nat p)"
  proof -
    have "x \<le> 2 powi (p + e)"
      using ilog2_bounds(2) [OF assms(1)] \<open>ilog2 x + 1 \<le> p + e\<close> powi_le_iff [of "ilog2 x + 1" "p + e"] by linarith
    then have "x * 2 powi (- e) \<le> 2 powi (p + e) * 2 powi (- e)" by (intro mult_right_mono) auto
    then show ?thesis using assms(2) powi_shift [of "p + e" e] powi_nat [of p] by simp
  qed
  ultimately have n: "n \<le> 2 ^ nat p" unfolding n_def using rhe_mono rhe_of_int by metis
  have "0 \<le> n" unfolding n_def using assms(1) rhe_mono [of 0 "x * 2 powi (- e)"] rhe_of_int [of 0] by simp
  have r: "rnd p emin x = of_int n * 2 powi e" using assms(1) by (simp add: rnd_ulp e_def n_def)
  show ?thesis
  proof (cases "n = 2 ^ nat p")
    case True
    then have "rnd p emin x = 2 powi (p + e)"
      using assms(2) r powi_nat [of p] by (simp add: power_int_add)
    also have "\<dots> = of_int (2 ^ nat (p - 1)) * 2 powi (e + 1)"
      using assms(2) powi_nat [of "p - 1"] power_int_add [of "2::rat" "p - 1" "e + 1"] by simp
    finally have "rnd p emin x = of_int (2 ^ nat (p - 1)) * 2 powi (e + 1)" .
    moreover have "(2::int) ^ nat (p - 1) < 2 ^ nat p" using assms(2) by simp
    ultimately show ?thesis using \<open>emin \<le> e\<close>
      by (intro isfI [of _ "2 ^ nat (p - 1)" "e + 1"]) auto
  next
    case False
    with n \<open>0 \<le> n\<close> \<open>emin \<le> e\<close> r show ?thesis
      by (intro isfI [of _ n e]) auto
  qed
qed

lemma isf_0 [simp]: "isf p emin 0"
  by (rule isfI [of _ 0 emin]) auto

lemma isf_rnd: "1 \<le> p \<Longrightarrow> isf p emin (rnd p emin x)"
  using isf_rnd_pos [of x p emin] isf_rnd_pos [of "- x" p emin]
  by (cases x "0::rat" rule: linorder_cases) (auto simp: rnd_minus isf_minus)


text \<open>Code equations on integers: one normalisation of a fraction per rounding.\<close>

definition rhe_div :: "int \<Rightarrow> int \<Rightarrow> int" where
  "rhe_div a b = (let q = a div b; r = 2 * (a mod b) in
     if r < b then q else if b < r then q + 1 else if even q then q else q + 1)"

lemma rhe_div: "0 < b \<Longrightarrow> rhe (of_int a / of_int b) = rhe_div a b"
proof -
  assume b: "0 < b"
  have q: "\<lfloor>of_int a / of_int b :: rat\<rfloor> = a div b" by (rule floor_divide_of_int_eq)
  have "of_int a = of_int (a div b) * of_int b + (of_int (a mod b) :: rat)"
    by (metis div_mult_mod_eq of_int_add of_int_mult)
  then have "of_int a / of_int b - of_int (a div b) = (of_int (a mod b) / of_int b :: rat)"
    using b by (simp add: field_simps)
  moreover have "(of_int m / of_int b < (1 / 2 :: rat)) = (2 * m < b)"
    "((1 / 2 :: rat) < of_int m / of_int b) = (b < 2 * m)" for m
  proof -
    have "(of_int m / of_int b < (1 / 2 :: rat)) = (of_int (2 * m) < (of_int b :: rat))"
      "((1 / 2 :: rat) < of_int m / of_int b) = ((of_int b :: rat) < of_int (2 * m))"
      using b by (simp_all add: field_simps)
    then show "(of_int m / of_int b < (1 / 2 :: rat)) = (2 * m < b)"
      "((1 / 2 :: rat) < of_int m / of_int b) = (b < 2 * m)"
      by (simp_all only: of_int_less_iff)
  qed
  ultimately show ?thesis by (simp only: rhe_def rhe_div_def q Let_def)
qed

definition scale_int :: "int \<Rightarrow> int \<Rightarrow> int" where
  "scale_int a e = a * 2 ^ nat e"

lemma ilog2_code [code]:
  "ilog2 x = (let (a, b) = quotient_of x; k = bitlen a - bitlen b in
     if scale_int b k \<le> scale_int a (- k) then k else k - 1)"
proof -
  obtain a b where ab: "quotient_of x = (a, b)" by fastforce
  then have x: "x = of_int a / of_int b" and b: "0 < b"
    by (simp_all add: quotient_of_div quotient_of_denom_pos)
  have "(2 powi k \<le> x) = (scale_int b k \<le> scale_int a (- k))" for k
  proof (cases "0 \<le> k")
    case True
    then have "(2 powi k \<le> x) = (of_int (2 ^ nat k * b) \<le> (of_int a :: rat))"
      using b by (simp add: x powi_nat field_simps)
    then show ?thesis using True by (simp only: scale_int_def of_int_le_iff mult.commute) simp
  next
    case False
    then have "(2::rat) powi k = 1 / of_int (2 ^ nat (- k))"
      using powi_nat [of "- k"] power_int_minus [of "2::rat" "- k"] by (simp add: field_simps)
    moreover have "(1 / d \<le> x) = (of_int b \<le> (of_int a * d :: rat))" if "0 < d" for d
      using b that by (simp add: x field_simps)
    ultimately have "(2 powi k \<le> x) = (of_int b \<le> (of_int (a * 2 ^ nat (- k)) :: rat))"
      by simp
    then show ?thesis using False by (simp only: scale_int_def of_int_le_iff) simp
  qed
  then show ?thesis by (simp add: ilog2_def ab)
qed

lemma rnd_code [code]:
  "rnd p emin x = (if x = 0 then 0 else
     let (a, b) = quotient_of x; e = max emin (ilog2 \<bar>x\<bar> - (p - 1));
         n = rhe_div (scale_int a (- e)) (scale_int b e) in
     Fract (scale_int n e) (scale_int 1 (- e)))"
proof (cases "x = 0")
  case False
  obtain a b where ab: "quotient_of x = (a, b)" by fastforce
  then have x: "x = of_int a / of_int b" and b: "0 < b"
    by (simp_all add: quotient_of_div quotient_of_denom_pos)
  have "of_int (rhe (x * 2 powi (- e))) * 2 powi e =
     Fract (scale_int (rhe_div (scale_int a (- e)) (scale_int b e)) e) (scale_int 1 (- e))" for e
  proof -
    have "x * 2 powi (- e) = of_int (scale_int a (- e)) / of_int (scale_int b e)"
    proof (cases "0 \<le> e")
      case True
      then show ?thesis by (simp add: x scale_int_def power_int_minus powi_nat field_simps)
    next
      case False
      then show ?thesis by (simp add: x scale_int_def powi_nat)
    qed
    moreover have "0 < scale_int b e" using b by (simp add: scale_int_def)
    ultimately have r: "rhe (x * 2 powi (- e)) = rhe_div (scale_int a (- e)) (scale_int b e)"
      by (simp only: rhe_div)
    have "of_int n * 2 powi e = Fract (scale_int n e) (scale_int 1 (- e))" for n
    proof (cases "0 \<le> e")
      case True
      then show ?thesis by (simp add: scale_int_def powi_nat Fract_of_int_quotient)
    next
      case False
      then have "(2::rat) powi e = 1 / of_int (2 ^ nat (- e))"
        using powi_nat [of "- e"] power_int_minus [of "2::rat" "- e"] by (simp add: field_simps)
      with False show ?thesis by (simp add: scale_int_def Fract_of_int_quotient)
    qed
    then show ?thesis by (simp only: r)
  qed
  with False show ?thesis by (simp add: rnd_def ab Let_def)
qed simp

section \<open>Floats\<close>

datatype pyfloat = Fin rat | NZero | PInf | NInf | NaN

fun fin :: "pyfloat \<Rightarrow> bool" where
  "fin (Fin _) = True"
| "fin NZero = True"
| "fin _ = False"

fun fval :: "pyfloat \<Rightarrow> rat" where
  "fval (Fin x) = x"
| "fval _ = 0"

text \<open>The sign bit.\<close>

fun fsign :: "pyfloat \<Rightarrow> bool" where
  "fsign (Fin x) = (x < 0)"
| "fsign NZero = True"
| "fsign PInf = False"
| "fsign NInf = True"
| "fsign NaN = False"

abbreviation rnd64 :: "rat \<Rightarrow> rat" where
  "rnd64 \<equiv> rnd 53 (-1074)"

text \<open>
  Round an exact result to binary64. \<open>neg\<close> is the sign of a zero result. A result whose
  rounding reaches \<open>2 ^ 1024\<close> becomes an infinity.
\<close>

definition round64 :: "bool \<Rightarrow> rat \<Rightarrow> pyfloat" where
  "round64 neg x = (let r = rnd64 x in
     if r = 0 then (if neg then NZero else Fin 0)
     else if 1024 \<le> ilog2 \<bar>r\<bar> then (if r < 0 then NInf else PInf)
     else Fin r)"

text \<open>A float literal, and the conversion of an exactly given number.\<close>

definition flit :: "rat \<Rightarrow> pyfloat" where
  "flit x = round64 (x < 0) x"

fun fneg :: "pyfloat \<Rightarrow> pyfloat" where
  "fneg (Fin x) = (if x = 0 then NZero else Fin (- x))"
| "fneg NZero = Fin 0"
| "fneg PInf = NInf"
| "fneg NInf = PInf"
| "fneg NaN = NaN"

fun fabs :: "pyfloat \<Rightarrow> pyfloat" where
  "fabs (Fin x) = Fin \<bar>x\<bar>"
| "fabs NZero = Fin 0"
| "fabs PInf = PInf"
| "fabs NInf = PInf"
| "fabs NaN = NaN"

definition finf :: "bool \<Rightarrow> pyfloat" where
  "finf neg = (if neg then NInf else PInf)"

definition fadd :: "pyfloat \<Rightarrow> pyfloat \<Rightarrow> pyfloat" where
  "fadd a b =
     (if a = NaN \<or> b = NaN then NaN
      else if \<not> fin a then (if \<not> fin b \<and> a \<noteq> b then NaN else a)
      else if \<not> fin b then b
      else let x = fval a + fval b in
        round64 (x < 0 \<or> x = 0 \<and> fsign a \<and> fsign b) x)"

definition fsub :: "pyfloat \<Rightarrow> pyfloat \<Rightarrow> pyfloat" where
  "fsub a b = fadd a (fneg b)"

definition fmul :: "pyfloat \<Rightarrow> pyfloat \<Rightarrow> pyfloat" where
  "fmul a b =
     (let neg = (fsign a \<noteq> fsign b) in
      if a = NaN \<or> b = NaN then NaN
      else if \<not> fin a \<or> \<not> fin b then
        (if fin a \<and> fval a = 0 \<or> fin b \<and> fval b = 0 then NaN else finf neg)
      else round64 neg (fval a * fval b))"

text \<open>Division raises on a zero divisor, also for a NaN dividend.\<close>

definition fdiv :: "pyfloat \<Rightarrow> pyfloat \<Rightarrow> pyfloat res" where
  "fdiv a b =
     (let neg = (fsign a \<noteq> fsign b) in
      if fin b \<and> fval b = 0 then Inl ZeroDivisionError
      else if a = NaN \<or> b = NaN then Inr NaN
      else if \<not> fin a then Inr (if fin b then finf neg else NaN)
      else if \<not> fin b then Inr (if neg then NZero else Fin 0)
      else Inr (round64 neg (fval a / fval b)))"

text \<open>\<open>x ** 2\<close>: an overflow raises.\<close>

definition fsquare :: "pyfloat \<Rightarrow> pyfloat res" where
  "fsquare a =
     (if a = NaN then Inr NaN
      else if \<not> fin a then Inr PInf
      else let r = round64 False (fval a * fval a) in
        if fin r then Inr r else Inl OverflowError)"

text \<open>\<open>10.0 ** k\<close> for an integer \<open>k\<close>.\<close>

definition fpow10 :: "int \<Rightarrow> pyfloat res" where
  "fpow10 k = (let r = round64 False (10 powi k) in
     if fin r then Inr r else Inl OverflowError)"

subsection \<open>Comparisons, minimum and maximum\<close>

definition flt :: "pyfloat \<Rightarrow> pyfloat \<Rightarrow> bool" where
  "flt a b = (if a = NaN \<or> b = NaN then False
     else if fin a \<and> fin b then fval a < fval b
     else (a = NInf \<and> b \<noteq> NInf) \<or> (b = PInf \<and> a \<noteq> PInf))"

definition feq :: "pyfloat \<Rightarrow> pyfloat \<Rightarrow> bool" where
  "feq a b = (if a = NaN \<or> b = NaN then False
     else if fin a \<and> fin b then fval a = fval b else a = b)"

definition fle :: "pyfloat \<Rightarrow> pyfloat \<Rightarrow> bool" where
  "fle a b \<longleftrightarrow> flt a b \<or> feq a b"

text \<open>Python's \<open>max(a, b)\<close> and \<open>min(a, b)\<close> keep the first argument unless the second is strictly better.\<close>

definition fmax :: "pyfloat \<Rightarrow> pyfloat \<Rightarrow> pyfloat" where
  "fmax a b = (if flt a b then b else a)"

definition fmin :: "pyfloat \<Rightarrow> pyfloat \<Rightarrow> pyfloat" where
  "fmin a b = (if flt b a then b else a)"

subsection \<open>Conversions\<close>

definition trunc :: "rat \<Rightarrow> int" where
  "trunc x = (if 0 \<le> x then \<lfloor>x\<rfloor> else \<lceil>x\<rceil>)"

text \<open>\<open>int(x)\<close> and \<open>round(x)\<close> of a float, \<open>float(n)\<close> of an integer, \<open>math.isfinite\<close>.\<close>

fun int_of_float :: "pyfloat \<Rightarrow> int res" where
  "int_of_float (Fin x) = Inr (trunc x)"
| "int_of_float NZero = Inr 0"
| "int_of_float NaN = Inl ValueError"
| "int_of_float _ = Inl OverflowError"

fun round_float :: "pyfloat \<Rightarrow> int res" where
  "round_float (Fin x) = Inr (rhe x)"
| "round_float NZero = Inr 0"
| "round_float NaN = Inl ValueError"
| "round_float _ = Inl OverflowError"

definition float_of_int :: "int \<Rightarrow> pyfloat res" where
  "float_of_int n = (let r = round64 False (of_int n) in
     if fin r then Inr r else Inl OverflowError)"


section \<open>Laws of float arithmetic\<close>

text \<open>The magnitude at which binary64 overflows.\<close>

definition lim64 :: rat where
  "lim64 = 2 powi 1024"

lemma lim64_pos [simp]: "0 < lim64" "0 \<le> lim64" "\<not> lim64 \<le> 0"
  by (simp_all add: lim64_def)

text \<open>A well-formed float: a finite one is a binary64 number.\<close>

fun wff :: "pyfloat \<Rightarrow> bool" where
  "wff (Fin x) \<longleftrightarrow> isf 53 (-1074) x \<and> \<bar>x\<bar> < lim64"
| "wff _ = True"

named_theorems fl \<open>values of float operations on finite arguments\<close>

lemma ilog2_ge_iff: "0 < x \<Longrightarrow> k \<le> ilog2 x \<longleftrightarrow> 2 powi k \<le> x"
proof -
  assume x: "0 < x"
  note b = ilog2_bounds [OF x]
  show ?thesis
  proof
    assume "k \<le> ilog2 x"
    then have "(2::rat) powi k \<le> 2 powi ilog2 x" by (simp only: powi_le_iff)
    with b show "2 powi k \<le> x" by linarith
  next
    assume "2 powi k \<le> x"
    with b have "(2::rat) powi k < 2 powi (ilog2 x + 1)" by linarith
    then show "k \<le> ilog2 x" by (simp only: powi_less_iff)
  qed
qed

lemma ilog2_unique: "2 powi k \<le> x \<Longrightarrow> x < 2 powi (k + 1) \<Longrightarrow> ilog2 x = k"
proof -
  assume k: "2 powi k \<le> x" "x < 2 powi (k + 1)"
  have x: "0 < x" by (rule less_le_trans [OF _ k(1)]) simp
  with k ilog2_ge_iff [of x k] ilog2_ge_iff [of x "k + 1"] show ?thesis by simp
qed

lemma fin_round64: "fin (round64 s x) \<longleftrightarrow> \<bar>rnd64 x\<bar> < lim64"
  using ilog2_ge_iff [of "\<bar>rnd64 x\<bar>" 1024, folded lim64_def] by (auto simp: round64_def Let_def not_le)

lemma fval_round64: "fin (round64 s x) \<Longrightarrow> fval (round64 s x) = rnd64 x"
  by (auto simp: round64_def Let_def split: if_splits)

lemma round64_cases:
  obtains "fin (round64 s x)" "fval (round64 s x) = rnd64 x"
    | "round64 s x = PInf" "lim64 \<le> rnd64 x"
    | "round64 s x = NInf" "rnd64 x \<le> - (lim64)"
proof (cases "fin (round64 s x)")
  case True
  then show ?thesis using that(1) fval_round64 by blast
next
  case False
  with ilog2_ge_iff [of "\<bar>rnd64 x\<bar>" 1024, folded lim64_def] show ?thesis
    using that(2,3) by (auto simp: round64_def Let_def split: if_splits)
qed

lemma wff_round64 [simp]: "wff (round64 s x)"
  using fin_round64 [of s x] isf_rnd [of 53 "-1074" x]
  by (cases "fin (round64 s x)") (auto simp: round64_def Let_def split: if_splits)

lemma wff_fval: "wff a \<Longrightarrow> isf 53 (-1074) (fval a) \<and> \<bar>fval a\<bar> < lim64"
  by (cases a) auto

lemma rnd64_fval [simp]: "wff a \<Longrightarrow> rnd64 (fval a) = fval a"
  using wff_fval [of a] by (simp add: rnd_isf)

lemma rnd64_mono: "x \<le> y \<Longrightarrow> rnd64 x \<le> rnd64 y"
  by (rule rnd_mono) simp_all

text \<open>A result between two floats is rounded to a float between them: no overflow.\<close>

lemma round64_between:
  assumes "wff a" "wff b" "fval a \<le> x" "x \<le> fval b"
  shows "fin (round64 s x)" "fval a \<le> fval (round64 s x)" "fval (round64 s x) \<le> fval b"
proof -
  have "fval a \<le> rnd64 x" "rnd64 x \<le> fval b"
    using rnd64_mono [OF assms(3)] rnd64_mono [OF assms(4)] assms(1,2) by simp_all
  then show "fin (round64 s x)"
    using wff_fval [OF assms(1)] wff_fval [OF assms(2)] unfolding fin_round64 by linarith
  then show "fval a \<le> fval (round64 s x)" "fval (round64 s x) \<le> fval b"
    using \<open>fval a \<le> rnd64 x\<close> \<open>rnd64 x \<le> fval b\<close> by (simp_all add: fval_round64)
qed

lemma round64_exact: "isf 53 (-1074) x \<Longrightarrow> \<bar>x\<bar> < lim64 \<Longrightarrow> fin (round64 s x) \<and> fval (round64 s x) = x"
  using fval_round64 [of s x] fin_round64 [of s x] by (simp add: rnd_isf)

text \<open>A strict comparison with a rounded result holds of the exact result.\<close>

lemma flt_round64: "wff m \<Longrightarrow> fin m \<Longrightarrow> flt m (round64 s x) \<Longrightarrow> fval m < x"
proof (rule ccontr)
  assume m: "wff m" "fin m" and lt: "flt m (round64 s x)" and "\<not> fval m < x"
  then have le: "rnd64 x \<le> fval m" using rnd64_mono [of x "fval m"] by simp
  have "fval m < lim64" using wff_fval [OF m(1)] by linarith
  with le m lt show False
    by (cases s x rule: round64_cases) (auto simp: flt_def split: if_splits)
qed

lemma round64_flt: "wff m \<Longrightarrow> fin m \<Longrightarrow> flt (round64 s x) m \<Longrightarrow> x < fval m"
proof (rule ccontr)
  assume m: "wff m" "fin m" and lt: "flt (round64 s x) m" and "\<not> x < fval m"
  then have le: "fval m \<le> rnd64 x" using rnd64_mono [of "fval m" x] by simp
  have "- (lim64) < fval m" using wff_fval [OF m(1)] by linarith
  with le m lt show False
    by (cases s x rule: round64_cases) (auto simp: flt_def split: if_splits)
qed

lemma fin_not_NaN [simp]: "fin a \<Longrightarrow> a \<noteq> NaN" "fin a \<Longrightarrow> a \<noteq> PInf" "fin a \<Longrightarrow> a \<noteq> NInf"
  by auto

lemma flt_fin [fl]: "fin a \<Longrightarrow> fin b \<Longrightarrow> flt a b \<longleftrightarrow> fval a < fval b"
  by (simp add: flt_def)

lemma feq_fin [fl]: "fin a \<Longrightarrow> fin b \<Longrightarrow> feq a b \<longleftrightarrow> fval a = fval b"
  by (simp add: feq_def)

lemma fle_fin [fl]: "fin a \<Longrightarrow> fin b \<Longrightarrow> fle a b \<longleftrightarrow> fval a \<le> fval b"
  by (auto simp: fle_def flt_def feq_def)

lemma fin_fneg [fl, simp]: "fin (fneg a) = fin a"
  by (cases a) simp_all

lemma fval_fneg [fl, simp]: "fval (fneg a) = - fval a"
  by (cases a) simp_all

lemma wff_fneg [simp]: "wff (fneg a) = wff a"
  by (cases a) (simp_all add: isf_minus)

lemma fin_fabs [fl, simp]: "fin (fabs a) = fin a"
  by (cases a) simp_all

lemma fval_fabs [fl, simp]: "fval (fabs a) = \<bar>fval a\<bar>"
  by (cases a) simp_all

lemma wff_fabs [simp]: "wff a \<Longrightarrow> wff (fabs a)"
  by (cases a) (auto simp: isf_minus abs_if)

lemma fadd_fin: "fin a \<Longrightarrow> fin b \<Longrightarrow> \<exists>s. fadd a b = round64 s (fval a + fval b)"
  by (auto simp: fadd_def Let_def)

lemma fsub_fin: "fin a \<Longrightarrow> fin b \<Longrightarrow> \<exists>s. fsub a b = round64 s (fval a - fval b)"
  using fadd_fin [of a "fneg b"] by (simp add: fsub_def)

lemma fmul_fin: "fin a \<Longrightarrow> fin b \<Longrightarrow> \<exists>s. fmul a b = round64 s (fval a * fval b)"
  by (auto simp: fmul_def Let_def)

lemma fdiv_fin: "fin a \<Longrightarrow> fin b \<Longrightarrow> fval b \<noteq> 0 \<Longrightarrow> \<exists>s. fdiv a b = Inr (round64 s (fval a / fval b))"
  by (auto simp: fdiv_def Let_def)

lemma wff_finf [simp]: "wff (finf s)"
  by (simp add: finf_def)

lemma wff_fadd [simp]: "wff a \<Longrightarrow> wff b \<Longrightarrow> wff (fadd a b)"
  by (simp add: fadd_def Let_def)

lemma wff_fsub [simp]: "wff a \<Longrightarrow> wff b \<Longrightarrow> wff (fsub a b)"
  by (simp add: fsub_def)

lemma wff_fmul [simp]: "wff (fmul a b)"
  by (simp add: fmul_def Let_def)

lemma wff_fdiv: "fdiv a b = Inr c \<Longrightarrow> wff c"
  by (auto simp: fdiv_def Let_def split: if_splits)

lemma wff_flit [simp]: "wff (flit x)"
  by (simp add: flit_def)

lemma wff_fmax [simp]: "wff a \<Longrightarrow> wff b \<Longrightarrow> wff (fmax a b)"
  by (simp add: fmax_def)

lemma wff_fmin [simp]: "wff a \<Longrightarrow> wff b \<Longrightarrow> wff (fmin a b)"
  by (simp add: fmin_def)

lemma wff_fsquare: "fsquare a = Inr c \<Longrightarrow> wff c"
  by (auto simp: fsquare_def Let_def split: if_splits)

lemma wff_fpow10: "fpow10 k = Inr c \<Longrightarrow> wff c \<and> fin c"
  by (auto simp: fpow10_def Let_def split: if_splits)

lemma float_of_int_wff: "float_of_int n = Inr c \<Longrightarrow> wff c \<and> fin c"
  by (auto simp: float_of_int_def Let_def split: if_splits)

lemma isf_of_int: "\<bar>n\<bar> < 2 ^ 53 \<Longrightarrow> isf 53 (-1074) (of_int n)"
  by (rule isfI [of _ n 0]) auto

lemma float_of_int_exact:
  assumes "\<bar>n\<bar> < 2 ^ 53"
  shows "\<exists>c. float_of_int n = Inr c \<and> fin c \<and> fval c = of_int n \<and> wff c"
proof -
  have "\<bar>of_int n :: rat\<bar> < of_int (2 ^ 53)" using assms by (simp only: of_int_less_iff flip: of_int_abs)
  also have "(of_int (2 ^ 53) :: rat) = 2 powi 53" by simp
  also have "\<dots> < lim64" by (simp only: powi_less_iff lim64_def)
  finally have "\<bar>of_int n :: rat\<bar> < lim64" .
  then show ?thesis
    using round64_exact [OF isf_of_int [OF assms], of False] by (simp add: float_of_int_def Let_def)
qed

lemma int_of_float_fin: "fin a \<Longrightarrow> int_of_float a = Inr (trunc (fval a))"
  by (cases a) (auto simp: trunc_def)

lemma round_float_fin: "fin a \<Longrightarrow> round_float a = Inr (rhe (fval a))"
  by (cases a) (use rhe_of_int [of 0] in auto)

lemma trunc_bounds: "\<bar>of_int (trunc x)\<bar> \<le> \<bar>x\<bar>"
  by (auto simp: trunc_def)

end
