(* ===== verification/PyText.thy ===== *)
theory PyText
  imports Prelude
begin

text \<open>
  Python text and bytes: the string methods the sources call on ASCII identifiers
  (\<open>strip\<close>, \<open>upper\<close>, \<open>lower\<close>, \<open>startswith\<close>, \<open>in\<close>), \<open>int(text, base)\<close>,
  \<open>int.from_bytes\<close> and \<open>int.to_bytes\<close> in little-endian order, and \<open>bytes.hex\<close>.
  Identifiers (names, data types, roles) are \<open>string\<close>; values of string objects are
  lists of Unicode code points.
\<close>

section \<open>Bytes\<close>

type_synonym byte = "8 word"
type_synonym bytes = "byte list"
type_synonym pystr = "nat list"

text \<open>\<open>int.from_bytes(bs, 'little', signed=...)\<close>.\<close>

fun le_uint :: "bytes \<Rightarrow> int" where
  "le_uint [] = 0"
| "le_uint (b # bs) = uint b + 256 * le_uint bs"

definition le_sint :: "bytes \<Rightarrow> int" where
  "le_sint bs = (let u = le_uint bs; n = 8 * length bs in
     if bs \<noteq> [] \<and> 2 ^ (n - 1) \<le> u then u - 2 ^ n else u)"

text \<open>The \<open>n\<close> low bytes of an integer in two's complement.\<close>

fun le_bytes :: "nat \<Rightarrow> int \<Rightarrow> bytes" where
  "le_bytes 0 v = []"
| "le_bytes (Suc n) v = word_of_int v # le_bytes n (v div 256)"

text \<open>\<open>v.to_bytes(n, 'little', signed=...)\<close> raises when the value does not fit.\<close>

definition fits :: "bool \<Rightarrow> nat \<Rightarrow> int \<Rightarrow> bool" where
  "fits sgnd n v =
     (if sgnd then (if n = 0 then v = 0 else - (2 ^ (8 * n - 1)) \<le> v \<and> v < 2 ^ (8 * n - 1))
      else 0 \<le> v \<and> v < 2 ^ (8 * n))"

definition to_bytes :: "bool \<Rightarrow> nat \<Rightarrow> int \<Rightarrow> bytes res" where
  "to_bytes sgnd n v = (if fits sgnd n v then Inr (le_bytes n v) else Inl OverflowError)"

lemma length_le_bytes [simp]: "length (le_bytes n v) = n"
  by (induction n arbitrary: v) auto

lemma le_bytes_eq_Nil [simp]: "le_bytes n v = [] \<longleftrightarrow> n = 0"
  by (cases n) simp_all

lemma le_uint_nonneg [simp]: "0 \<le> le_uint bs"
  by (induction bs) auto

lemma le_uint_less: "le_uint bs < 2 ^ (8 * length bs)"
proof (induction bs)
  case (Cons b bs)
  have "uint b < 256" using uint_lt2p [of b] by simp
  with Cons show ?case by (simp add: power_add)
qed simp

lemma le_uint_le_bytes: "le_uint (le_bytes n v) = v mod 2 ^ (8 * n)"
proof (induction n arbitrary: v)
  case (Suc n)
  have "v mod (256 * 2 ^ (8 * n)) = 256 * (v div 256 mod 2 ^ (8 * n)) + v mod 256"
    by (rule zmod_zmult2_eq) simp
  with Suc show ?case by (simp add: uint_word_of_int power_add)
qed simp

lemma le_bytes_le_uint [simp]: "le_bytes (length bs) (le_uint bs) = bs"
proof (induction bs)
  case (Cons b bs)
  have b: "0 \<le> uint b" "uint b < 256" using uint_lt2p [of b] by simp_all
  then have "(uint b + 256 * le_uint bs) div 256 = le_uint bs" by simp
  moreover have "uint (word_of_int (uint b + 256 * le_uint bs) :: byte) = uint b"
    using b by (simp only: uint_word_of_int) simp
  then have "word_of_int (uint b + 256 * le_uint bs) = b"
    by (simp only: word_uint_eq_iff)
  ultimately show ?case using Cons by simp
qed simp

lemma le_bytes_mod: "le_bytes n (v mod 2 ^ (8 * n)) = le_bytes n v"
  using le_bytes_le_uint [of "le_bytes n v"] by (simp add: le_uint_le_bytes)

lemma le_sint_range: "bs \<noteq> [] \<Longrightarrow> fits True (length bs) (le_sint bs)"
proof -
  assume ne: "bs \<noteq> []"
  define h :: int where "h = 2 ^ (8 * length bs - 1)"
  have p: "(2::int) ^ (8 * length bs) = 2 * h"
    using ne power_add [of "2::int" 1 "8 * length bs - 1"] by (simp add: h_def Suc_le_eq)
  have "0 < h" by (simp add: h_def)
  with p show ?thesis
    using ne le_uint_less [of bs] le_uint_nonneg [of bs]
    by (auto simp: le_sint_def fits_def Let_def simp flip: h_def One_nat_def simp del: le_uint_nonneg)
qed

lemma le_bytes_le_sint [simp]: "le_bytes (length bs) (le_sint bs) = bs"
proof -
  have "le_sint bs mod 2 ^ (8 * length bs) = le_uint bs"
    using le_uint_less [of bs] by (auto simp: le_sint_def Let_def mod_pos_pos_trivial minus_mod_self2)
  then show ?thesis by (metis le_bytes_le_uint le_bytes_mod)
qed

lemma le_uint_to_bytes: "fits False n v \<Longrightarrow> le_uint (le_bytes n v) = v"
  by (simp add: fits_def le_uint_le_bytes)

lemma le_sint_to_bytes: "fits True n v \<Longrightarrow> le_sint (le_bytes n v) = v"
proof (cases "n = 0")
  case False
  assume f: "fits True n v"
  have p: "(2::int) ^ (8 * n) = 2 * 2 ^ (8 * n - 1)" using False power_add [of "2::int" 1 "8 * n - 1"] by simp
  show ?thesis
  proof (cases "0 \<le> v")
    case True
    then show ?thesis using f False p
      by (auto simp: le_sint_def fits_def Let_def le_uint_le_bytes)
  next
    case neg: False
    then have "v mod 2 ^ (8 * n) = v + 2 ^ (8 * n)"
      using f False p by (intro mod_pos_pos_trivial [of "v + 2 ^ (8 * n)" "2 ^ (8 * n)", simplified]) (auto simp: fits_def)
    then show ?thesis using neg f False p
      by (auto simp: le_sint_def fits_def Let_def le_uint_le_bytes)
  qed
qed (simp add: fits_def le_sint_def)

section \<open>Text\<close>

definition is_space :: "char \<Rightarrow> bool" where
  "is_space c \<longleftrightarrow> (let n = of_char c :: nat in n = 32 \<or> (9 \<le> n \<and> n \<le> 13) \<or> (28 \<le> n \<and> n \<le> 31))"

text \<open>Evaluation on the bits of a character.\<close>

lemma is_space_code [code]:
  "is_space (Char b0 b1 b2 b3 b4 b5 b6 b7) \<longleftrightarrow>
     \<not> b6 \<and> \<not> b7 \<and> (if b5 then \<not> b4 \<and> \<not> b3 \<and> \<not> b2 \<and> \<not> b1 \<and> \<not> b0
       else b3 \<and> (if b4 then b2 else (if b2 then \<not> b1 else b1 \<or> b0)))"
  by (cases b0; cases b1; cases b2; cases b3; cases b4; cases b5; cases b6; cases b7) (simp_all add: is_space_def Let_def)

definition strip :: "string \<Rightarrow> string" where
  "strip s = rev (dropWhile is_space (rev (dropWhile is_space s)))"

lemma strip_id: "(\<And>c. c \<in> set s \<Longrightarrow> \<not> is_space c) \<Longrightarrow> strip s = s"
proof -
  assume a: "\<And>c. c \<in> set s \<Longrightarrow> \<not> is_space c"
  have d: "dropWhile is_space t = t" if "\<forall>c \<in> set t. \<not> is_space c" for t using that by (cases t) auto
  show ?thesis using a by (simp add: strip_def d)
qed

definition upper_char :: "char \<Rightarrow> char" where
  "upper_char c = (let n = of_char c :: nat in if 97 \<le> n \<and> n \<le> 122 then char_of (n - 32) else c)"

definition lower_char :: "char \<Rightarrow> char" where
  "lower_char c = (let n = of_char c :: nat in if 65 \<le> n \<and> n \<le> 90 then char_of (n + 32) else c)"

definition upper :: "string \<Rightarrow> string" where
  "upper = map upper_char"

definition lower :: "string \<Rightarrow> string" where
  "lower = map lower_char"

definition startswith :: "string \<Rightarrow> string \<Rightarrow> bool" where
  "startswith s p = (take (length p) s = p)"

definition removeprefix :: "string \<Rightarrow> string \<Rightarrow> string" where
  "removeprefix s p = (if startswith s p then drop (length p) s else s)"

text \<open>\<open>p in s\<close>.\<close>

fun contains :: "string \<Rightarrow> string \<Rightarrow> bool" where
  "contains p [] = (p = [])"
| "contains p (c # s) = (startswith (c # s) p \<or> contains p s)"

text \<open>
  \<open>int(text, base)\<close>: surrounding white space, one sign, digits of the base with single
  underscores between them. Base 0 reads the prefixes \<open>0x\<close>, \<open>0o\<close>, \<open>0b\<close> and refuses a
  leading zero; base 16 accepts the prefix \<open>0x\<close>.
\<close>

definition digit_val :: "char \<Rightarrow> nat option" where
  "digit_val c = (let n = of_char c :: nat in
     if 48 \<le> n \<and> n \<le> 57 then Some (n - 48)
     else if 97 \<le> n \<and> n \<le> 122 then Some (n - 87)
     else if 65 \<le> n \<and> n \<le> 90 then Some (n - 55)
     else None)"

fun digits_val :: "nat \<Rightarrow> bool \<Rightarrow> int \<Rightarrow> string \<Rightarrow> int option" where
  \<comment> \<open>\<open>prev\<close> holds when the previous character was a digit\<close>
  "digits_val base prev acc [] = (if prev then Some acc else None)"
| "digits_val base prev acc (c # cs) =
     (if c = CHR ''_'' then (if prev then digits_val base False acc cs else None)
      else case digit_val c of
        None \<Rightarrow> None
      | Some d \<Rightarrow> if d < base then digits_val base True (int base * acc + int d) cs else None)"

fun strip_sign :: "string \<Rightarrow> bool \<times> string" where
  "strip_sign (c # cs) = (if c = CHR ''-'' then (True, cs) else if c = CHR ''+'' then (False, cs) else (False, c # cs))"
| "strip_sign [] = (False, [])"

text \<open>After a base prefix one underscore is allowed.\<close>

definition after_prefix :: "nat \<Rightarrow> string \<Rightarrow> int option" where
  "after_prefix base s = (case s of
      c # cs \<Rightarrow> if c = CHR ''_'' then digits_val base False 0 cs else digits_val base False 0 s
    | [] \<Rightarrow> None)"

definition unsigned_val :: "nat \<Rightarrow> string \<Rightarrow> int option" where
  "unsigned_val base s =
     (let p = lower (take 2 s); r = drop 2 s in
      if base = 0 then
        (if p = ''0x'' then after_prefix 16 r
         else if p = ''0o'' then after_prefix 8 r
         else if p = ''0b'' then after_prefix 2 r
         else case digits_val 10 False 0 s of
           None \<Rightarrow> None
         | Some v \<Rightarrow> if v \<noteq> 0 \<and> startswith s ''0'' then None else Some v)
      else if base = 16 \<and> p = ''0x'' then after_prefix 16 r
      else digits_val base False 0 s)"

definition int_of_str :: "nat \<Rightarrow> string \<Rightarrow> int res" where
  "int_of_str base text =
     (let (neg, s) = strip_sign (strip text) in
      case unsigned_val base s of
        None \<Rightarrow> Inl ValueError
      | Some v \<Rightarrow> Inr (if neg then - v else v))"

lemma int_of_str_examples:
  "int_of_str 10 ''8'' = Inr 8" "int_of_str 10 '''' = Inl ValueError"
  "int_of_str 0 ''0x1C'' = Inr 28" "int_of_str 16 ''ff'' = Inr 255" "int_of_str 0 ''010'' = Inl ValueError"
  by code_simp+

text \<open>\<open>payload.hex()\<close> and \<open>bytes.fromhex\<close> on its output alphabet.\<close>

definition hex_digit :: "nat \<Rightarrow> char" where
  "hex_digit n = (if n < 10 then char_of (48 + n) else char_of (87 + n))"

definition hex_byte :: "byte \<Rightarrow> string" where
  "hex_byte b = [hex_digit (unat b div 16), hex_digit (unat b mod 16)]"

definition hex :: "bytes \<Rightarrow> string" where
  "hex bs = concat (map hex_byte bs)"

definition hex_val :: "char \<Rightarrow> nat option" where
  "hex_val c = (case digit_val c of None \<Rightarrow> None | Some d \<Rightarrow> if d < 16 then Some d else None)"

text \<open>\<open>bytes.fromhex\<close> skips ASCII white space between bytes and raises on anything else.\<close>

definition fromhex_space :: "char \<Rightarrow> bool" where
  "fromhex_space c \<longleftrightarrow> (let n = of_char c :: nat in n = 32 \<or> (9 \<le> n \<and> n \<le> 13))"

fun fromhex :: "string \<Rightarrow> bytes res" where
  "fromhex [] = Inr []"
| "fromhex [c] = (if fromhex_space c then Inr [] else Inl ValueError)"
| "fromhex (c # d # cs) =
     (if fromhex_space c then fromhex (d # cs)
      else case (hex_val c, hex_val d) of
        (Some h, Some l) \<Rightarrow> ebind (fromhex cs) (\<lambda>bs. Inr (of_nat (16 * h + l) # bs))
      | _ \<Rightarrow> Inl ValueError)"

lemma hex_val_digit: "n < 16 \<Longrightarrow> hex_val (hex_digit n) = Some n \<and> \<not> fromhex_space (hex_digit n)"
proof -
  assume "n < 16"
  then show ?thesis
    by (auto simp: hex_digit_def hex_val_def digit_val_def fromhex_space_def Let_def)
qed

lemma fromhex_hex [simp]: "fromhex (hex bs) = Inr bs"
proof (induction bs)
  case (Cons b bs)
  have "unat b < 256" using unsigned_less [where 'a = nat, of b] by simp
  then have "unat b div 16 < 16" "unat b mod 16 < 16" by auto
  moreover have "of_nat (16 * (unat b div 16) + unat b mod 16) = b" by simp
  ultimately show ?case using Cons by (simp add: hex_def hex_byte_def hex_val_digit)
qed (simp add: hex_def)

lemma length_hex [simp]: "length (hex bs) = 2 * length bs"
  by (induction bs) (simp_all add: hex_def hex_byte_def)

lemma hex_inject: "hex a = hex b \<longleftrightarrow> a = b"
  by (metis fromhex_hex Inr_inject)

end
