(* ===== verification/Metadata.thy ===== *)
theory Metadata
  imports PyText
begin

unbundle bit_operations_syntax

text \<open>
  Object and PDO metadata (profile/metadata.py): the wire formats of the data types, the
  dictionary entry of a PDO layout, and the 32-bit PDO mapping words
  (index, subindex, bit length) with their construction and interpretation.
\<close>

section \<open>Data types\<close>

text \<open>The \<open>struct\<close> formats: a boolean byte, little-endian integers, and binary32.\<close>

datatype struct_format = SBool | SInt bool nat | SFloat32

definition DATA_TYPE_FORMATS :: "(string \<times> struct_format) list" where
  "DATA_TYPE_FORMATS =
    [(''bool'', SBool),
     (''uint8'', SInt False 1),
     (''int8'', SInt True 1),
     (''uint16'', SInt False 2),
     (''int16'', SInt True 2),
     (''uint32'', SInt False 4),
     (''int32'', SInt True 4),
     (''uint64'', SInt False 8),
     (''int64'', SInt True 8),
     (''float32'', SFloat32)]"

fun calcsize :: "struct_format \<Rightarrow> nat" where
  "calcsize SBool = 1"
| "calcsize (SInt _ n) = n"
| "calcsize SFloat32 = 4"

definition DATA_TYPE_BITS :: "(string \<times> int) list" where
  "DATA_TYPE_BITS =
     map (\<lambda>(data_type, fmt). (data_type, int (calcsize fmt) * 8)) DATA_TYPE_FORMATS @
     [(''visible_string'', 0), (''octet_string'', 0), (''unicode_string'', 0), (''byte_array'', 0)]"

section \<open>Dictionary entries\<close>

record ObjectDictionaryEntry =
  ode_index :: int
  ode_subindex :: int
  ode_name :: string
  ode_data_type :: string
  ode_field :: "string option"
  ode_default :: int

definition bit_length :: "ObjectDictionaryEntry \<Rightarrow> int res" where
  "bit_length e =
     (if startswith (ode_data_type e) ''padding''
      then int_of_str 10 (removeprefix (ode_data_type e) ''padding'')
      else case map_of DATA_TYPE_BITS (ode_data_type e) of
        None \<Rightarrow> Inl KeyError
      | Some b \<Rightarrow> Inr b)"

definition byte_length :: "ObjectDictionaryEntry \<Rightarrow> int res" where
  "byte_length e = ebind (bit_length e) (\<lambda>b. Inr (b div 8))"

definition mapping_entry :: "ObjectDictionaryEntry \<Rightarrow> int res" where
  "mapping_entry e = ebind (bit_length e) (\<lambda>b.
     Inr (push_bit 16 (ode_index e) OR push_bit 8 (ode_subindex e) OR b))"

definition od_key :: "int \<Rightarrow> int \<Rightarrow> int \<times> int" where
  "od_key index subindex = (index, subindex)"

text \<open>Decimal text of an integer, as an f-string prints it.\<close>

fun nat_digits :: "nat \<Rightarrow> string" where
  "nat_digits n = (if n < 10 then [char_of (48 + n)] else nat_digits (n div 10) @ [char_of (48 + n mod 10)])"

declare nat_digits.simps [simp del]

definition str_of_int :: "int \<Rightarrow> string" where
  "str_of_int v = (if v < 0 then CHR ''-'' # nat_digits (nat (- v)) else nat_digits (nat v))"

definition padding_object :: "int \<Rightarrow> ObjectDictionaryEntry" where
  "padding_object b = \<lparr>ode_index = 0x0000, ode_subindex = 0x00,
     ode_name = ''Padding '' @ str_of_int b, ode_data_type = ''padding'' @ str_of_int b,
     ode_field = None, ode_default = 0\<rparr>"

section \<open>PDO mapping\<close>

type_synonym objects = "((int \<times> int) \<times> ObjectDictionaryEntry) list"

text \<open>What a PDO layout lists: padding, a field name, an address, or a mapping word.\<close>

datatype pdo_item = PdoPadding int | PdoField string | PdoAddress int int | PdoWord int

definition pdo_object_from_dictionary :: "objects \<Rightarrow> int \<Rightarrow> int \<Rightarrow> ObjectDictionaryEntry res" where
  "pdo_object_from_dictionary objs index subindex =
     (case map_of objs (od_key index subindex) of None \<Rightarrow> Inl KeyError | Some e \<Rightarrow> Inr e)"

definition pdo_object_by_field :: "objects \<Rightarrow> string \<Rightarrow> ObjectDictionaryEntry res" where
  "pdo_object_by_field objs field =
     (case filter (\<lambda>e. ode_field e = Some field) (map snd objs) of
        [] \<Rightarrow> Inl KeyError
      | [e] \<Rightarrow> Inr e
      | _ \<Rightarrow> Inl KeyError)"

fun pdo_mapping_entry :: "objects \<Rightarrow> pdo_item \<Rightarrow> int res" where
  "pdo_mapping_entry objs (PdoPadding b) = Inr (b AND 0xFF)"
| "pdo_mapping_entry objs (PdoField f) = ebind (pdo_object_by_field objs f) mapping_entry"
| "pdo_mapping_entry objs (PdoAddress i s) = ebind (pdo_object_from_dictionary objs i s) mapping_entry"
| "pdo_mapping_entry objs (PdoWord w) = Inr w"

definition pdo_mapping_entries :: "objects \<Rightarrow> pdo_item list \<Rightarrow> int list res" where
  "pdo_mapping_entries objs items = emap (pdo_mapping_entry objs) items"

fun pdo_objects_from_mapping_entries :: "objects \<Rightarrow> int list \<Rightarrow> ObjectDictionaryEntry list res" where
  "pdo_objects_from_mapping_entries objs [] = Inr []"
| "pdo_objects_from_mapping_entries objs (w # ws) =
     (let b = w AND 0xFF in
      if w = 0 then pdo_objects_from_mapping_entries objs ws
      else if drop_bit 8 w = 0 then
        ebind (pdo_objects_from_mapping_entries objs ws) (\<lambda>es. Inr (padding_object b # es))
      else
        ebind (pdo_object_from_dictionary objs (drop_bit 16 w AND 0xFFFF) (drop_bit 8 w AND 0xFF)) (\<lambda>e.
        ebind (bit_length e) (\<lambda>n.
        if n \<noteq> b then Inl ValueError
        else ebind (pdo_objects_from_mapping_entries objs ws) (\<lambda>es. Inr (e # es)))))"

section \<open>Properties\<close>

lemma and_255: "(w::int) AND 0xFF = w mod 256"
  using take_bit_eq_mask [of 8 w] by (simp add: take_bit_eq_mod mask_eq_exp_minus_1)

lemma and_65535: "(w::int) AND 0xFFFF = w mod 65536"
  using take_bit_eq_mask [of 16 w] by (simp add: take_bit_eq_mod mask_eq_exp_minus_1)

text \<open>The fields of a mapping word do not overlap, so \<open>|\<close> is addition.\<close>

lemma or_shift:
  assumes "0 \<le> b" "b < 2 ^ n"
  shows "push_bit n a OR b = (a::int) * 2 ^ n + b"
proof -
  have "push_bit n a AND b = 0"
  proof (rule bit_eqI)
    fix k
    have "\<not> bit b k" if "n \<le> k"
    proof -
      have "take_bit n b = b" using assms by (simp add: take_bit_int_eq_self)
      then show ?thesis using that by (metis bit_take_bit_iff not_le)
    qed
    then show "bit (push_bit n a AND b) k = bit 0 k"
      by (auto simp: bit_simps not_le)
  qed
  then show ?thesis using plus_and_or [of "push_bit n a" b] by (simp add: push_bit_eq_mult)
qed

lemma mapping_word:
  assumes "0 \<le> i" "0 \<le> s" "s < 256" "0 \<le> b" "b < 256"
  shows "push_bit 16 i OR push_bit 8 s OR b = i * 65536 + s * 256 + (b::int)"
proof -
  have "push_bit 8 s OR b = s * 256 + b" using or_shift [of b 8 s] assms by simp
  moreover have "push_bit 16 i OR (s * 256 + b) = i * 65536 + (s * 256 + b)"
    using or_shift [of "s * 256 + b" 16 i] assms by simp
  ultimately show ?thesis by simp
qed

lemma mapping_word_fields:
  assumes "0 \<le> i" "i < 65536" "0 \<le> s" "s < 256" "0 \<le> b" "b < 256"
  defines "w \<equiv> push_bit 16 i OR push_bit 8 s OR (b::int)"
  shows "drop_bit 16 w AND 0xFFFF = i" "drop_bit 8 w AND 0xFF = s" "w AND 0xFF = b"
    "drop_bit 8 w = i * 256 + s" "w = 0 \<longleftrightarrow> i = 0 \<and> s = 0 \<and> b = 0"
proof -
  have w: "w = i * 65536 + s * 256 + b" unfolding w_def using assms by (intro mapping_word)
  have "w div 65536 = i" "w div 256 = i * 256 + s" using assms(1-6) by (auto simp: w)
  moreover have "w mod 256 = b"
  proof -
    have "w = b + 256 * (i * 256 + s)" by (simp add: w)
    then show ?thesis using assms(5,6) by (simp only: mod_mult_self2) simp
  qed
  ultimately show "drop_bit 16 w AND 0xFFFF = i" "drop_bit 8 w AND 0xFF = s" "w AND 0xFF = b"
    "drop_bit 8 w = i * 256 + s"
    using assms(1-6) by (simp_all add: drop_bit_eq_div and_65535 and_255)
  show "w = 0 \<longleftrightarrow> i = 0 \<and> s = 0 \<and> b = 0" 
  proof
    assume "w = 0"
    then have "i * 65536 + s * 256 + b = 0" by (simp add: w)
    then have "i = 0" "s = 0" "b = 0" using assms(1-6) by linarith+
    then show "i = 0 \<and> s = 0 \<and> b = 0" by simp
  qed (simp add: w)
qed

text \<open>An entry that a mapping word can name: the dictionary holds it under its own address.\<close>

definition mappable :: "objects \<Rightarrow> ObjectDictionaryEntry \<Rightarrow> bool" where
  "mappable objs e \<longleftrightarrow>
     map_of objs (ode_index e, ode_subindex e) = Some e \<and>
     0 < ode_index e \<and> ode_index e < 0x10000 \<and> 0 \<le> ode_subindex e \<and> ode_subindex e < 0x100 \<and>
     (case bit_length e of Inl _ \<Rightarrow> False | Inr b \<Rightarrow> 0 \<le> b \<and> b < 0x100)"

lemma mapping_entry_decodes:
  assumes "mappable objs e"
  obtains w where "mapping_entry e = Inr w"
    "pdo_objects_from_mapping_entries objs (w # ws) =
       ebind (pdo_objects_from_mapping_entries objs ws) (\<lambda>es. Inr (e # es))"
proof -
  from assms obtain b where b: "bit_length e = Inr b" "0 \<le> b" "b < 256"
    by (auto simp: mappable_def split: sum.splits)
  define w where "w = push_bit 16 (ode_index e) OR push_bit 8 (ode_subindex e) OR b"
  note f = mapping_word_fields [of "ode_index e" "ode_subindex e" b, folded w_def]
  have "mapping_entry e = Inr w" by (simp add: mapping_entry_def b w_def)
  moreover have "pdo_objects_from_mapping_entries objs (w # ws) =
       ebind (pdo_objects_from_mapping_entries objs ws) (\<lambda>es. Inr (e # es))"
    using assms b f by (simp add: mappable_def pdo_object_from_dictionary_def od_key_def)
  ultimately show ?thesis by (rule that)
qed

text \<open>
  C24. The mapping words of a list of dictionary objects (16 bit index, 8 bit subindex, 8 bit
  length) decode to exactly these objects in this order.
\<close>

theorem pdo_mapping_decodes:
  assumes "\<forall>e \<in> set es. mappable objs e"
  shows "\<exists>ws. pdo_mapping_entries objs (map (\<lambda>e. PdoAddress (ode_index e) (ode_subindex e)) es) = Inr ws \<and>
     pdo_objects_from_mapping_entries objs ws = Inr es"
  using assms
proof (induction es)
  case Nil
  then show ?case by (simp add: pdo_mapping_entries_def)
next
  case (Cons e es)
  then obtain ws where ws: "pdo_mapping_entries objs (map (\<lambda>e. PdoAddress (ode_index e) (ode_subindex e)) es) = Inr ws"
    "pdo_objects_from_mapping_entries objs ws = Inr es" by auto
  from Cons.prems have m: "mappable objs e" by simp
  then obtain w where w: "mapping_entry e = Inr w"
    "pdo_objects_from_mapping_entries objs (w # ws) =
       ebind (pdo_objects_from_mapping_entries objs ws) (\<lambda>es. Inr (e # es))"
    by (rule mapping_entry_decodes)
  have "pdo_object_from_dictionary objs (ode_index e) (ode_subindex e) = Inr e"
    using m by (simp add: mappable_def pdo_object_from_dictionary_def od_key_def)
  then show ?case using ws w
    by (intro exI [of _ "w # ws"]) (simp add: pdo_mapping_entries_def)
qed

end
