(* ===== verification/Codec.thy ===== *)
theory Codec
  imports PyFloat Metadata
begin

text \<open>
  Values of the object dictionary and their wire form (profile/codec.py): a value is a
  Python integer, float, text or byte string; \<open>encode_od_value\<close> and
  \<open>decode_od_value\<close> convert it according to the data type of its object, with
  \<open>struct.pack\<close> and \<open>struct.unpack\<close> of the standard library. The laws at the end are
  the round trips that SDO access and the parameter snapshots rely on.
\<close>

section \<open>Values\<close>

datatype odval = VInt int | VFloat pyfloat | VStr pystr | VBytes bytes

text \<open>
  \<open>int(v)\<close> and \<open>float(v)\<close>. Text and bytes are never given to them for an object with a
  numeric type; the empty default of a string object raises \<open>ValueError\<close>.
\<close>

fun py_int :: "odval \<Rightarrow> int res" where
  "py_int (VInt n) = Inr n"
| "py_int (VFloat f) = int_of_float f"
| "py_int _ = Inl ValueError"

fun py_float :: "odval \<Rightarrow> pyfloat res" where
  "py_float (VInt n) = float_of_int n"
| "py_float (VFloat f) = Inr f"
| "py_float _ = Inl ValueError"

text \<open>\<open>a - b\<close>, \<open>a + b\<close>, \<open>a * b\<close> and \<open>abs(a)\<close>: integers stay integers, a float operand makes the result a float.\<close>

fun py_sub :: "odval \<Rightarrow> odval \<Rightarrow> odval res" where
  "py_sub (VInt a) (VInt b) = Inr (VInt (a - b))"
| "py_sub (VInt a) (VFloat g) = ebind (float_of_int a) (\<lambda>f. Inr (VFloat (fsub f g)))"
| "py_sub (VFloat f) (VInt b) = ebind (float_of_int b) (\<lambda>g. Inr (VFloat (fsub f g)))"
| "py_sub (VFloat f) (VFloat g) = Inr (VFloat (fsub f g))"
| "py_sub _ _ = Inl TypeError"

fun py_add :: "odval \<Rightarrow> odval \<Rightarrow> odval res" where
  "py_add (VInt a) (VInt b) = Inr (VInt (a + b))"
| "py_add (VInt a) (VFloat g) = ebind (float_of_int a) (\<lambda>f. Inr (VFloat (fadd f g)))"
| "py_add (VFloat f) (VInt b) = ebind (float_of_int b) (\<lambda>g. Inr (VFloat (fadd f g)))"
| "py_add (VFloat f) (VFloat g) = Inr (VFloat (fadd f g))"
| "py_add _ _ = Inl TypeError"

fun py_mul :: "odval \<Rightarrow> odval \<Rightarrow> odval res" where
  "py_mul (VInt a) (VInt b) = Inr (VInt (a * b))"
| "py_mul (VInt a) (VFloat g) = ebind (float_of_int a) (\<lambda>f. Inr (VFloat (fmul f g)))"
| "py_mul (VFloat f) (VInt b) = ebind (float_of_int b) (\<lambda>g. Inr (VFloat (fmul f g)))"
| "py_mul (VFloat f) (VFloat g) = Inr (VFloat (fmul f g))"
| "py_mul _ _ = Inl TypeError"

fun py_abs :: "odval \<Rightarrow> odval res" where
  "py_abs (VInt a) = Inr (VInt \<bar>a\<bar>)"
| "py_abs (VFloat f) = Inr (VFloat (fabs f))"
| "py_abs _ = Inl TypeError"

text \<open>Comparisons of an integer with a float are exact in Python.\<close>

definition cmp_rat :: "rat \<Rightarrow> pyfloat \<Rightarrow> bool \<times> bool \<times> bool" where
  \<comment> \<open>\<open>x < f\<close>, \<open>x = f\<close>, \<open>f < x\<close>\<close>
  "cmp_rat x f = (case f of
      PInf \<Rightarrow> (True, False, False)
    | NInf \<Rightarrow> (False, False, True)
    | NaN \<Rightarrow> (False, False, False)
    | _ \<Rightarrow> (x < fval f, x = fval f, fval f < x))"

fun py_lt :: "odval \<Rightarrow> odval \<Rightarrow> bool res" where
  "py_lt (VInt a) (VInt b) = Inr (a < b)"
| "py_lt (VInt a) (VFloat g) = Inr (fst (cmp_rat (of_int a) g))"
| "py_lt (VFloat f) (VInt b) = Inr (snd (snd (cmp_rat (of_int b) f)))"
| "py_lt (VFloat f) (VFloat g) = Inr (flt f g)"
| "py_lt _ _ = Inl TypeError"

fun py_eq :: "odval \<Rightarrow> odval \<Rightarrow> bool" where
  "py_eq (VInt a) (VInt b) = (a = b)"
| "py_eq (VInt a) (VFloat g) = fst (snd (cmp_rat (of_int a) g))"
| "py_eq (VFloat f) (VInt b) = fst (snd (cmp_rat (of_int b) f))"
| "py_eq (VFloat f) (VFloat g) = feq f g"
| "py_eq (VStr a) (VStr b) = (a = b)"
| "py_eq (VBytes a) (VBytes b) = (a = b)"
| "py_eq _ _ = False"

definition py_le :: "odval \<Rightarrow> odval \<Rightarrow> bool res" where
  "py_le a b = ebind (py_lt a b) (\<lambda>l. Inr (l \<or> py_eq a b))"

section \<open>binary32\<close>

text \<open>The bit pattern \<open>struct.pack('<f', x)\<close> writes; an overflow of the conversion raises.\<close>

definition f32_sign :: "bool \<Rightarrow> int" where
  "f32_sign neg = (if neg then 0x80000000 else 0)"

definition f32_mag :: "rat \<Rightarrow> int" where
  \<comment> \<open>exponent and fraction field of a positive binary32 number\<close>
  "f32_mag r = (let e = ilog2 r in
     if e < -126 then \<lfloor>r * 2 powi 149\<rfloor>
     else (e + 127) * 2 ^ 23 + (\<lfloor>r * 2 powi (23 - e)\<rfloor> - 2 ^ 23))"

fun f32_bits :: "pyfloat \<Rightarrow> int res" where
  "f32_bits NaN = Inr 0x7FC00000"
| "f32_bits PInf = Inr 0x7F800000"
| "f32_bits NInf = Inr 0xFF800000"
| "f32_bits NZero = Inr 0x80000000"
| "f32_bits (Fin x) = (let r = rnd 24 (-149) x in
     if r = 0 then Inr (f32_sign (x < 0))
     else if 128 \<le> ilog2 \<bar>r\<bar> then Inl OverflowError
     else Inr (f32_sign (x < 0) + f32_mag \<bar>r\<bar>))"

text \<open>The float that \<open>struct.unpack('<f', ...)\<close> reads from a 32-bit pattern.\<close>

definition f32_value :: "int \<Rightarrow> pyfloat" where
  "f32_value w =
     (let neg = 0x80000000 \<le> w; m = w mod 2 ^ 23; e = (w div 2 ^ 23) mod 2 ^ 8 in
      if e = 255 then (if m = 0 then finf neg else NaN)
      else
        let x = (if e = 0 then of_int m * 2 powi (-149) else of_int (2 ^ 23 + m) * 2 powi (e - 150)) in
        if x = 0 then (if neg then NZero else Fin 0)
        else Fin (if neg then - x else x))"

section \<open>struct.pack and struct.unpack\<close>

fun struct_pack :: "struct_format \<Rightarrow> odval \<Rightarrow> bytes res" where
  "struct_pack SBool (VInt n) = Inr [if n \<noteq> 0 then 1 else 0]"
| "struct_pack (SInt sgnd sz) (VInt n) =
     (if fits sgnd sz n then Inr (le_bytes sz n) else Inl StructError)"
| "struct_pack SFloat32 (VInt n) =
     ebind (float_of_int n) (\<lambda>f. ebind (f32_bits f) (\<lambda>w. Inr (le_bytes 4 w)))"
| "struct_pack SFloat32 (VFloat f) = ebind (f32_bits f) (\<lambda>w. Inr (le_bytes 4 w))"
| "struct_pack _ _ = Inl StructError"

definition struct_unpack :: "struct_format \<Rightarrow> bytes \<Rightarrow> odval res" where
  "struct_unpack fmt payload =
     (if length payload \<noteq> calcsize fmt then Inl StructError
      else Inr (case fmt of
          SBool \<Rightarrow> VInt (if payload = [0] then 0 else 1)
        | SInt sgnd sz \<Rightarrow> VInt (if sgnd then le_sint payload else le_uint payload)
        | SFloat32 \<Rightarrow> VFloat (f32_value (le_uint payload))))"

section \<open>codec.py\<close>

definition DATA_TYPE_ALIASES :: "(string \<times> string) list" where
  "DATA_TYPE_ALIASES =
    [(''BOOL'', ''bool''), (''USINT'', ''uint8''), (''BYTE'', ''uint8''), (''SINT'', ''int8''),
     (''UINT'', ''uint16''), (''WORD'', ''uint16''), (''INT'', ''int16''), (''UDINT'', ''uint32''),
     (''DWORD'', ''uint32''), (''DINT'', ''int32''), (''ULINT'', ''uint64''), (''LINT'', ''int64''),
     (''REAL'', ''float32'')]"

definition normalize_od_data_type :: "string \<Rightarrow> string" where
  "normalize_od_data_type data_type =
     (let name = strip data_type in
      case map_of DATA_TYPE_ALIASES (upper name) of None \<Rightarrow> lower name | Some t \<Rightarrow> t)"

definition is_byte_array_type :: "string \<Rightarrow> bool" where
  "is_byte_array_type normalized \<longleftrightarrow>
     normalized \<in> {''byte_array'', ''octet_string''} \<or>
     (contains ''array'' normalized \<and> contains ''byte'' normalized)"

text \<open>\<open>bytes(value)\<close>: a non-negative integer makes that many zero bytes.\<close>

fun py_bytes :: "odval \<Rightarrow> bytes res" where
  "py_bytes (VBytes bs) = Inr bs"
| "py_bytes (VInt n) = (if n < 0 then Inl ValueError else Inr (replicate (nat n) 0))"
| "py_bytes _ = Inl TypeError"

text \<open>
  \<open>str(value).encode('ascii', errors='replace')\<close> of text and of an integer. A string
  object never holds a float or bytes (\<open>decode_string\<close> below).
\<close>

fun py_str_ascii :: "odval \<Rightarrow> bytes res" where
  "py_str_ascii (VStr cs) = Inr (map (\<lambda>c. if c < 128 then of_nat c else 63) cs)"
| "py_str_ascii (VInt n) = Inr (map (\<lambda>c. of_nat (of_char c)) (str_of_int n))"
| "py_str_ascii _ = Inl TypeError"

text \<open>\<open>payload.split(b'\\x00', 1)[0].decode('ascii', errors='replace')\<close>.\<close>

definition ascii_text :: "bytes \<Rightarrow> pystr" where
  "ascii_text payload = map (\<lambda>b. if unat b < 128 then unat b else 0xFFFD) (takeWhile (\<lambda>b. b \<noteq> 0) payload)"

definition encode_od_value :: "string \<Rightarrow> odval \<Rightarrow> nat option \<Rightarrow> bytes res" where
  "encode_od_value data_type value sz =
     (let normalized = normalize_od_data_type data_type in
      if is_byte_array_type normalized then
        ebind (py_bytes value) (\<lambda>payload. case sz of
            None \<Rightarrow> Inr payload
          | Some n \<Rightarrow> Inr (take n payload @ replicate (n - length payload) 0))
      else if contains ''string'' normalized then
        ebind (py_str_ascii value) (\<lambda>payload. case sz of
            None \<Rightarrow> Inr payload
          | Some n \<Rightarrow> Inr (take n payload))
      else case map_of DATA_TYPE_FORMATS normalized of
        Some data_format \<Rightarrow>
          (if normalized \<noteq> ''float32''
           then ebind (py_int value) (\<lambda>n. struct_pack data_format (VInt n))
           else struct_pack data_format value)
      | None \<Rightarrow> (case sz of
            None \<Rightarrow> Inl ValueError
          | Some n \<Rightarrow> ebind (py_int value) (\<lambda>v. to_bytes (v < 0) n v)))"

definition decode_od_value :: "string \<Rightarrow> bytes \<Rightarrow> odval res" where
  "decode_od_value data_type payload =
     (let normalized = normalize_od_data_type data_type in
      if is_byte_array_type normalized then Inr (VBytes payload)
      else if contains ''string'' normalized then Inr (VStr (ascii_text payload))
      else case map_of DATA_TYPE_FORMATS normalized of
        Some data_format \<Rightarrow> struct_unpack data_format (take (calcsize data_format) payload)
      | None \<Rightarrow> Inr (VInt (le_uint payload)))"


section \<open>Round trips\<close>

lemma powi_le_mult: "(a::rat) \<le> b \<Longrightarrow> a * 2 powi k \<le> b * 2 powi k" "(a::rat) < b \<Longrightarrow> a * 2 powi k < b * 2 powi k"
  by (simp_all add: mult_right_mono)

text \<open>The magnitude of a binary32 pattern is recovered from its value.\<close>

lemma f32_subnormal:
  assumes "0 < m" "m < 2 ^ 23"
  defines "x \<equiv> (of_int m * 2 powi (-149) :: rat)"
  shows "rnd 24 (-149) x = x" "ilog2 x < -126" "f32_mag x = m" "0 < x"
proof -
  have "isf 24 (-149) x" unfolding x_def using assms(1,2) by (intro isfI [of _ m "-149"]) auto
  then show "rnd 24 (-149) x = x" by (rule rnd_isf) simp
  show pos: "0 < x" using assms(1) by (simp add: x_def)
  have "(of_int m :: rat) < of_int (2 ^ 23)" using assms(2) by (simp only: of_int_less_iff)
  then have "x < of_int (2 ^ 23) * 2 powi (-149)" unfolding x_def by (rule powi_le_mult)
  also have "\<dots> = 2 powi (-126)" using power_int_add [of "2::rat" 23 "-149"] by simp
  finally show l: "ilog2 x < -126" using ilog2_ge_iff [OF pos, of "-126"] by simp
  have "x * 2 powi 149 = of_int m" using power_int_add [of "2::rat" "-149" 149] by (simp add: x_def mult.assoc)
  with l show "f32_mag x = m" by (simp add: f32_mag_def)
qed

lemma f32_normal:
  assumes "0 \<le> m" "m < 2 ^ 23" "1 \<le> e" "e \<le> 254"
  defines "x \<equiv> (of_int (2 ^ 23 + m) * 2 powi (e - 150) :: rat)"
  shows "rnd 24 (-149) x = x" "ilog2 x = e - 127" "f32_mag x = e * 2 ^ 23 + m" "0 < x"
proof -
  have "isf 24 (-149) x" unfolding x_def using assms(1-4) by (intro isfI [of _ "2 ^ 23 + m" "e - 150"]) auto
  then show "rnd 24 (-149) x = x" by (rule rnd_isf) simp
  have n: "(of_int (2 ^ 23) :: rat) \<le> of_int (2 ^ 23 + m)" "(of_int (2 ^ 23 + m) :: rat) < of_int (2 ^ 24)"
    using assms(1,2) by (simp_all only: of_int_less_iff of_int_le_iff) simp_all
  have "of_int (2 ^ 23) * 2 powi (e - 150) \<le> x" "x < of_int (2 ^ 24) * 2 powi (e - 150)"
    unfolding x_def using n by (auto intro: powi_le_mult)
  moreover have "of_int (2 ^ 23) * (2::rat) powi (e - 150) = 2 powi (e - 127)"
    "of_int (2 ^ 24) * (2::rat) powi (e - 150) = 2 powi (e - 127 + 1)"
    using power_int_add [of "2::rat" 23 "e - 150"] power_int_add [of "2::rat" 24 "e - 150"] by simp_all
  ultimately show l: "ilog2 x = e - 127" by (intro ilog2_unique) simp_all
  show "0 < x" using assms(1) by (simp add: x_def)
  have "x * 2 powi (23 - (e - 127)) = of_int (2 ^ 23 + m)"
    by (simp add: x_def mult.assoc flip: power_int_add)
  with l assms(1-4) show "f32_mag x = e * 2 ^ 23 + m" by (simp add: f32_mag_def)
qed

definition f32_is_nan :: "int \<Rightarrow> bool" where
  "f32_is_nan w \<longleftrightarrow> (w div 2 ^ 23) mod 2 ^ 8 = 255 \<and> w mod 2 ^ 23 \<noteq> 0"

lemma f32_roundtrip:
  assumes "0 \<le> w" "w < 2 ^ 32" "\<not> f32_is_nan w"
  shows "f32_bits (f32_value w) = Inr w"
proof -
  define neg m e where "neg = (0x80000000 \<le> w)" and "m = w mod 2 ^ 23" and "e = (w div 2 ^ 23) mod 2 ^ 8"
  have w: "w = f32_sign neg + e * 2 ^ 23 + m"
  proof -
    have "w = (w div 2 ^ 31) * 2 ^ 31 + w mod 2 ^ 31" by simp
    moreover have "w mod 2 ^ 31 = e * 2 ^ 23 + m"
      using zmod_zmult2_eq [of "2 ^ 8" w "2 ^ 23"] by (simp add: e_def m_def)
    moreover have "(w div 2 ^ 31) * 2 ^ 31 = f32_sign neg"
      using assms(1,2) by (auto simp: neg_def f32_sign_def div_eq_0_iff)
    ultimately show ?thesis by linarith
  qed
  have r: "0 \<le> m" "m < 2 ^ 23" "0 \<le> e" "e \<le> 255" by (auto simp: m_def e_def)
  consider "e = 255" | "e = 0" "m = 0" | "e = 0" "0 < m" | "1 \<le> e" "e \<le> 254" using r by linarith
  then show ?thesis
  proof cases
    case 1
    with assms(3) have "m = 0" by (simp add: f32_is_nan_def m_def e_def)
    with 1 have "f32_value w = finf neg" by (simp add: f32_value_def Let_def neg_def m_def e_def)
    with 1 \<open>m = 0\<close> w show ?thesis by (simp add: finf_def f32_sign_def)
  next
    case 2
    then have "f32_value w = (if neg then NZero else Fin 0)"
      by (simp add: f32_value_def Let_def neg_def m_def e_def)
    with 2 w show ?thesis by (simp add: f32_sign_def)
  next
    case 3
    define x :: rat where "x = of_int m * 2 powi (-149)"
    note s = f32_subnormal [OF 3(2) r(2), folded x_def]
    have "f32_value w = Fin (if neg then - x else x)"
      using 3 s(4) by (simp add: f32_value_def Let_def neg_def m_def e_def x_def)
    with s w 3 show ?thesis by (cases neg) (simp_all add: rnd_minus Let_def)
  next
    case 4
    define x :: rat where "x = of_int (2 ^ 23 + m) * 2 powi (e - 150)"
    note s = f32_normal [OF r(1,2) 4, folded x_def]
    have "f32_value w = Fin (if neg then - x else x)"
      using 4 s(4) by (simp add: f32_value_def Let_def neg_def m_def e_def x_def)
    with s w 4 show ?thesis by (cases neg) (simp_all add: rnd_minus Let_def)
  qed
qed


text \<open>
  A data type whose payloads of the given size survive decoding and encoding: every byte
  array and every integer format, an unknown type read as an unsigned integer, and
  binary32 except for its NaN patterns (Python keeps one NaN). A boolean keeps one bit
  and text stops at the first zero byte.
\<close>

definition lossless :: "string \<Rightarrow> bytes \<Rightarrow> bool" where
  "lossless data_type payload \<longleftrightarrow>
     (let normalized = normalize_od_data_type data_type in
      is_byte_array_type normalized \<or>
      \<not> contains ''string'' normalized \<and>
      (case map_of DATA_TYPE_FORMATS normalized of
         None \<Rightarrow> True
       | Some SBool \<Rightarrow> payload \<in> {[0], [1]}
       | Some (SInt _ n) \<Rightarrow> length payload = n \<and> 0 < n
       | Some SFloat32 \<Rightarrow> length payload = 4 \<and> \<not> f32_is_nan (le_uint payload)))"

lemma formats_float32: "map_of DATA_TYPE_FORMATS t = Some SFloat32 \<longleftrightarrow> t = ''float32''"
  by (auto simp: DATA_TYPE_FORMATS_def split: if_splits)

lemma fits_le_uint: "fits False (length bs) (le_uint bs)"
  using le_uint_less [of bs] by (simp add: fits_def)

lemma struct_pack_unpack:
  assumes "length payload = calcsize fmt"
    and "case fmt of SBool \<Rightarrow> payload \<in> {[0], [1]} | SInt _ n \<Rightarrow> 0 < n
           | SFloat32 \<Rightarrow> \<not> f32_is_nan (le_uint payload)"
  obtains v where "struct_unpack fmt payload = Inr v" "struct_pack fmt v = Inr payload"
    "fmt \<noteq> SFloat32 \<longrightarrow> (\<exists>n. v = VInt n)"
proof (cases fmt)
  case SBool
  then show ?thesis using assms that [of "VInt (if payload = [0] then 0 else 1)"]
    by (auto simp: struct_unpack_def)
next
  case (SInt sgnd n)
  with assms have n: "length payload = n" "payload \<noteq> []" by auto
  then have "struct_pack fmt (VInt (if sgnd then le_sint payload else le_uint payload)) = Inr payload"
    using SInt fits_le_uint [of payload] le_sint_range [of payload]
      le_bytes_le_uint [of payload] le_bytes_le_sint [of payload] by auto
  with SInt n show ?thesis by (intro that) (auto simp: struct_unpack_def)
next
  case SFloat32
  with assms have l: "length payload = 4" by simp
  then have "le_uint payload < 2 ^ 32" using le_uint_less [of payload] by simp
  then have "f32_bits (f32_value (le_uint payload)) = Inr (le_uint payload)"
    using assms(2) SFloat32 by (intro f32_roundtrip) auto
  then have "struct_pack fmt (VFloat (f32_value (le_uint payload))) = Inr payload"
    using SFloat32 l le_bytes_le_uint [of payload] by simp
  with SFloat32 l show ?thesis by (intro that) (auto simp: struct_unpack_def)
qed

lemma encode_decode:
  assumes "lossless data_type payload"
  obtains v where "decode_od_value data_type payload = Inr v"
    "encode_od_value data_type v (Some (length payload)) = Inr payload"
proof -
  define t where "t = normalize_od_data_type data_type"
  note d = encode_od_value_def decode_od_value_def lossless_def Let_def t_def [symmetric]
  consider "is_byte_array_type t"
    | "\<not> is_byte_array_type t" "\<not> contains ''string'' t" "map_of DATA_TYPE_FORMATS t = None"
    | fmt where "\<not> is_byte_array_type t" "\<not> contains ''string'' t" "map_of DATA_TYPE_FORMATS t = Some fmt"
    using assms by (auto simp: d)
  then show ?thesis
  proof cases
    case 1
    then show ?thesis by (intro that [of "VBytes payload"]) (auto simp: d)
  next
    case 2
    moreover have "(le_uint payload < 0) = False" using le_uint_nonneg [of payload] by (simp only: not_less [symmetric] simp_thms)
    ultimately show ?thesis using fits_le_uint [of payload]
      by (intro that [of "VInt (le_uint payload)"]) (auto simp: d to_bytes_def)
  next
    case 3
    with assms have c: "length payload = calcsize fmt"
      "case fmt of SBool \<Rightarrow> payload \<in> {[0], [1]} | SInt _ n \<Rightarrow> 0 < n
         | SFloat32 \<Rightarrow> \<not> f32_is_nan (le_uint payload)"
      by (auto simp: d split: struct_format.splits)
    then obtain v where v: "struct_unpack fmt payload = Inr v" "struct_pack fmt v = Inr payload"
      "fmt \<noteq> SFloat32 \<longrightarrow> (\<exists>n. v = VInt n)" by (rule struct_pack_unpack)
    have dec: "decode_od_value data_type payload = Inr v" using 3 c v by (simp add: d)
    show ?thesis
    proof (cases "fmt = SFloat32")
      case True
      then have "\<not> t \<noteq> ''float32''" using 3(3) formats_float32 [of t] by blast
      with 3 v show ?thesis by (intro that [OF dec]) (simp only: d if_False option.case)
    next
      case False
      then have "t \<noteq> ''float32''" using 3 formats_float32 [of t] by auto
      moreover obtain n where "v = VInt n" using v(3) False by blast
      ultimately show ?thesis using 3 v by (intro that [OF dec]) (simp add: d)
    qed
  qed
qed

lemma decode_string: "contains ''string'' (normalize_od_data_type t) \<Longrightarrow>
    \<not> is_byte_array_type (normalize_od_data_type t) \<Longrightarrow> \<exists>s. decode_od_value t payload = Inr (VStr s)"
  by (simp add: decode_od_value_def)

text \<open>The other direction: an integer in the range of its type is read back unchanged.\<close>

lemma decode_encode_int_parts:
  assumes "map_of DATA_TYPE_FORMATS (normalize_od_data_type t) = Some (SInt sgnd n)" "fits sgnd n v" "0 < n"
    and "\<not> is_byte_array_type (normalize_od_data_type t)" "\<not> contains ''string'' (normalize_od_data_type t)"
  shows "encode_od_value t (VInt v) sz = Inr (le_bytes n v)" "decode_od_value t (le_bytes n v) = Inr (VInt v)"
proof -
  have "normalize_od_data_type t \<noteq> ''float32''" using assms(1) formats_float32 [of "normalize_od_data_type t"] by auto
  then show "encode_od_value t (VInt v) sz = Inr (le_bytes n v)"
    using assms by (simp add: encode_od_value_def Let_def)
  show "decode_od_value t (le_bytes n v) = Inr (VInt v)"
    using assms by (cases sgnd) (simp_all add: decode_od_value_def struct_unpack_def le_sint_to_bytes le_uint_to_bytes)
qed

text \<open>An integer in the range of its type encodes to its little-endian bytes, and these decode to the same integer.\<close>

lemma decode_encode_int:
  assumes "map_of DATA_TYPE_FORMATS (normalize_od_data_type t) = Some (SInt sgnd n)" "fits sgnd n v" "0 < n"
    and "\<not> is_byte_array_type (normalize_od_data_type t)" "\<not> contains ''string'' (normalize_od_data_type t)"
  shows "encode_od_value t (VInt v) sz = Inr (le_bytes n v) \<and>
    decode_od_value t (le_bytes n v) = Inr (VInt v)"
  using decode_encode_int_parts [OF assms] by blast

text \<open>
  C23. Every payload of a byte array, of an unknown type, of a Boolean (0 or 1), of an integer of
  the right width or of a float32 that is no NaN decodes to a value that encodes to the same
  bytes.
\<close>

theorem codec_roundtrip:
  assumes "lossless data_type payload"
  shows "\<exists>v. decode_od_value data_type payload = Inr v \<and>
    encode_od_value data_type v (Some (length payload)) = Inr payload"
  using encode_decode [OF assms] by blast

end
