(* ===== verification/ObjectDictionary.thy ===== *)
theory ObjectDictionary
  imports Codec
begin

text \<open>
  The object dictionary of a virtual device (profile/object_dictionary.py) and its lookup
  acceleration (behaviour_model/f_kr_cmmt/od_role_index.py). A dictionary maps storage
  keys to entries; an entry has a fixed definition and a current value.
\<close>

section \<open>Definitions and entries\<close>

text \<open>Subindex 0 and a missing subindex share the key that is the bare index.\<close>

datatype odkey = KeyIndex int | KeySub int int

definition storage_key :: "int \<Rightarrow> int \<Rightarrow> odkey" where
  "storage_key index subindex = (if subindex = 0 then KeyIndex index else KeySub index subindex)"

record VirtualOdDefinition =
  def_index :: int
  def_subindex :: int
  def_name :: string
  def_data_type :: string
  def_bit_size :: int
  def_access :: string
  def_default :: odval
  def_role :: "string option"
  def_rxpdo :: bool
  def_txpdo :: bool

record VirtualOdEntry =
  ent_definition :: VirtualOdDefinition
  ent_value :: odval

record VirtualOdModel =
  entries :: "(odkey \<times> VirtualOdEntry) list"
  last_write_key :: "odkey option"
  write_generation :: nat

definition od_empty :: VirtualOdModel where
  "od_empty = \<lparr>entries = [], last_write_key = None, write_generation = 0\<rparr>"

text \<open>The keyword arguments of \<open>define\<close> and \<open>overlay\<close>; an absent one is \<open>None\<close>.\<close>

record od_changes =
  chg_name :: "string option"
  chg_data_type :: "string option"
  chg_bit_size :: "int option"
  chg_access :: "string option"
  chg_default :: "odval option"
  chg_role :: "string option"
  chg_rxpdo :: "bool option"
  chg_txpdo :: "bool option"

definition no_changes :: od_changes where
  "no_changes = \<lparr>chg_name = None, chg_data_type = None, chg_bit_size = None, chg_access = None,
     chg_default = None, chg_role = None, chg_rxpdo = None, chg_txpdo = None\<rparr>"

section \<open>Operations\<close>

definition od_define :: "int \<Rightarrow> int \<Rightarrow> od_changes \<Rightarrow> (VirtualOdModel, VirtualOdDefinition) pym" where
  "od_define index subindex c =
     (case (chg_name c, chg_data_type c, chg_bit_size c) of
        (Some name, Some data_type, Some bit_size) \<Rightarrow>
          (let default = (case chg_default c of None \<Rightarrow> VInt 0 | Some v \<Rightarrow> v);
               d = \<lparr>def_index = index, def_subindex = subindex, def_name = name,
                    def_data_type = data_type, def_bit_size = bit_size,
                    def_access = (case chg_access c of None \<Rightarrow> '''' | Some a \<Rightarrow> a),
                    def_default = default, def_role = chg_role c,
                    def_rxpdo = (chg_rxpdo c = Some True), def_txpdo = (chg_txpdo c = Some True)\<rparr>
           in thn (modify (\<lambda>od. od\<lparr>entries := AList.update (storage_key index subindex)
                     \<lparr>ent_definition = d, ent_value = default\<rparr> (entries od)\<rparr>))
                (ret d))
      | _ \<Rightarrow> raise TypeError)"

text \<open>\<open>dataclasses.replace\<close> with the supplied arguments: \<open>None\<close> and the empty string are left out.\<close>

definition supplied_str :: "string option \<Rightarrow> string \<Rightarrow> string" where
  "supplied_str c old = (case c of None \<Rightarrow> old | Some s \<Rightarrow> if s = '''' then old else s)"

definition replace_def :: "VirtualOdDefinition \<Rightarrow> od_changes \<Rightarrow> VirtualOdDefinition" where
  "replace_def d c = d\<lparr>
     def_name := supplied_str (chg_name c) (def_name d),
     def_data_type := supplied_str (chg_data_type c) (def_data_type d),
     def_bit_size := (case chg_bit_size c of None \<Rightarrow> def_bit_size d | Some b \<Rightarrow> b),
     def_access := supplied_str (chg_access c) (def_access d),
     def_default := (case chg_default c of None \<Rightarrow> def_default d
                      | Some v \<Rightarrow> if v = VStr [] then def_default d else v),
     def_role := (case chg_role c of None \<Rightarrow> def_role d
                   | Some r \<Rightarrow> if r = '''' then def_role d else Some r),
     def_rxpdo := (case chg_rxpdo c of None \<Rightarrow> def_rxpdo d | Some b \<Rightarrow> b),
     def_txpdo := (case chg_txpdo c of None \<Rightarrow> def_txpdo d | Some b \<Rightarrow> b)\<rparr>"

definition od_overlay :: "int \<Rightarrow> int \<Rightarrow> od_changes \<Rightarrow> (VirtualOdModel, VirtualOdDefinition) pym" where
  "od_overlay index subindex c =
     (let key = storage_key index subindex in
      bnd (gets (\<lambda>od. map_of (entries od) key)) (\<lambda>current.
      case current of
        None \<Rightarrow> od_define index subindex c
      | Some e \<Rightarrow>
          (let d = replace_def (ent_definition e) c;
               v = (case chg_default c of Some v \<Rightarrow> v | None \<Rightarrow> ent_value e)
           in thn (modify (\<lambda>od. od\<lparr>entries := AList.update key
                     \<lparr>ent_definition = d, ent_value = v\<rparr> (entries od)\<rparr>))
                (ret d))))"

definition od_definition :: "int \<Rightarrow> int \<Rightarrow> (VirtualOdModel, VirtualOdDefinition) pym" where
  "od_definition index subindex = (\<lambda>od.
     case map_of (entries od) (storage_key index subindex) of
       None \<Rightarrow> (Inl KeyError, od)
     | Some e \<Rightarrow> (Inr (ent_definition e), od))"

definition definitions :: "VirtualOdModel \<Rightarrow> VirtualOdDefinition list" where
  "definitions od = map (ent_definition \<circ> snd) (entries od)"

definition definition_by_role :: "string \<Rightarrow> (VirtualOdModel, VirtualOdDefinition) pym" where
  "definition_by_role role = (\<lambda>od.
     case filter (\<lambda>d. def_role d = Some role) (definitions od) of
       [d] \<Rightarrow> (Inr d, od)
     | _ \<Rightarrow> (Inl KeyError, od))"

definition od_read :: "int \<Rightarrow> int \<Rightarrow> (VirtualOdModel, odval) pym" where
  "od_read index subindex = (\<lambda>od.
     case map_of (entries od) (storage_key index subindex) of
       None \<Rightarrow> (Inl KeyError, od)
     | Some e \<Rightarrow> (Inr (ent_value e), od))"

definition set_value :: "odkey \<Rightarrow> odval \<Rightarrow> (VirtualOdModel, unit) pym" where
  "set_value key v = (\<lambda>od. case map_of (entries od) key of
       None \<Rightarrow> (Inl KeyError, od)
     | Some e \<Rightarrow> (Inr (), od\<lparr>entries := AList.update key (e\<lparr>ent_value := v\<rparr>) (entries od)\<rparr>))"

definition od_write :: "int \<Rightarrow> odval \<Rightarrow> int \<Rightarrow> (VirtualOdModel, unit) pym" where
  "od_write index v subindex =
     (let key = storage_key index subindex in
      thn (set_value key v)
          (modify (\<lambda>od. od\<lparr>last_write_key := Some key, write_generation := write_generation od + 1\<rparr>)))"

definition write_internal :: "int \<Rightarrow> odval \<Rightarrow> int \<Rightarrow> (VirtualOdModel, unit) pym" where
  "write_internal index v subindex = set_value (storage_key index subindex) v"

definition has_entry :: "int \<Rightarrow> int \<Rightarrow> VirtualOdModel \<Rightarrow> bool" where
  "has_entry index subindex od \<longleftrightarrow> map_of (entries od) (storage_key index subindex) \<noteq> None"

definition write_role :: "string \<Rightarrow> odval \<Rightarrow> (VirtualOdModel, unit) pym" where
  "write_role role v = bnd (definition_by_role role) (\<lambda>d. od_write (def_index d) v (def_subindex d))"

definition read_role :: "string \<Rightarrow> (VirtualOdModel, odval) pym" where
  "read_role role = bnd (definition_by_role role) (\<lambda>d. od_read (def_index d) (def_subindex d))"

definition default_value :: "string \<Rightarrow> int \<Rightarrow> odval res" where
  "default_value data_type bit_size =
     (let normalized = lower (strip data_type);
          zeros = ebind (py_bytes (VInt ((bit_size + 7) div 8))) (\<lambda>bs. Inr (VBytes bs)) in
      if contains ''array'' normalized \<and> contains ''byte'' normalized then zeros
      else if normalized \<in> {''byte_array'', ''octet_string''} then zeros
      else if contains ''string'' normalized then Inr (VStr [])
      else Inr (VInt 0))"

text \<open>The view \<open>od.objects\<close>: a key is an index or an (index, subindex) pair.\<close>

datatype view_key = VKIndex int | VKPair int int

fun view_getitem :: "view_key \<Rightarrow> (VirtualOdModel, odval) pym" where
  "view_getitem (VKPair index subindex) = od_read index subindex"
| "view_getitem (VKIndex index) = od_read index 0"

fun view_setitem :: "view_key \<Rightarrow> odval \<Rightarrow> (VirtualOdModel, unit) pym" where
  "view_setitem (VKPair index subindex) v = od_write index v subindex"
| "view_setitem (VKIndex index) v = od_write index v 0"

fun view_contains :: "view_key \<Rightarrow> VirtualOdModel \<Rightarrow> bool" where
  "view_contains (VKPair index subindex) od = has_entry index subindex od"
| "view_contains (VKIndex index) od = has_entry index 0 od"

definition view_len :: "VirtualOdModel \<Rightarrow> nat" where
  "view_len od = length (entries od)"

section \<open>Laws of access\<close>

text \<open>The value stored at an address, if the dictionary has it.\<close>

definition od_val :: "VirtualOdModel \<Rightarrow> int \<Rightarrow> int \<Rightarrow> odval option" where
  "od_val od index subindex = map_option ent_value (map_of (entries od) (storage_key index subindex))"

lemma storage_key_inj [simp]:
  "storage_key i s = storage_key i' s' \<longleftrightarrow> i = i' \<and> s = s'"
  by (auto simp: storage_key_def)

lemma has_entry_val: "has_entry i s od \<longleftrightarrow> od_val od i s \<noteq> None"
  by (simp add: has_entry_def od_val_def)

lemma od_read_val: "od_read i s od = (case od_val od i s of None \<Rightarrow> (Inl KeyError, od) | Some v \<Rightarrow> (Inr v, od))"
  by (simp add: od_read_def od_val_def split: option.splits)

lemma od_write_run:
  "od_write i v s od = (case map_of (entries od) (storage_key i s) of
       None \<Rightarrow> (Inl KeyError, od)
     | Some e \<Rightarrow> (Inr (), od\<lparr>entries := AList.update (storage_key i s) (e\<lparr>ent_value := v\<rparr>) (entries od),
         last_write_key := Some (storage_key i s), write_generation := write_generation od + 1\<rparr>))"
  by (simp add: od_write_def set_value_def pym bnd_def Let_def modify_def split: option.splits)

text \<open>What a value write leaves alone.\<close>

lemma definitions_set:
  "map_of al k = Some e \<Longrightarrow>
   map (ent_definition \<circ> snd) (AList.update k (e\<lparr>ent_value := v\<rparr>) al) = map (ent_definition \<circ> snd) al"
  by (rule filter_map_update) auto

lemma definitions_set_value [simp]: "definitions (snd (set_value k v od)) = definitions od"
  by (auto simp: set_value_def definitions_def definitions_set split: option.splits)

lemma definitions_od_write [simp]: "definitions (snd (od_write i v s od)) = definitions od"
  by (auto simp: od_write_run definitions_def definitions_set split: option.splits)

lemma definition_by_role_cong:
  "definitions od = definitions od' \<Longrightarrow> fst (definition_by_role r od) = fst (definition_by_role r od')"
  by (simp add: definition_by_role_def split: list.splits)

lemma od_write_ok: "od_val od i s \<noteq> None \<Longrightarrow> fst (od_write i v s od) = Inr ()"
  by (auto simp: od_write_run od_val_def split: option.splits)

lemma od_val_write:
  "od_val od i s \<noteq> None \<Longrightarrow>
   od_val (snd (od_write i v s od)) i' s' = (if i' = i \<and> s' = s then Some v else od_val od i' s')"
  by (auto simp: od_write_run od_val_def update_conv' split: option.splits)

lemma od_val_set_value:
  "od_val od i s \<noteq> None \<Longrightarrow>
   od_val (snd (set_value (storage_key i s) v od)) i' s' = (if i' = i \<and> s' = s then Some v else od_val od i' s')"
  by (auto simp: set_value_def od_val_def update_conv' split: option.splits)


text \<open>Symbolic execution: a write to an existing address succeeds and stores the value.\<close>

definition od_put :: "int \<Rightarrow> odval \<Rightarrow> int \<Rightarrow> VirtualOdModel \<Rightarrow> VirtualOdModel" where
  "od_put i v s od = snd (od_write i v s od)"

lemma od_write_put: "od_val od i s \<noteq> None \<Longrightarrow> od_write i v s od = (Inr (), od_put i v s od)"
  using od_write_ok [of od i s v] by (simp add: od_put_def prod_eq_iff)

lemma od_read_some: "od_val od i s = Some v \<Longrightarrow> od_read i s od = (Inr v, od)"
  by (simp add: od_read_val)

lemma od_val_put [simp]:
  "od_val od i s \<noteq> None \<Longrightarrow>
   od_val (od_put i v s od) i' s' = (if i' = i \<and> s' = s then Some v else od_val od i' s')"
  by (simp add: od_put_def od_val_write)

lemma definitions_put [simp]: "definitions (od_put i v s od) = definitions od"
  by (simp add: od_put_def)

section \<open>The role index\<close>

text \<open>
  \<open>install_role_index\<close> replaces \<open>definition_by_role\<close>, \<open>define\<close> and \<open>overlay\<close> of one
  dictionary: the lookup uses a dictionary from roles to definitions, which a change of
  the definitions invalidates, also one that raises.
\<close>

type_synonym role_map = "(string option \<times> VirtualOdDefinition list) list"

record indexed_od =
  ix_od :: VirtualOdModel
  ix_index :: "role_map option"

definition setdefault_append :: "role_map \<Rightarrow> VirtualOdDefinition \<Rightarrow> role_map" where
  "setdefault_append m d =
     (let old = (case map_of m (def_role d) of None \<Rightarrow> [] | Some ds \<Rightarrow> ds) in
      AList.update (def_role d) (old @ [d]) m)"

definition rebuild :: "VirtualOdModel \<Rightarrow> role_map" where
  "rebuild od = foldl setdefault_append [] (definitions od)"

definition install_role_index :: "VirtualOdModel \<Rightarrow> indexed_od" where
  "install_role_index od = \<lparr>ix_od = od, ix_index = Some (rebuild od)\<rparr>"

text \<open>An operation of the dictionary that does not touch the index, and one wrapped by \<open>invalidate_after\<close>.\<close>

definition ix_plain :: "(VirtualOdModel, 'a) pym \<Rightarrow> (indexed_od, 'a) pym" where
  "ix_plain m = on_part ix_od (\<lambda>od s. s\<lparr>ix_od := od\<rparr>) m"

definition invalidate_after :: "(VirtualOdModel, 'a) pym \<Rightarrow> (indexed_od, 'a) pym" where
  "invalidate_after m = (\<lambda>s. case m (ix_od s) of (r, od) \<Rightarrow> (r, s\<lparr>ix_od := od, ix_index := None\<rparr>))"

definition indexed_definition_by_role :: "string \<Rightarrow> (indexed_od, VirtualOdDefinition) pym" where
  "indexed_definition_by_role role = (\<lambda>s.
     let idx = (case ix_index s of None \<Rightarrow> rebuild (ix_od s) | Some m \<Rightarrow> m);
         s' = s\<lparr>ix_index := Some idx\<rparr>;
         matches = (case map_of idx (Some role) of None \<Rightarrow> [] | Some ds \<Rightarrow> ds) in
     if length matches \<noteq> 1 then (Inl KeyError, s') else (Inr (hd matches), s'))"

lemma map_of_setdefault:
  "map_of (foldl setdefault_append m ds) r =
     (let old = (case map_of m r of None \<Rightarrow> [] | Some xs \<Rightarrow> xs); new = filter (\<lambda>d. def_role d = r) ds in
      if map_of m r = None \<and> new = [] then None else Some (old @ new))"
proof (induction ds arbitrary: m)
  case Nil
  then show ?case by (simp split: option.splits)
next
  case (Cons d ds)
  then show ?case
    by (auto simp: setdefault_append_def Let_def update_conv' split: option.splits)
qed

lemma rebuild_matches:
  "(case map_of (rebuild od) r of None \<Rightarrow> [] | Some ds \<Rightarrow> ds) = filter (\<lambda>d. def_role d = r) (definitions od)"
  by (simp add: rebuild_def map_of_setdefault Let_def)

text \<open>The index is either dropped or agrees with the definitions.\<close>

definition index_ok :: "indexed_od \<Rightarrow> bool" where
  "index_ok s \<longleftrightarrow> (case ix_index s of None \<Rightarrow> True | Some m \<Rightarrow> m = rebuild (ix_od s))"

lemma rebuild_cong: "definitions od = definitions od' \<Longrightarrow> rebuild od = rebuild od'"
  by (simp add: rebuild_def)

lemma index_ok_install [simp]: "index_ok (install_role_index od)"
  by (simp add: index_ok_def install_role_index_def)

lemma index_ok_invalidate [simp]: "index_ok (snd (invalidate_after m s))"
  by (simp add: invalidate_after_def index_ok_def split: prod.splits)

lemma index_ok_plain:
  assumes "index_ok s" "definitions (snd (m (ix_od s))) = definitions (ix_od s)"
  shows "index_ok (snd (ix_plain m s))"
  using assms rebuild_cong [of "snd (m (ix_od s))" "ix_od s"]
  by (auto simp: ix_plain_def on_part_def index_ok_def split: prod.splits option.splits)

lemma ix_plain_simps [simp]:
  "fst (ix_plain m s) = fst (m (ix_od s))" "ix_od (snd (ix_plain m s)) = snd (m (ix_od s))"
  by (simp_all add: ix_plain_def on_part_def split: prod.splits)

lemma length_1_hd: "length xs = 1 \<Longrightarrow> xs = [hd xs]"
  by (cases xs) auto

lemma indexed_lookup:
  assumes "index_ok s"
  shows "fst (indexed_definition_by_role r s) = fst (definition_by_role r (ix_od s))"
    and "ix_od (snd (indexed_definition_by_role r s)) = ix_od s"
    and "index_ok (snd (indexed_definition_by_role r s))"
proof -
  have idx: "(case ix_index s of None \<Rightarrow> rebuild (ix_od s) | Some m \<Rightarrow> m) = rebuild (ix_od s)"
    using assms by (auto simp: index_ok_def split: option.splits)
  show "fst (indexed_definition_by_role r s) = fst (definition_by_role r (ix_od s))"
    using length_1_hd [of "filter (\<lambda>d. def_role d = Some r) (definitions (ix_od s))"]
    by (auto simp: indexed_definition_by_role_def idx rebuild_matches definition_by_role_def split: list.splits)
  show "ix_od (snd (indexed_definition_by_role r s)) = ix_od s"
    "index_ok (snd (indexed_definition_by_role r s))"
    by (auto simp: indexed_definition_by_role_def idx index_ok_def Let_def)
qed

section \<open>The dictionary as an interface\<close>

text \<open>
  What the bridge and the servo rely on: values change only by writes, definitions not at
  all, and a role names the one definition that carries it.
\<close>

locale od_interface =
  fixes lookup :: "string \<Rightarrow> ('o, VirtualOdDefinition) pym"
    and rd :: "int \<Rightarrow> int \<Rightarrow> ('o, odval) pym"
    and wr :: "int \<Rightarrow> odval \<Rightarrow> int \<Rightarrow> ('o, unit) pym"
    and val :: "'o \<Rightarrow> int \<Rightarrow> int \<Rightarrow> odval option"
    and defs :: "'o \<Rightarrow> VirtualOdDefinition list"
    and invar :: "'o \<Rightarrow> bool"
  assumes lookup_one: "invar od \<Longrightarrow> filter (\<lambda>d. def_role d = Some r) (defs od) = [d] \<Longrightarrow> fst (lookup r od) = Inr d"
    and lookup_none: "invar od \<Longrightarrow> (\<nexists>d. filter (\<lambda>d. def_role d = Some r) (defs od) = [d]) \<Longrightarrow> fst (lookup r od) = Inl KeyError"
    and lookup_keeps: "invar od \<Longrightarrow> invar (snd (lookup r od)) \<and> val (snd (lookup r od)) = val od \<and> defs (snd (lookup r od)) = defs od"
    and read_val: "invar od \<Longrightarrow> rd i s od = (case val od i s of None \<Rightarrow> (Inl KeyError, od) | Some v \<Rightarrow> (Inr v, od))"
    and write_missing: "invar od \<Longrightarrow> val od i s = None \<Longrightarrow> wr i v s od = (Inl KeyError, od)"
    and write_ok: "invar od \<Longrightarrow> val od i s \<noteq> None \<Longrightarrow> fst (wr i v s od) = Inr ()"
    and write_val: "invar od \<Longrightarrow> val od i s \<noteq> None \<Longrightarrow>
      val (snd (wr i v s od)) i' s' = (if i' = i \<and> s' = s then Some v else val od i' s')"
    and write_keeps: "invar od \<Longrightarrow> invar (snd (wr i v s od)) \<and> defs (snd (wr i v s od)) = defs od"
begin

lemma role_read:
  assumes "invar od" "filter (\<lambda>d. def_role d = Some r) (defs od) = [d]"
    and "val od (def_index d) (def_subindex d) = Some v"
  shows "fst (bnd (lookup r) (\<lambda>d. rd (def_index d) (def_subindex d)) od) = Inr v"
proof -
  obtain od' where od': "lookup r od = (Inr d, od')" "invar od'" "val od' = val od"
    using lookup_one [OF assms(1,2)] lookup_keeps [OF assms(1), of r] by (cases "lookup r od") auto
  then show ?thesis using assms(3) by (simp add: bnd_def read_val)
qed

lemma role_write_read:
  assumes "invar od" "filter (\<lambda>d. def_role d = Some r) (defs od) = [d]"
    and "val od (def_index d) (def_subindex d) \<noteq> None"
  shows "fst (bnd (bnd (lookup r) (\<lambda>d. wr (def_index d) v (def_subindex d)))
    (\<lambda>_. bnd (lookup r) (\<lambda>d. rd (def_index d) (def_subindex d))) od) = Inr v"
proof -
  obtain od' where od': "lookup r od = (Inr d, od')" "invar od'" "val od' = val od" "defs od' = defs od"
    using lookup_one [OF assms(1,2)] lookup_keeps [OF assms(1), of r] by (cases "lookup r od") auto
  obtain od2 where od2: "wr (def_index d) v (def_subindex d) od' = (Inr (), od2)"
    "invar od2" "defs od2 = defs od" "val od2 (def_index d) (def_subindex d) = Some v"
    using od' assms(3) write_ok [of od' "def_index d" "def_subindex d" v]
      write_keeps [of od' "def_index d" v "def_subindex d"]
      write_val [of od' "def_index d" "def_subindex d" v "def_index d" "def_subindex d"]
    by (cases "wr (def_index d) v (def_subindex d) od'") auto
  have "fst (bnd (lookup r) (\<lambda>d. rd (def_index d) (def_subindex d)) od2) = Inr v"
    using od2 assms(2) by (intro role_read) auto
  then show ?thesis using od' od2 by (simp add: bnd_def)
qed

text \<open>A sequence of writes to existing addresses: each address holds the last value written to it.\<close>

lemma write_all:
  assumes "invar od" "\<forall>(i, s, v) \<in> set ws. val od i s \<noteq> None"
  shows "\<exists>od'. forM (\<lambda>(i, s, v). wr i v s) ws od = (Inr (), od') \<and> invar od' \<and> defs od' = defs od \<and>
     (\<forall>i s. val od' i s = (case map_of (rev (map (\<lambda>(i, s, v). ((i, s), v)) ws)) (i, s) of
        Some v \<Rightarrow> Some v | None \<Rightarrow> val od i s))"
  using assms
proof (induction ws arbitrary: od)
  case Nil
  then show ?case by (simp add: ret_def)
next
  case (Cons w ws)
  obtain i s v where w: "w = (i, s, v)" by (cases w)
  with Cons.prems have ex: "val od i s \<noteq> None" by auto
  obtain od1 where od1: "wr i v s od = (Inr (), od1)" "invar od1" "defs od1 = defs od"
    using Cons.prems(1) ex write_ok [of od i s v] write_keeps [of od i v s]
    by (cases "wr i v s od") auto
  then have v1: "val od1 i' s' = (if i' = i \<and> s' = s then Some v else val od i' s')" for i' s'
    using write_val [OF Cons.prems(1) ex, of v i' s'] by simp
  have "\<forall>(i, s, v) \<in> set ws. val od1 i s \<noteq> None" using Cons.prems(2) by (auto simp: v1)
  from Cons.IH [OF od1(2) this] obtain od' where
    od': "forM (\<lambda>(i, s, v). wr i v s) ws od1 = (Inr (), od')" "invar od'" "defs od' = defs od1"
    "\<And>i s. val od' i s = (case map_of (rev (map (\<lambda>(i, s, v). ((i, s), v)) ws)) (i, s) of
        Some v \<Rightarrow> Some v | None \<Rightarrow> val od1 i s)" by blast
  show ?case
    using od1 od' by (intro exI [of _ od']) (auto simp: w thn_def bnd_def map_add_def v1 split: option.splits)
qed

end

interpretation plain_od: od_interface definition_by_role od_read od_write od_val definitions "\<lambda>_. True"
proof (unfold_locales, goal_cases)
  case (2 od r)
  then show ?case by (auto simp: definition_by_role_def split: list.splits)
next
  case (3 od r)
  then show ?case by (auto simp: definition_by_role_def split: list.splits)
next
  case (5 od i s v)
  then show ?case by (auto simp: od_write_run od_val_def split: option.splits)
qed (simp_all add: definition_by_role_def od_read_val od_write_ok od_val_write)

interpretation indexed: od_interface indexed_definition_by_role
  "\<lambda>i s. ix_plain (od_read i s)" "\<lambda>i v s. ix_plain (od_write i v s)"
  "\<lambda>s. od_val (ix_od s)" "\<lambda>s. definitions (ix_od s)" index_ok
proof (unfold_locales, goal_cases)
  case (1 od r d)
  then show ?case by (simp add: indexed_lookup plain_od.lookup_one)
next
  case (2 od r)
  then show ?case by (simp add: indexed_lookup plain_od.lookup_none)
next
  case (3 od r)
  then show ?case by (simp add: indexed_lookup)
next
  case (4 od i s)
  then show ?case by (simp add: ix_plain_def on_part_def od_read_val split: option.splits)
next
  case (5 od i s v)
  then show ?case using plain_od.write_missing [of "ix_od od" i s v] by (simp add: ix_plain_def on_part_def)
next
  case (6 od i s v)
  then show ?case by (simp add: od_write_ok)
next
  case (7 od i s v i' s')
  then show ?case by (simp add: od_val_write)
next
  case (8 od i v s)
  then show ?case by (simp add: index_ok_plain)
qed

section \<open>The index changes no result\<close>

datatype od_op =
    OpDefine int int od_changes
  | OpOverlay int int od_changes
  | OpWrite int odval int
  | OpWriteInternal int odval int
  | OpRead int int
  | OpLookup string

datatype od_out = OutDef VirtualOdDefinition | OutVal odval | OutUnit

definition out_map :: "('a \<Rightarrow> 'b) \<Rightarrow> ('s, 'a) pym \<Rightarrow> ('s, 'b) pym" where
  "out_map f m = bnd m (\<lambda>x. ret (f x))"

fun plain_op :: "od_op \<Rightarrow> (VirtualOdModel, od_out) pym" where
  "plain_op (OpDefine i s c) = out_map OutDef (od_define i s c)"
| "plain_op (OpOverlay i s c) = out_map OutDef (od_overlay i s c)"
| "plain_op (OpWrite i v s) = out_map (\<lambda>_. OutUnit) (od_write i v s)"
| "plain_op (OpWriteInternal i v s) = out_map (\<lambda>_. OutUnit) (write_internal i v s)"
| "plain_op (OpRead i s) = out_map OutVal (od_read i s)"
| "plain_op (OpLookup r) = out_map OutDef (definition_by_role r)"

fun indexed_op :: "od_op \<Rightarrow> (indexed_od, od_out) pym" where
  "indexed_op (OpDefine i s c) = out_map OutDef (invalidate_after (od_define i s c))"
| "indexed_op (OpOverlay i s c) = out_map OutDef (invalidate_after (od_overlay i s c))"
| "indexed_op (OpWrite i v s) = out_map (\<lambda>_. OutUnit) (ix_plain (od_write i v s))"
| "indexed_op (OpWriteInternal i v s) = out_map (\<lambda>_. OutUnit) (ix_plain (write_internal i v s))"
| "indexed_op (OpRead i s) = out_map OutVal (ix_plain (od_read i s))"
| "indexed_op (OpLookup r) = out_map OutDef (indexed_definition_by_role r)"

text \<open>The outcomes of a sequence of operations; an exception is an outcome and does not stop the caller.\<close>

fun outcomes :: "('op \<Rightarrow> ('s, 'a) pym) \<Rightarrow> 's \<Rightarrow> 'op list \<Rightarrow> 'a res list" where
  "outcomes f s [] = []"
| "outcomes f s (x # xs) = fst (f x s) # outcomes f (snd (f x s)) xs"

lemma out_map_run: "out_map f m s = (case m s of (r, s') \<Rightarrow> (ebind r (\<lambda>x. Inr (f x)), s'))"
  by (auto simp: out_map_def bnd_def ret_def split: prod.splits sum.splits)

lemma index_step:
  assumes "index_ok s"
  shows "fst (indexed_op x s) = fst (plain_op x (ix_od s)) \<and>
    ix_od (snd (indexed_op x s)) = snd (plain_op x (ix_od s)) \<and> index_ok (snd (indexed_op x s))"
proof -
  have *: "index_ok (snd (ix_plain m s))" if "definitions (snd (m (ix_od s))) = definitions (ix_od s)" for m :: "(VirtualOdModel, 'a) pym"
    using assms that by (rule index_ok_plain)
  have read: "snd (od_read i k (ix_od s)) = ix_od s" for i k
    by (simp add: od_read_val split: option.splits)
  have look: "snd (definition_by_role r (ix_od s)) = ix_od s" for r
    by (simp add: definition_by_role_def split: list.splits)
  show ?thesis
  proof (cases x)
    case (OpWrite i v k)
    then show ?thesis using index_ok_plain [OF assms, of "od_write i v k"]
      by (auto simp: out_map_run ix_plain_def on_part_def split: prod.splits)
  next
    case (OpWriteInternal i v k)
    then show ?thesis using index_ok_plain [OF assms, of "write_internal i v k"]
      by (auto simp: out_map_run ix_plain_def on_part_def write_internal_def split: prod.splits)
  next
    case (OpRead i k)
    then show ?thesis using index_ok_plain [OF assms, of "od_read i k"] read [of i k]
      by (auto simp: out_map_run ix_plain_def on_part_def split: prod.splits)
  next
    case (OpLookup r)
    then show ?thesis using indexed_lookup [OF assms, of r] look [of r]
      by (auto simp: out_map_run split: prod.splits)
  qed (auto simp: out_map_run invalidate_after_def index_ok_def split: prod.splits)
qed

text \<open>
  C25. A dictionary with the role index installed gives, for every sequence of definitions,
  overlays, writes, reads and role lookups, the same results and errors as the plain dictionary
  that scans all definitions.
\<close>

theorem index_outcomes:
  "index_ok s \<Longrightarrow> outcomes indexed_op s xs = outcomes plain_op (ix_od s) xs"
proof (induction xs arbitrary: s)
  case (Cons x xs)
  then show ?case using index_step [OF Cons.prems, of x] by simp
qed simp

end
