(* ===== verification/Profile.thy ===== *)
theory Profile
  imports ObjectDictionary
begin

text \<open>
  The CiA 402 interface of a device (profile/profile.py, profile/pdo.py) and the object
  dictionary configured from it (profile/configured_od.py): catalog entries of the ESI
  file, role entries, the preset of non-PDO parameters and the PDO layout, applied in this
  order. The catalog is an argument here; theory \<open>Catalog\<close> reads it from the ESI document.
\<close>

section \<open>Profiles\<close>

record CatalogEntry =
  cat_name :: string
  cat_data_type :: string
  cat_bit_size :: int
  cat_access :: string

type_synonym catalog_objects = "((int \<times> int) \<times> CatalogEntry) list"

record RoleEntry =
  role_role :: string
  role_index :: int
  role_subindex :: int
  role_name :: string
  role_data_type :: string
  role_access :: string

record ConfiguredValue =
  cfg_index :: int
  cfg_subindex :: int
  cfg_value :: odval

record DeviceProfile =
  prof_catalog :: catalog_objects
  prof_config :: "ConfiguredValue list option"
  prof_rx :: "ObjectDictionaryEntry list"
  prof_tx :: "ObjectDictionaryEntry list"
  prof_roles :: "RoleEntry list"
  prof_persistent :: "RoleEntry list"

text \<open>\<open>{r['role']: r for r in standard + extensions}\<close>: a later entry replaces an earlier one.\<close>

definition role_dict :: "RoleEntry list \<Rightarrow> (string \<times> RoleEntry) list" where
  "role_dict rs = foldl (\<lambda>d r. AList.update (role_role r) r d) [] rs"

definition lookup_role :: "(string \<times> RoleEntry) list \<Rightarrow> string \<Rightarrow> RoleEntry res" where
  "lookup_role d key = (case map_of d key of None \<Rightarrow> Inl KeyError | Some r \<Rightarrow> Inr r)"

definition mk_profile ::
  "catalog_objects \<Rightarrow> ConfiguredValue list \<Rightarrow> ObjectDictionaryEntry list \<Rightarrow> ObjectDictionaryEntry list \<Rightarrow>
   RoleEntry list \<Rightarrow> RoleEntry list \<Rightarrow> string list \<Rightarrow> string list \<Rightarrow> DeviceProfile res" where
  "mk_profile catalog parameters rx tx standard extensions role_order persistent_roles =
     (let roles = role_dict (standard @ extensions) in
      ebind (emap (lookup_role roles) role_order) (\<lambda>rs.
      ebind (emap (lookup_role roles) persistent_roles) (\<lambda>ps.
      Inr \<lparr>prof_catalog = catalog, prof_config = Some parameters, prof_rx = rx, prof_tx = tx,
           prof_roles = rs, prof_persistent = ps\<rparr>)))"

definition expected_data_type_bits :: "string \<Rightarrow> int res" where
  "expected_data_type_bits data_type =
     bit_length \<lparr>ode_index = 0, ode_subindex = 0, ode_name = '''', ode_data_type = data_type,
       ode_field = None, ode_default = 0\<rparr>"

text \<open>What the check reads of a role entry or a PDO entry.\<close>

definition role_address :: "RoleEntry \<Rightarrow> int \<times> int \<times> string" where
  "role_address r = (role_index r, role_subindex r, role_data_type r)"

definition pdo_address :: "ObjectDictionaryEntry \<Rightarrow> int \<times> int \<times> string" where
  "pdo_address e = (ode_index e, ode_subindex e, ode_data_type e)"

fun check_entry :: "catalog_objects \<Rightarrow> int \<times> int \<times> string \<Rightarrow> unit res" where
  "check_entry catalog (index, subindex, data_type) =
     (if index = 0 then Inr ()
      else case map_of catalog (index, subindex) of
        None \<Rightarrow> Inl KeyError
      | Some actual \<Rightarrow> ebind (expected_data_type_bits data_type) (\<lambda>bits.
          if cat_bit_size actual \<noteq> bits then Inl ValueError else Inr ()))"

definition validate_catalog_support :: "DeviceProfile \<Rightarrow> unit res" where
  "validate_catalog_support p =
     ebind (emap (check_entry (prof_catalog p))
       (map role_address (prof_roles p) @ map pdo_address (prof_rx p) @ map pdo_address (prof_tx p)))
       (\<lambda>_. Inr ())"

section \<open>The configured dictionary\<close>

definition void :: "('s, 'a) pym \<Rightarrow> ('s, unit) pym" where
  "void m = bnd m (\<lambda>_. ret ())"

fun load_entry :: "(int \<times> int) \<times> CatalogEntry \<Rightarrow> (VirtualOdModel, unit) pym" where
  "load_entry ((index, subindex), e) =
     bnd (lift (default_value (cat_data_type e) (cat_bit_size e))) (\<lambda>default.
     void (od_define index subindex
       (no_changes\<lparr>chg_name := Some (cat_name e), chg_data_type := Some (cat_data_type e),
          chg_bit_size := Some (cat_bit_size e), chg_access := Some (cat_access e),
          chg_default := Some default\<rparr>)))"

definition load_catalog :: "catalog_objects \<Rightarrow> (VirtualOdModel, unit) pym" where
  "load_catalog es = forM load_entry es"

definition overlay_role :: "RoleEntry \<Rightarrow> (VirtualOdModel, unit) pym" where
  "overlay_role r =
     bnd (lift (expected_data_type_bits (role_data_type r))) (\<lambda>bits.
     void (od_overlay (role_index r) (role_subindex r)
       (no_changes\<lparr>chg_name := Some (role_name r), chg_data_type := Some (role_data_type r),
          chg_bit_size := Some bits, chg_access := Some (role_access r),
          chg_role := Some (role_role r)\<rparr>)))"

definition overlay_required_non_pdo_od :: "RoleEntry list \<Rightarrow> (VirtualOdModel, unit) pym" where
  "overlay_required_non_pdo_od roles = forM overlay_role roles"

definition apply_configured :: "ConfiguredValue \<Rightarrow> (VirtualOdModel, unit) pym" where
  "apply_configured c =
     bnd (gets (has_entry (cfg_index c) (cfg_subindex c))) (\<lambda>present.
     if present then write_internal (cfg_index c) (cfg_value c) (cfg_subindex c)
     else raise ValueError)"

definition apply_non_pdo_configuration :: "ConfiguredValue list option \<Rightarrow> (VirtualOdModel, unit) pym" where
  "apply_non_pdo_configuration configuration =
     (case configuration of None \<Rightarrow> ret () | Some cs \<Rightarrow> forM apply_configured cs)"

definition overlay_pdo_entry :: "bool \<Rightarrow> ObjectDictionaryEntry \<Rightarrow> (VirtualOdModel, unit) pym" where
  "overlay_pdo_entry rx e =
     (if ode_index e = 0 then ret ()
      else bnd (lift (bit_length e)) (\<lambda>bits.
        void (od_overlay (ode_index e) (ode_subindex e)
          (no_changes\<lparr>chg_name := Some (ode_name e), chg_data_type := Some (ode_data_type e),
             chg_bit_size := Some bits, chg_default := Some (VInt (ode_default e)),
             chg_role := ode_field e,
             chg_rxpdo := (if rx then Some True else None),
             chg_txpdo := (if rx then None else Some True)\<rparr>))))"

definition overlay_pdo :: "bool \<Rightarrow> ObjectDictionaryEntry list \<Rightarrow> (VirtualOdModel, unit) pym" where
  "overlay_pdo rx es = forM (overlay_pdo_entry rx) es"

definition configured_init :: "DeviceProfile \<Rightarrow> (VirtualOdModel, unit) pym" where
  "configured_init p =
     thn (lift (validate_catalog_support p))
    (thn (load_catalog (prof_catalog p))
    (thn (overlay_required_non_pdo_od (prof_roles p))
    (thn (apply_non_pdo_configuration (prof_config p))
    (thn (overlay_pdo True (prof_rx p))
         (overlay_pdo False (prof_tx p))))))"

definition ConfiguredObjectDictionary :: "DeviceProfile \<Rightarrow> VirtualOdModel res" where
  "ConfiguredObjectDictionary p =
     (case configured_init p od_empty of (Inl e, _) \<Rightarrow> Inl e | (Inr _, od) \<Rightarrow> Inr od)"

definition reset_non_pdo_configuration :: "DeviceProfile \<Rightarrow> (VirtualOdModel, unit) pym" where
  "reset_non_pdo_configuration p = apply_non_pdo_configuration (prof_config p)"

definition reset_entry :: "VirtualOdEntry \<Rightarrow> VirtualOdEntry" where
  "reset_entry e = (let d = ent_definition e in
     if def_rxpdo d \<or> def_txpdo d then e\<lparr>ent_value := def_default d\<rparr> else e)"

definition reset_pdo_values :: "(VirtualOdModel, unit) pym" where
  "reset_pdo_values = modify (\<lambda>od. od\<lparr>entries := map (\<lambda>(k, e). (k, reset_entry e)) (entries od)\<rparr>)"

end
