(* ===== verification/Bridge.thy ===== *)
theory Bridge
  imports Profile
begin

text \<open>
  The bridge between the wire and the object dictionary (profile/bridge.py): SDO access to
  one entry, and the fixed process data layout in both directions.
\<close>

section \<open>Operations\<close>

definition bridge_definition :: "int \<Rightarrow> int \<Rightarrow> (VirtualOdModel, VirtualOdDefinition) pym" where
  "bridge_definition index subindex =
     catch (od_definition index subindex)
       (\<lambda>e. if is_KeyError e then raise (SdoObjectNotFoundException index subindex) else raise e)"

definition bridge_read_sdo :: "int \<Rightarrow> int \<Rightarrow> nat \<Rightarrow> (VirtualOdModel, bytes) pym" where
  "bridge_read_sdo index subindex sz =
     bnd (bridge_definition index subindex) (\<lambda>d.
     bnd (od_read index subindex) (\<lambda>v.
     lift (encode_od_value (def_data_type d) v (Some sz))))"

definition bridge_write_sdo :: "int \<Rightarrow> int \<Rightarrow> bytes \<Rightarrow> (VirtualOdModel, unit) pym" where
  "bridge_write_sdo index subindex payload =
     bnd (bridge_definition index subindex) (\<lambda>d.
     if lower (def_access d) = ''ro'' then raise DeviceRejectedException
     else bnd (lift (decode_od_value (def_data_type d) payload)) (\<lambda>v.
       od_write index v subindex))"

definition is_padding :: "ObjectDictionaryEntry \<Rightarrow> bool" where
  "is_padding e \<longleftrightarrow> ode_index e = 0 \<or> ode_field e = None"

fun rx_loop :: "bytes \<Rightarrow> int \<Rightarrow> ObjectDictionaryEntry list \<Rightarrow> (VirtualOdModel, unit) pym" where
  "rx_loop payload offset [] = ret ()"
| "rx_loop payload offset (e # es) =
     bnd (lift (byte_length e)) (\<lambda>n.
     let stop = offset + n in
     if stop > int (length payload) then raise ValueError
     else
       thn (if is_padding e then ret ()
            else bnd (lift (decode_od_value (ode_data_type e) (take (nat n) (drop (nat offset) payload)))) (\<lambda>v.
              od_write (ode_index e) v (ode_subindex e)))
           (rx_loop payload stop es))"

definition rxpdo_payload_to_od :: "ObjectDictionaryEntry list \<Rightarrow> bytes \<Rightarrow> (VirtualOdModel, unit) pym" where
  "rxpdo_payload_to_od rx payload = rx_loop payload 0 rx"

fun tx_loop :: "bytes \<Rightarrow> ObjectDictionaryEntry list \<Rightarrow> (VirtualOdModel, bytes) pym" where
  "tx_loop acc [] = ret acc"
| "tx_loop acc (e # es) =
     bnd (lift (byte_length e)) (\<lambda>n.
     if is_padding e then tx_loop (acc @ replicate (nat n) 0) es
     else bnd (od_read (ode_index e) (ode_subindex e)) (\<lambda>v.
       bnd (lift (encode_od_value (ode_data_type e) v (Some (nat n)))) (\<lambda>raw.
       tx_loop (acc @ raw) es)))"

definition od_to_txpdo_payload :: "ObjectDictionaryEntry list \<Rightarrow> (VirtualOdModel, bytes) pym" where
  "od_to_txpdo_payload tx = tx_loop [] tx"

section \<open>SDO access\<close>

text \<open>The definition stored at an address.\<close>

definition od_def :: "VirtualOdModel \<Rightarrow> int \<Rightarrow> int \<Rightarrow> VirtualOdDefinition option" where
  "od_def od i s = map_option ent_definition (map_of (entries od) (storage_key i s))"

lemma od_def_put [simp]: "od_def (od_put i v s od) i' s' = od_def od i' s'"
  by (auto simp: od_def_def od_put_def od_write_run update_conv' split: option.splits)

lemma od_def_val: "od_def od i s = Some d \<Longrightarrow> \<exists>v. od_val od i s = Some v"
  by (auto simp: od_def_def od_val_def)

lemma bridge_definition_run:
  "bridge_definition i s od = (case od_def od i s of
     None \<Rightarrow> (Inl (SdoObjectNotFoundException i s), od) | Some d \<Rightarrow> (Inr d, od))"
  by (simp add: bridge_definition_def od_definition_def od_def_def pym split: option.splits)

lemma bridge_write_run:
  assumes "od_def od i s = Some d" "lower (def_access d) \<noteq> ''ro''" "decode_od_value (def_data_type d) payload = Inr v"
  shows "bridge_write_sdo i s payload od = (Inr (), od_put i v s od)"
  using assms od_def_val [OF assms(1)]
  by (auto simp: bridge_write_sdo_def bnd_def bridge_definition_run pym od_write_put)

lemma bridge_read_run:
  assumes "od_def od i s = Some d" "od_val od i s = Some v"
  shows "bridge_read_sdo i s n od = (encode_od_value (def_data_type d) v (Some n), od)"
  using assms by (simp add: bridge_read_sdo_def bnd_def bridge_definition_run pym od_read_some)

text \<open>
  C20. An SDO download to a writable object with a payload its type represents is accepted, and an
  upload then returns the same bytes; no definition and no other value changes.
\<close>

theorem sdo_write_read:
  assumes "od_def od i s = Some d" "lower (def_access d) \<noteq> ''ro''" "lossless (def_data_type d) payload"
  shows "\<exists>od'. bridge_write_sdo i s payload od = (Inr (), od') \<and>
    bridge_read_sdo i s (length payload) od' = (Inr payload, od') \<and>
    definitions od' = definitions od \<and>
    (\<forall>i' s'. (i', s') \<noteq> (i, s) \<longrightarrow> od_val od' i' s' = od_val od i' s')"
proof -
  obtain v where v: "decode_od_value (def_data_type d) payload = Inr v"
    "encode_od_value (def_data_type d) v (Some (length payload)) = Inr payload"
    using encode_decode [OF assms(3)] .
  have p: "od_val od i s \<noteq> None" using od_def_val [OF assms(1)] by auto
  have "bridge_read_sdo i s (length payload) (od_put i v s od) = (Inr payload, od_put i v s od)"
    using bridge_read_run [of "od_put i v s od" i s d v] p assms(1) v(2) by simp
  then show ?thesis using bridge_write_run [OF assms(1,2) v(1)] p by auto
qed

lemma sdo_errors:
  "od_def od i s = None \<Longrightarrow> bridge_read_sdo i s n od = (Inl (SdoObjectNotFoundException i s), od)"
  "od_def od i s = None \<Longrightarrow> bridge_write_sdo i s payload od = (Inl (SdoObjectNotFoundException i s), od)"
  "od_def od i s = Some d \<Longrightarrow> lower (def_access d) = ''ro'' \<Longrightarrow>
   bridge_write_sdo i s payload od = (Inl DeviceRejectedException, od)"
  by (simp_all add: bridge_read_sdo_def bridge_write_sdo_def bnd_def bridge_definition_run raise_run)


section \<open>Process data\<close>

text \<open>\<open>sum(x.byte_length for x in ...)\<close>\<close>

fun pdo_size :: "ObjectDictionaryEntry list \<Rightarrow> int res" where
  "pdo_size [] = Inr 0"
| "pdo_size (e # es) = ebind (byte_length e) (\<lambda>n. ebind (pdo_size es) (\<lambda>m. Inr (n + m)))"

text \<open>A frame cut into the fields of a layout, and the dictionary after its fields are stored.\<close>

definition part_of :: "ObjectDictionaryEntry \<Rightarrow> bytes \<Rightarrow> bool" where
  "part_of e b \<longleftrightarrow> byte_length e = Inr (int (length b)) \<and>
     (is_padding e \<or> (\<exists>v. decode_od_value (ode_data_type e) b = Inr v))"

definition field_value :: "ObjectDictionaryEntry \<Rightarrow> bytes \<Rightarrow> odval" where
  "field_value e b = (case decode_od_value (ode_data_type e) b of Inr v \<Rightarrow> v | Inl _ \<Rightarrow> VInt 0)"

fun rx_put :: "ObjectDictionaryEntry list \<Rightarrow> bytes list \<Rightarrow> VirtualOdModel \<Rightarrow> VirtualOdModel" where
  "rx_put (e # es) (b # bs) od =
     rx_put es bs (if is_padding e then od else od_put (ode_index e) (field_value e b) (ode_subindex e) od)"
| "rx_put _ _ od = od"

definition mapped :: "VirtualOdModel \<Rightarrow> ObjectDictionaryEntry \<Rightarrow> bool" where
  "mapped od e \<longleftrightarrow> is_padding e \<or> od_val od (ode_index e) (ode_subindex e) \<noteq> None"

lemma mapped_step:
  assumes "list_all (mapped od) (e # es)"
  shows "list_all (mapped (if is_padding e then od else od_put (ode_index e) v (ode_subindex e) od)) es"
  using assms by (auto simp: mapped_def list_all_iff split: if_splits)

lemma rx_loop_parts:
  assumes "list_all2 part_of es parts" "list_all (mapped od) es"
  shows "rx_loop (pre @ concat parts) (int (length pre)) es od = (Inr (), rx_put es parts od)"
  using assms
proof (induction arbitrary: pre od rule: list_all2_induct)
  case Nil
  then show ?case by (simp add: ret_def)
next
  case (Cons e es b bs)
  define od1 where "od1 = (if is_padding e then od else od_put (ode_index e) (field_value e b) (ode_subindex e) od)"
  have "list_all (mapped od1) es"
    unfolding od1_def by (rule mapped_step [OF Cons.prems])
  from Cons.IH [OF this, of "pre @ b"] have
    ih: "rx_loop (pre @ b @ concat bs) (int (length pre) + int (length b)) es od1 = (Inr (), rx_put es bs od1)"
    by simp
  have n: "byte_length e = Inr (int (length b))" using Cons.hyps by (simp add: part_of_def)
  show ?case
  proof (cases "is_padding e")
    case True
    then show ?thesis using ih n by (simp add: pym Let_def od1_def)
  next
    case False
    then obtain v where v: "decode_od_value (ode_data_type e) b = Inr v" using Cons.hyps by (auto simp: part_of_def)
    have "od_val od (ode_index e) (ode_subindex e) \<noteq> None" using Cons.prems False by (simp add: mapped_def)
    then have "od_write (ode_index e) v (ode_subindex e) od = (Inr (), od1)"
      using False v by (simp add: od_write_put od1_def field_value_def)
    then show ?thesis using ih n v False by (simp add: pym Let_def bnd_Inr od1_def)
  qed
qed

lemma rx_put_other:
  assumes "list_all2 part_of es parts" "list_all (mapped od) es"
    and "\<And>e. e \<in> set es \<Longrightarrow> \<not> is_padding e \<Longrightarrow> (ode_index e, ode_subindex e) \<noteq> (i, s)"
  shows "od_val (rx_put es parts od) i s = od_val od i s"
  using assms
proof (induction arbitrary: od rule: list_all2_induct)
  case (Cons e es b bs)
  define od1 where "od1 = (if is_padding e then od else od_put (ode_index e) (field_value e b) (ode_subindex e) od)"
  have "list_all (mapped od1) es" unfolding od1_def by (rule mapped_step [OF Cons.prems(1)])
  then have "od_val (rx_put es bs od1) i s = od_val od1 i s" using Cons.IH Cons.prems(2) by auto
  also have "\<dots> = od_val od i s"
  proof (cases "is_padding e")
    case False
    then have "(ode_index e, ode_subindex e) \<noteq> (i, s)" "od_val od (ode_index e) (ode_subindex e) \<noteq> None"
      using Cons.prems(1) Cons.prems(2) [of e] by (auto simp: mapped_def)
    then show ?thesis using False by (auto simp: od1_def)
  qed (simp add: od1_def)
  finally show ?case by (simp add: od1_def)
qed simp

lemma definitions_rx_put [simp]: "definitions (rx_put es parts od) = definitions od"
  by (induction es parts od rule: rx_put.induct) simp_all

text \<open>The addresses of a layout are distinct; padding has none.\<close>

definition addresses :: "ObjectDictionaryEntry list \<Rightarrow> (int \<times> int) list" where
  "addresses es = map (\<lambda>e. (ode_index e, ode_subindex e)) (filter (\<lambda>e. \<not> is_padding e) es)"

lemma rx_put_field:
  assumes "list_all2 part_of es parts" "list_all (mapped od) es" "distinct (addresses es)"
    "(e, b) \<in> set (zip es parts)" "\<not> is_padding e"
  shows "od_val (rx_put es parts od) (ode_index e) (ode_subindex e) = Some (field_value e b)"
  using assms
proof (induction arbitrary: od rule: list_all2_induct)
  case (Cons e' es b' bs)
  define od1 where "od1 = (if is_padding e' then od else od_put (ode_index e') (field_value e' b') (ode_subindex e') od)"
  have m: "list_all (mapped od1) es" unfolding od1_def by (rule mapped_step [OF Cons.prems(1)])
  show ?case
  proof (cases "(e, b) \<in> set (zip es bs)")
    case True
    have "distinct (addresses es)" using Cons.prems(2) by (auto simp: addresses_def split: if_splits)
    from Cons.IH [OF m this True Cons.prems(4)] show ?thesis by (simp add: od1_def)
  next
    case False
    then have e: "e = e'" "b = b'" using Cons.prems(3) by auto
    have "(ode_index x, ode_subindex x) \<noteq> (ode_index e, ode_subindex e)" if "x \<in> set es" "\<not> is_padding x" for x
    proof -
      have "(ode_index x, ode_subindex x) \<in> set (addresses es)" using that by (auto simp: addresses_def)
      moreover have "(ode_index e, ode_subindex e) \<notin> set (addresses es)"
        using Cons.prems(2,4) unfolding e by (simp add: addresses_def)
      ultimately show ?thesis by metis
    qed
    then have "od_val (rx_put es bs od1) (ode_index e) (ode_subindex e) = od_val od1 (ode_index e) (ode_subindex e)"
      by (intro rx_put_other [OF Cons.hyps(2) m]) auto
    also have "\<dots> = Some (field_value e b)" using Cons.prems(1,4) unfolding od1_def e by (simp add: mapped_def)
    finally show ?thesis by (simp add: od1_def)
  qed
qed simp

text \<open>Sending: each field is encoded from its entry.\<close>

definition tx_part :: "VirtualOdModel \<Rightarrow> ObjectDictionaryEntry \<Rightarrow> bytes \<Rightarrow> bool" where
  "tx_part od e b \<longleftrightarrow>
     (if is_padding e then \<exists>n. byte_length e = Inr n \<and> b = replicate (nat n) 0
      else \<exists>v n. byte_length e = Inr n \<and> od_val od (ode_index e) (ode_subindex e) = Some v \<and>
        encode_od_value (ode_data_type e) v (Some (nat n)) = Inr b)"

lemma tx_loop_parts:
  "list_all2 (tx_part od) es parts \<Longrightarrow> tx_loop acc es od = (Inr (acc @ concat parts), od)"
proof (induction arbitrary: acc rule: list_all2_induct)
  case (Cons e es b bs)
  then show ?case by (cases "is_padding e") (auto simp: tx_part_def pym od_read_some bnd_Inr)
qed (simp add: ret_def)

definition blank :: "ObjectDictionaryEntry \<Rightarrow> bytes \<Rightarrow> bytes" where
  "blank e b = (if is_padding e then replicate (length b) 0 else b)"

lemma pdo_round_trip_parts:
  assumes p: "list_all2 (\<lambda>e b. byte_length e = Inr (int (length b)) \<and> (is_padding e \<or> lossless (ode_data_type e) b)) es parts"
    and m: "list_all (mapped od) es" and d: "distinct (addresses es)"
  shows "rxpdo_payload_to_od es (concat parts) od = (Inr (), rx_put es parts od)"
    "od_to_txpdo_payload es (rx_put es parts od) = (Inr (concat (map2 blank es parts)), rx_put es parts od)"
proof -
  have parts: "list_all2 part_of es parts"
    using p by (rule list_all2_mono) (auto simp: part_of_def elim: encode_decode)
  show "rxpdo_payload_to_od es (concat parts) od = (Inr (), rx_put es parts od)"
    using rx_loop_parts [OF parts m, of "[]"] by (simp add: rxpdo_payload_to_od_def)
  have "tx_part (rx_put es parts od) e (blank e b)" if zip: "(e, b) \<in> set (zip es parts)" for e b
  proof (cases "is_padding e")
    case True
    then show ?thesis using p zip by (auto simp: tx_part_def blank_def list_all2_iff)
  next
    case False
    with p zip have n: "byte_length e = Inr (int (length b))" and l: "lossless (ode_data_type e) b"
      by (auto simp: list_all2_iff)
    obtain v where "decode_od_value (ode_data_type e) b = Inr v"
      "encode_od_value (ode_data_type e) v (Some (length b)) = Inr b" using encode_decode [OF l] .
    then show ?thesis
      using False n rx_put_field [OF parts m d zip False] by (simp add: tx_part_def blank_def field_value_def)
  qed
  then have "list_all2 (tx_part (rx_put es parts od)) es (map2 blank es parts)"
    using p by (auto simp: list_all2_conv_all_nth set_zip)
  then show "od_to_txpdo_payload es (rx_put es parts od) = (Inr (concat (map2 blank es parts)), rx_put es parts od)"
    by (simp add: od_to_txpdo_payload_def tx_loop_parts)
qed

text \<open>
  C22. A process data payload made of parts that the types of its entries represent is split into
  exactly these parts, and sending the same entries back gives the payload with its padding
  zeroed.
\<close>

theorem pdo_round_trip:
  assumes p: "list_all2 (\<lambda>e b. byte_length e = Inr (int (length b)) \<and> (is_padding e \<or> lossless (ode_data_type e) b)) es parts"
    and m: "list_all (mapped od) es" and d: "distinct (addresses es)"
  shows "rxpdo_payload_to_od es (concat parts) od = (Inr (), rx_put es parts od) \<and>
    od_to_txpdo_payload es (rx_put es parts od) = (Inr (concat (map2 blank es parts)), rx_put es parts od)"
  using pdo_round_trip_parts [OF assms] by blast

text \<open>
  C21. An access to an object that does not exist raises the not-found error with its address, and
  a download to a read-only object is rejected; the dictionary does not change.
\<close>

theorem sdo_refusals:
  "(od_def od i s = None \<longrightarrow>
      bridge_read_sdo i s n od = (Inl (SdoObjectNotFoundException i s), od) \<and>
      bridge_write_sdo i s payload od = (Inl (SdoObjectNotFoundException i s), od)) \<and>
   (\<forall>d. od_def od i s = Some d \<and> lower (def_access d) = ''ro'' \<longrightarrow>
      bridge_write_sdo i s payload od = (Inl DeviceRejectedException, od))"
  by (simp add: sdo_errors)

section \<open>Reading changes nothing\<close>

lemma bridge_read_pure: "snd (bridge_read_sdo i k n od) = od"
  by (simp add: bridge_read_sdo_def bnd_def bridge_definition_run od_read_val pym split: option.splits)

lemma tx_loop_pure: "snd (tx_loop acc es od) = od"
proof (induction es arbitrary: acc)
  case (Cons e es)
  show ?case
  proof (cases "byte_length e")
    case (Inr n)
    then show ?thesis using Cons
      by (cases "encode_od_value (ode_data_type e) (the (od_val od (ode_index e) (ode_subindex e))) (Some (nat n))")
        (auto simp: pym bnd_def od_read_val split: option.splits)
  qed (simp add: pym)
qed (simp add: ret_def)

lemma od_reads_pure: "snd (od_read i k od) = od" "snd (od_to_txpdo_payload tx od) = od"
  by (simp_all add: od_read_val od_to_txpdo_payload_def tx_loop_pure split: option.splits)

end
