(* ===== verification/StateMachine.thy ===== *)
theory StateMachine
  imports Prelude
begin

unbundle bit_operations_syntax

text \<open>
  The CiA 402 power state machine of the F-KR servo model
  (behaviour_model/f_kr_cmmt/state_machine.py): the state, the transition that one
  control word causes, the status word of a state. The second half states the device control
  commands and transitions of CiA 402 bit by bit, and where the code takes them.
\<close>

section \<open>The machine\<close>

datatype CiA402State =
    SWITCH_ON_DISABLED
  | READY_TO_SWITCH_ON
  | SWITCHED_ON
  | OPERATION_ENABLED
  | FAULT

definition sm_init :: CiA402State where
  "sm_init = SWITCH_ON_DISABLED"

definition sm_process :: "CiA402State \<Rightarrow> int \<Rightarrow> CiA402State" where
  "sm_process state controlword =
     (if controlword AND 0x0080 \<noteq> 0 then
        (if state = FAULT then SWITCH_ON_DISABLED else state)
      else if controlword AND 0x0087 = 0x0000 then SWITCH_ON_DISABLED
      else (case state of
          SWITCH_ON_DISABLED \<Rightarrow>
            (if controlword AND 0x0087 = 0x0006 then READY_TO_SWITCH_ON else state)
        | READY_TO_SWITCH_ON \<Rightarrow>
            (if controlword AND 0x008F = 0x0007 then SWITCHED_ON
             else if controlword AND 0x0087 = 0x0000 then SWITCH_ON_DISABLED
             else state)
        | SWITCHED_ON \<Rightarrow>
            (if controlword AND 0x008F = 0x000F then OPERATION_ENABLED
             else if controlword AND 0x0087 = 0x0006 then READY_TO_SWITCH_ON
             else if controlword AND 0x0087 = 0x0000 then SWITCH_ON_DISABLED
             else state)
        | OPERATION_ENABLED \<Rightarrow>
            (if controlword AND 0x008F = 0x0007 then SWITCHED_ON
             else if controlword AND 0x0087 = 0x0006 then READY_TO_SWITCH_ON
             else if controlword AND 0x0087 = 0x0000 then SWITCH_ON_DISABLED
             else state)
        | FAULT \<Rightarrow>
            (if controlword AND 0x0080 \<noteq> 0 then SWITCH_ON_DISABLED else state)))"

fun sm_get_statusword :: "CiA402State \<Rightarrow> int" where
  "sm_get_statusword SWITCH_ON_DISABLED = 0x0040"
| "sm_get_statusword READY_TO_SWITCH_ON = 0x0021"
| "sm_get_statusword SWITCHED_ON = 0x0023"
| "sm_get_statusword OPERATION_ENABLED = 0x0027"
| "sm_get_statusword FAULT = 0x0008"

definition sm_run :: "CiA402State \<Rightarrow> int list \<Rightarrow> CiA402State" where
  "sm_run = foldl sm_process"

lemma statusword_enabled_iff [simp]:
  "sm_get_statusword s = 0x27 \<longleftrightarrow> s = OPERATION_ENABLED"
  "sm_get_statusword s = 39 \<longleftrightarrow> s = OPERATION_ENABLED"
  by (cases s; simp)+

lemma sm_run_simps [simp]:
  "sm_run s [] = s"
  "sm_run s (cw # cws) = sm_run (sm_process s cw) cws"
  "sm_run s (xs @ ys) = sm_run (sm_run s xs) ys"
  by (simp_all add: sm_run_def)

section \<open>Commands\<close>

text \<open>The device control commands a control word encodes, as the machine distinguishes them.\<close>

datatype command = FaultReset | DisableVoltage | Shutdown | SwitchOn | EnableOperation | NoCommand

definition command_of :: "int \<Rightarrow> command" where
  "command_of cw =
     (if cw AND 0x80 \<noteq> 0 then FaultReset
      else if cw AND 0x87 = 0 then DisableVoltage
      else if cw AND 0x87 = 6 then Shutdown
      else if cw AND 0x8F = 7 then SwitchOn
      else if cw AND 0x8F = 0xF then EnableOperation
      else NoCommand)"

lemma mask_split: "(cw::int) AND 0x87 = (cw AND 0x8F) AND 0x87" "cw AND 0x80 = (cw AND 0x8F) AND 0x80"
  by (simp_all add: and.assoc)

lemma command_masks:
  "cw AND 0x8F = 7 \<Longrightarrow> cw AND 0x80 = 0 \<and> cw AND 0x87 = 7"
  "cw AND 0x8F = 0xF \<Longrightarrow> cw AND 0x80 = 0 \<and> cw AND 0x87 = 7"
  "cw AND 0x87 = 0 \<Longrightarrow> cw AND 0x80 = 0"
  "cw AND 0x87 = 6 \<Longrightarrow> cw AND 0x80 = 0"
  for cw :: int
proof -
  have *: "cw AND 0x80 = (cw AND 0x87) AND 0x80" by (simp add: and.assoc)
  show "cw AND 0x8F = 7 \<Longrightarrow> cw AND 0x80 = 0 \<and> cw AND 0x87 = 7"
    "cw AND 0x8F = 0xF \<Longrightarrow> cw AND 0x80 = 0 \<and> cw AND 0x87 = 7"
    by (simp_all add: mask_split [of cw])
  show "cw AND 0x87 = 0 \<Longrightarrow> cw AND 0x80 = 0" "cw AND 0x87 = 6 \<Longrightarrow> cw AND 0x80 = 0"
    by (simp_all add: *)
qed

lemma sm_process_command:
  "sm_process s cw =
     (case command_of cw of
        FaultReset \<Rightarrow> (if s = FAULT then SWITCH_ON_DISABLED else s)
      | DisableVoltage \<Rightarrow> SWITCH_ON_DISABLED
      | Shutdown \<Rightarrow> (if s \<in> {SWITCH_ON_DISABLED, SWITCHED_ON, OPERATION_ENABLED} then READY_TO_SWITCH_ON else s)
      | SwitchOn \<Rightarrow> (if s \<in> {READY_TO_SWITCH_ON, OPERATION_ENABLED} then SWITCHED_ON else s)
      | EnableOperation \<Rightarrow> (if s = SWITCHED_ON then OPERATION_ENABLED else s)
      | NoCommand \<Rightarrow> s)"
  using command_masks [of cw]
  by (auto simp: sm_process_def command_of_def split: CiA402State.splits)

lemma command_of_iff:
  "command_of cw = Shutdown \<longleftrightarrow> cw AND 0x87 = 6"
  "command_of cw = SwitchOn \<longleftrightarrow> cw AND 0x8F = 7"
  "command_of cw = EnableOperation \<longleftrightarrow> cw AND 0x8F = 0xF"
  using command_masks [of cw] by (auto simp: command_of_def)

section \<open>The standard\<close>

text \<open>
  The device control commands of CiA 402 (IEC 61800-7-201) by the bits 7, 3, 2, 1 and 0 of the control
  word; the fault reset is a rising edge of bit 7, so that the previous word counts. Disable operation
  has the word of switch on.
\<close>

datatype standard_command =
  Std_Shutdown | Std_Switch_On | Std_Enable_Operation | Std_Disable_Voltage | Std_Quick_Stop | Std_Fault_Reset

definition standard_command :: "int \<Rightarrow> int \<Rightarrow> standard_command \<Rightarrow> bool" where
  "standard_command previous cw c =
     (case c of
        Std_Fault_Reset \<Rightarrow> bit cw 7 \<and> \<not> bit previous 7
      | Std_Shutdown \<Rightarrow> \<not> bit cw 7 \<and> bit cw 2 \<and> bit cw 1 \<and> \<not> bit cw 0
      | Std_Switch_On \<Rightarrow> \<not> bit cw 7 \<and> \<not> bit cw 3 \<and> bit cw 2 \<and> bit cw 1 \<and> bit cw 0
      | Std_Enable_Operation \<Rightarrow> \<not> bit cw 7 \<and> bit cw 3 \<and> bit cw 2 \<and> bit cw 1 \<and> bit cw 0
      | Std_Disable_Voltage \<Rightarrow> \<not> bit cw 7 \<and> \<not> bit cw 1
      | Std_Quick_Stop \<Rightarrow> \<not> bit cw 7 \<and> \<not> bit cw 2 \<and> bit cw 1)"

text \<open>
  The transitions of the standard between the states that the code has, by their numbers there. From
  operation enabled quick stop leads to the state quick stop active (transition 11), which the code does not have.
\<close>

inductive standard_step :: "CiA402State \<Rightarrow> standard_command \<Rightarrow> CiA402State \<Rightarrow> bool" where
  t2: "standard_step SWITCH_ON_DISABLED Std_Shutdown READY_TO_SWITCH_ON"
| t3: "standard_step READY_TO_SWITCH_ON Std_Switch_On SWITCHED_ON"
| t4: "standard_step SWITCHED_ON Std_Enable_Operation OPERATION_ENABLED"
| t5: "standard_step OPERATION_ENABLED Std_Switch_On SWITCHED_ON"
| t6: "standard_step SWITCHED_ON Std_Shutdown READY_TO_SWITCH_ON"
| t7: "c \<in> {Std_Disable_Voltage, Std_Quick_Stop} \<Longrightarrow> standard_step READY_TO_SWITCH_ON c SWITCH_ON_DISABLED"
| t8: "standard_step OPERATION_ENABLED Std_Shutdown READY_TO_SWITCH_ON"
| t9: "standard_step OPERATION_ENABLED Std_Disable_Voltage SWITCH_ON_DISABLED"
| t10: "c \<in> {Std_Disable_Voltage, Std_Quick_Stop} \<Longrightarrow> standard_step SWITCHED_ON c SWITCH_ON_DISABLED"
| t15: "standard_step FAULT Std_Fault_Reset SWITCH_ON_DISABLED"

inductive_simps standard_from [simp]:
  "standard_step SWITCH_ON_DISABLED c t" "standard_step READY_TO_SWITCH_ON c t" "standard_step SWITCHED_ON c t"
  "standard_step OPERATION_ENABLED c t" "standard_step FAULT c t"

text \<open>The masks of the code as bits.\<close>

lemma and_one_bit: "(x::int) AND 2 ^ n = (if bit x n then 2 ^ n else 0)"
  by (rule bit_eqI) (auto simp: bit_simps)

lemma and_command_bits:
  "(x::int) AND 0x87 = (if bit x 0 then 1 else 0) OR (if bit x 1 then 2 else 0) OR (if bit x 2 then 4 else 0) OR (if bit x 7 then 0x80 else 0)"
  "x AND 0x8F = (x AND 0x87) OR (if bit x 3 then 8 else 0)"
  "x AND 0x80 = (if bit x 7 then 0x80 else 0)"
proof -
  have m: "(0x87::int) = 1 OR 2 OR 4 OR 0x80" "(0x8F::int) = 0x87 OR 8" by simp_all
  show "x AND 0x87 = (if bit x 0 then 1 else 0) OR (if bit x 1 then 2 else 0) OR (if bit x 2 then 4 else 0) OR (if bit x 7 then 0x80 else 0)"
    unfolding m bit.conj_disj_distrib
    using and_one_bit [of x 0] and_one_bit [of x 1] and_one_bit [of x 2] and_one_bit [of x 7] by simp
  show "x AND 0x8F = (x AND 0x87) OR (if bit x 3 then 8 else 0)"
    unfolding m(2) bit.conj_disj_distrib using and_one_bit [of x 3] by simp
  show "x AND 0x80 = (if bit x 7 then 0x80 else 0)" using and_one_bit [of x 7] by simp
qed

lemma masked_bits:
  "(cw::int) AND 0x80 = 0 \<longleftrightarrow> \<not> bit cw 7"
  "cw AND 0x87 = 0 \<longleftrightarrow> \<not> bit cw 7 \<and> \<not> bit cw 2 \<and> \<not> bit cw 1 \<and> \<not> bit cw 0"
  "cw AND 0x87 = 6 \<longleftrightarrow> \<not> bit cw 7 \<and> bit cw 2 \<and> bit cw 1 \<and> \<not> bit cw 0"
  "cw AND 0x8F = 7 \<longleftrightarrow> \<not> bit cw 7 \<and> \<not> bit cw 3 \<and> bit cw 2 \<and> bit cw 1 \<and> bit cw 0"
  "cw AND 0x8F = 0xF \<longleftrightarrow> \<not> bit cw 7 \<and> bit cw 3 \<and> bit cw 2 \<and> bit cw 1 \<and> bit cw 0"
  unfolding and_command_bits(2) unfolding and_command_bits
  by (cases "bit cw 7"; cases "bit cw 3"; cases "bit cw 2"; cases "bit cw 1"; cases "bit cw 0"; simp)+

lemma sm_process_bits:
  "sm_process s cw =
     (if bit cw 7 then (if s = FAULT then SWITCH_ON_DISABLED else s)
      else if \<not> bit cw 2 \<and> \<not> bit cw 1 \<and> \<not> bit cw 0 then SWITCH_ON_DISABLED
      else if \<not> (bit cw 2 \<and> bit cw 1) then s
      else if \<not> bit cw 0 then (if s \<in> {SWITCH_ON_DISABLED, SWITCHED_ON, OPERATION_ENABLED} then READY_TO_SWITCH_ON else s)
      else if \<not> bit cw 3 then (if s \<in> {READY_TO_SWITCH_ON, OPERATION_ENABLED} then SWITCHED_ON else s)
      else if s = SWITCHED_ON then OPERATION_ENABLED else s)"
  unfolding sm_process_def masked_bits
  by (cases s; cases "bit cw 7"; cases "bit cw 2"; cases "bit cw 1"; cases "bit cw 0"; simp)

definition standard_move :: "CiA402State \<Rightarrow> int \<Rightarrow> int \<Rightarrow> CiA402State \<Rightarrow> bool" where
  "standard_move s previous cw t \<longleftrightarrow> (\<exists>c. standard_command previous cw c \<and> standard_step s c t)"

lemma standard_move_from:
  "standard_move SWITCH_ON_DISABLED p cw t \<longleftrightarrow> standard_command p cw Std_Shutdown \<and> t = READY_TO_SWITCH_ON"
  "standard_move READY_TO_SWITCH_ON p cw t \<longleftrightarrow> standard_command p cw Std_Switch_On \<and> t = SWITCHED_ON \<or>
     (standard_command p cw Std_Disable_Voltage \<or> standard_command p cw Std_Quick_Stop) \<and> t = SWITCH_ON_DISABLED"
  "standard_move SWITCHED_ON p cw t \<longleftrightarrow> standard_command p cw Std_Enable_Operation \<and> t = OPERATION_ENABLED \<or>
     standard_command p cw Std_Shutdown \<and> t = READY_TO_SWITCH_ON \<or>
     (standard_command p cw Std_Disable_Voltage \<or> standard_command p cw Std_Quick_Stop) \<and> t = SWITCH_ON_DISABLED"
  "standard_move OPERATION_ENABLED p cw t \<longleftrightarrow> standard_command p cw Std_Switch_On \<and> t = SWITCHED_ON \<or>
     standard_command p cw Std_Shutdown \<and> t = READY_TO_SWITCH_ON \<or>
     standard_command p cw Std_Disable_Voltage \<and> t = SWITCH_ON_DISABLED"
  "standard_move FAULT p cw t \<longleftrightarrow> standard_command p cw Std_Fault_Reset \<and> t = SWITCH_ON_DISABLED"
  by (auto simp: standard_move_def)

text \<open>
  C27. Compared with the device control commands and transitions of CiA 402, stated bit by bit:
  the machine makes a move that is no transition of the standard exactly in the state FAULT, when
  the reset bit is held from the previous word or on the disable voltage word with bits 0, 1, 2
  and 7 clear; and where the standard has a transition that the machine does not take, the machine
  stays where it is and the word is a quick stop, or a disable voltage word with bit 0 or bit 2
  set.
\<close>

theorem sm_process_standard:
  "(sm_process s cw \<noteq> s \<and> \<not> standard_move s previous cw (sm_process s cw) \<longleftrightarrow>
      s = FAULT \<and> (bit previous 7 \<and> bit cw 7 \<or> standard_command previous cw Std_Disable_Voltage \<and> \<not> bit cw 0 \<and> \<not> bit cw 2)) \<and>
   (standard_move s previous cw t \<and> sm_process s cw \<noteq> t \<longrightarrow>
      sm_process s cw = s \<and>
      (standard_command previous cw Std_Quick_Stop \<or> standard_command previous cw Std_Disable_Voltage \<and> (bit cw 0 \<or> bit cw 2)))"
  unfolding sm_process_bits
  by (cases s; cases "bit cw 7"; cases "bit cw 3"; cases "bit cw 2"; cases "bit cw 1"; cases "bit cw 0";
      simp add: standard_move_from standard_command_def; blast)

text \<open>The only way into operation enabled is the enable command (bits 0 to 3 set, bit 7 clear) in the state switched on.\<close>

lemma sm_enable_only_from_switched_on:
  "sm_process s cw = OPERATION_ENABLED \<Longrightarrow> s \<noteq> OPERATION_ENABLED \<Longrightarrow>
   s = SWITCHED_ON \<and> cw AND 0x8F = 0xF"
  by (auto simp: sm_process_command command_of_iff split: command.splits if_splits)

lemma sm_run_snoc_cases:
  "sm_run sm_init cws = s \<Longrightarrow> s \<noteq> SWITCH_ON_DISABLED \<Longrightarrow> cws \<noteq> []"
  by (auto simp: sm_init_def)

text \<open>The power ladder: which words must have been seen, in which order, for a state to be reached.\<close>

definition seen_shutdown :: "int list \<Rightarrow> bool" where
  "seen_shutdown cws \<longleftrightarrow> (\<exists>a x d. cws = a @ x # d \<and> command_of x = Shutdown)"

definition seen_switch_on :: "int list \<Rightarrow> bool" where
  "seen_switch_on cws \<longleftrightarrow> (\<exists>a y d. cws = a @ y # d \<and> command_of y = SwitchOn \<and> seen_shutdown a)"

definition seen_enable :: "int list \<Rightarrow> bool" where
  "seen_enable cws \<longleftrightarrow> (\<exists>a z d. cws = a @ z # d \<and> command_of z = EnableOperation \<and> seen_switch_on a)"

lemma seen_append:
  "seen_shutdown a \<Longrightarrow> seen_shutdown (a @ b)"
  "seen_switch_on a \<Longrightarrow> seen_switch_on (a @ b)"
  "seen_enable a \<Longrightarrow> seen_enable (a @ b)"
  unfolding seen_shutdown_def seen_switch_on_def seen_enable_def
  by (metis append.assoc append_Cons)+

lemma seen_last:
  "command_of x = Shutdown \<Longrightarrow> seen_shutdown (cws @ [x])"
  "command_of x = SwitchOn \<Longrightarrow> seen_shutdown cws \<Longrightarrow> seen_switch_on (cws @ [x])"
  "command_of x = EnableOperation \<Longrightarrow> seen_switch_on cws \<Longrightarrow> seen_enable (cws @ [x])"
  unfolding seen_shutdown_def [of "cws @ [x]"] seen_switch_on_def [of "cws @ [x]"] seen_enable_def [of "cws @ [x]"]
  by blast+

lemma seen_switch_on_shutdown: "seen_switch_on cws \<Longrightarrow> seen_shutdown cws"
  using seen_append(1) by (auto simp: seen_switch_on_def)

lemma seen_enable_switch_on: "seen_enable cws \<Longrightarrow> seen_switch_on cws"
  using seen_append(2) by (auto simp: seen_enable_def)

text \<open>
  C28. From the initial state, whatever control words arrive, the machine leaves switch-on
  disabled only after a shutdown command, is switched on only after a later switch-on command, is
  enabled only after a later enable command, and never reaches the fault state.
\<close>

theorem sm_run_ladder:
  "(sm_run sm_init cws \<noteq> SWITCH_ON_DISABLED \<longrightarrow> seen_shutdown cws) \<and>
   (sm_run sm_init cws \<in> {SWITCHED_ON, OPERATION_ENABLED} \<longrightarrow> seen_switch_on cws) \<and>
   (sm_run sm_init cws = OPERATION_ENABLED \<longrightarrow> seen_enable cws) \<and>
   sm_run sm_init cws \<noteq> FAULT"
proof (induction cws rule: rev_induct)
  case Nil
  then show ?case by (simp add: sm_init_def)
next
  case (snoc x cws)
  then show ?case
    using seen_append [of cws "[x]"] seen_last [of x cws] seen_switch_on_shutdown [of cws] seen_enable_switch_on [of cws]
    by (auto simp: sm_process_command split: command.splits if_splits)
qed

end
