(* ===== verification/Servo.thy ===== *)
theory Servo
  imports Profile StateMachine
begin

unbundle bit_operations_syntax

text \<open>
  The F-KR CMMT servo (behaviour_model/f_kr_cmmt/servo_model.py): one record for the
  object, one definition per method, in the order of the file. The object dictionary is a
  field of the record. The position is a Python number: a float, or the integer target
  when a profile motion ends exactly on it.
\<close>

section \<open>The object\<close>

record servo =
  cycle_time :: pyfloat
  device_profile :: DeviceProfile
  sv_od :: VirtualOdModel
  sm :: CiA402State
  actual_position :: odval
  actual_velocity :: pyfloat
  kp :: pyfloat
  target_reached :: bool
  window_counter :: int
  previous_controlword :: odval
  pp_active :: bool
  pp_target_position :: odval
  pp_setpoint_ack :: bool
  halt_active :: bool
  homing_active :: bool
  homing_counter :: int
  homing_referenced :: bool
  homing_error :: bool
  software_limit_warning :: bool
  position_target_rejected :: bool
  last_mode_command :: int
  last_target_position_command :: odval
  last_device_reset_command :: int
  last_parameter_save_command :: int

type_synonym 'a servo_m = "(servo, 'a) pym"

definition od_op :: "(VirtualOdModel, 'a) pym \<Rightarrow> 'a servo_m" where
  "od_op m = on_part sv_od (\<lambda>od s. s\<lparr>sv_od := od\<rparr>) m"

definition rd :: "int \<Rightarrow> int \<Rightarrow> odval servo_m" where
  "rd index subindex = od_op (od_read index subindex)"

definition wr :: "int \<Rightarrow> odval \<Rightarrow> int \<Rightarrow> unit servo_m" where
  "wr index v subindex = od_op (od_write index v subindex)"

definition rd_role :: "string \<Rightarrow> odval servo_m" where
  "rd_role role = od_op (read_role role)"

definition wr_role :: "string \<Rightarrow> odval \<Rightarrow> unit servo_m" where
  "wr_role role v = od_op (write_role role v)"

text \<open>\<open>int(self.od.read_role(...))\<close>, \<open>float(self.od.read(...))\<close> and \<open>value & (1 << k)\<close>.\<close>

definition rd_role_int :: "string \<Rightarrow> int servo_m" where
  "rd_role_int role = bnd (rd_role role) (\<lambda>v. lift (py_int v))"

definition rd_float :: "int \<Rightarrow> int \<Rightarrow> pyfloat servo_m" where
  "rd_float index subindex = bnd (rd index subindex) (\<lambda>v. lift (py_float v))"

fun py_bit :: "odval \<Rightarrow> nat \<Rightarrow> bool res" where
  "py_bit (VInt n) k = Inr (bit n k)"
| "py_bit _ k = Inl TypeError"

definition servo_init :: "pyfloat \<Rightarrow> DeviceProfile option \<Rightarrow> servo res" where
  "servo_init ct prof =
     (case prof of
        None \<Rightarrow> Inl ValueError
      | Some p \<Rightarrow>
          ebind (ConfiguredObjectDictionary p) (\<lambda>od.
          ebind (ebind (fst (read_role ''mode_of_operation'' od)) py_int) (\<lambda>mode.
          ebind (fst (read_role ''target_position'' od)) (\<lambda>target.
          ebind (ebind (fst (read_role ''device_reset_command'' od)) py_int) (\<lambda>drc.
          ebind (ebind (fst (read_role ''parameter_save_command'' od)) py_int) (\<lambda>psc.
          Inr \<lparr>cycle_time = ct, device_profile = p, sv_od = od, sm = sm_init,
               actual_position = VFloat (Fin 0), actual_velocity = Fin 0, kp = Fin 5,
               target_reached = False, window_counter = 0, previous_controlword = VInt 0,
               pp_active = False, pp_target_position = VFloat (Fin 0), pp_setpoint_ack = False,
               halt_active = False, homing_active = False, homing_counter = 0,
               homing_referenced = False, homing_error = False, software_limit_warning = False,
               position_target_rejected = False, last_mode_command = mode,
               last_target_position_command = target, last_device_reset_command = drc,
               last_parameter_save_command = psc\<rparr>))))))"

section \<open>Unit conversions\<close>

definition scale_from_exponent :: "odval \<Rightarrow> pyfloat res" where
  "scale_from_exponent v = ebind (py_int v) (\<lambda>exponent.
     if exponent > 0 then fpow10 (- exponent) else fpow10 exponent)"

definition unit_scale :: "int \<Rightarrow> pyfloat servo_m" where
  "unit_scale subindex =
     catch (bnd (rd 0x2194 subindex) (\<lambda>v. lift (scale_from_exponent v))) (\<lambda>_. ret (Fin 1))"

definition position_scale :: "pyfloat servo_m" where
  "position_scale = bnd (unit_scale 1) (\<lambda>s. ret (fmax s (flit (1 / 10 ^ 12))))"

definition velocity_scale :: "pyfloat servo_m" where
  "velocity_scale = bnd (unit_scale 2) (\<lambda>s. ret (fmax s (flit (1 / 10 ^ 12))))"

definition acceleration_scale :: "pyfloat servo_m" where
  "acceleration_scale = bnd (unit_scale 3) (\<lambda>s. ret (fmax s (flit (1 / 10 ^ 12))))"

definition velocity_to_position_rate :: "pyfloat \<Rightarrow> pyfloat servo_m" where
  "velocity_to_position_rate velocity =
     bnd velocity_scale (\<lambda>vs. bnd position_scale (\<lambda>ps. lift (fdiv (fmul velocity vs) ps)))"

definition position_rate_to_velocity :: "odval \<Rightarrow> pyfloat servo_m" where
  "position_rate_to_velocity position_rate =
     bnd (lift (py_float position_rate)) (\<lambda>r.
     bnd position_scale (\<lambda>ps. bnd velocity_scale (\<lambda>vs. lift (fdiv (fmul r ps) vs))))"

definition acceleration_to_position_rate :: "pyfloat \<Rightarrow> pyfloat servo_m" where
  "acceleration_to_position_rate acceleration =
     bnd acceleration_scale (\<lambda>s. bnd position_scale (\<lambda>ps. lift (fdiv (fmul acceleration s) ps)))"

definition acceleration_to_velocity_delta :: "odval \<Rightarrow> pyfloat \<Rightarrow> pyfloat servo_m" where
  "acceleration_to_velocity_delta acceleration dt =
     bnd (lift (py_float acceleration)) (\<lambda>a.
     bnd acceleration_scale (\<lambda>s. bnd velocity_scale (\<lambda>vs.
     bnd (lift (fdiv (fmul a s) vs)) (\<lambda>q. ret (fmul q dt)))))"

definition move_towards :: "pyfloat \<Rightarrow> pyfloat \<Rightarrow> pyfloat \<Rightarrow> pyfloat" where
  "move_towards current target max_delta =
     (if fle max_delta (Fin 0) then current
      else let delta = fsub target current in
        if fle (fabs delta) max_delta then target
        else fadd current (fmul max_delta (if flt (Fin 0) delta then Fin 1 else Fin (- 1))))"

section \<open>Software position limits\<close>

definition software_position_limits :: "(pyfloat \<times> pyfloat) servo_m" where
  "software_position_limits =
     bnd (rd_float 0x607D 1) (\<lambda>negative_limit.
     bnd (rd_float 0x607D 2) (\<lambda>positive_limit.
     if flt positive_limit negative_limit then ret (positive_limit, negative_limit)
     else ret (negative_limit, positive_limit)))"

definition position_target_is_within_software_limits :: "odval \<Rightarrow> bool servo_m" where
  "position_target_is_within_software_limits position =
     bnd software_position_limits (\<lambda>(negative_limit, positive_limit).
     bnd (lift (py_float position)) (\<lambda>p. ret (fle negative_limit p \<and> fle p positive_limit)))"

definition actual_position_exceeds_software_limits :: "bool servo_m" where
  "actual_position_exceeds_software_limits =
     bnd software_position_limits (\<lambda>(negative_limit, positive_limit).
     bnd (gets actual_position) (\<lambda>pos.
     bnd (lift (py_lt pos (VFloat negative_limit))) (\<lambda>below.
     if below then ret True else lift (py_lt (VFloat positive_limit) pos))))"

definition software_limit_is_active :: "bool servo_m" where
  "software_limit_is_active =
     bnd (gets software_limit_warning) (\<lambda>w.
     if w then ret True else actual_position_exceeds_software_limits)"

section \<open>Commands from the dictionary\<close>

definition stop_at_current_position :: "unit servo_m" where
  "stop_at_current_position =
     thn (modify (\<lambda>s. s\<lparr>actual_velocity := Fin 0\<rparr>))
    (thn (modify (\<lambda>s. s\<lparr>pp_active := False\<rparr>))
    (thn (modify (\<lambda>s. s\<lparr>pp_target_position := actual_position s\<rparr>))
    (bnd (gets actual_position) (\<lambda>pos.
     thn (wr 0x607A pos 0)
    (thn (modify (\<lambda>s. s\<lparr>last_target_position_command := pos\<rparr>))
    (thn (wr 0x6064 pos 0)
    (bnd (gets actual_velocity) (\<lambda>vel.
     thn (wr 0x606C (VFloat vel) 0)
    (thn (modify (\<lambda>s. s\<lparr>window_counter := 0\<rparr>))
         (modify (\<lambda>s. s\<lparr>target_reached := True\<rparr>)))))))))))"

definition position_command_requires_reference :: "bool servo_m" where
  "position_command_requires_reference =
     bnd (rd 0x6060 0) (\<lambda>v. bnd (lift (py_int v)) (\<lambda>mode. ret (mode \<in> {1, 8})))"

definition set_mode :: "int \<Rightarrow> int option \<Rightarrow> unit servo_m" where
  "set_mode next_mode previous_mode =
     bnd (case previous_mode of
            None \<Rightarrow> bnd (rd 0x6060 0) (\<lambda>v. lift (py_int v))
          | Some m \<Rightarrow> ret m) (\<lambda>current_mode.
     thn (whenm (next_mode \<noteq> current_mode)
           (thn stop_at_current_position
                (whenm (next_mode \<noteq> 6)
                  (thn (modify (\<lambda>s. s\<lparr>homing_active := False\<rparr>))
                       (modify (\<lambda>s. s\<lparr>homing_error := False\<rparr>))))))
    (thn (wr 0x6060 (VInt next_mode) 0)
    (thn (wr 0x6061 (VInt next_mode) 0)
         (modify (\<lambda>s. s\<lparr>last_mode_command := next_mode\<rparr>)))))"

definition set_target_position :: "odval \<Rightarrow> odval option \<Rightarrow> unit servo_m" where
  "set_target_position position previous_target =
     bnd position_command_requires_reference (\<lambda>requires.
     bnd (gets homing_referenced) (\<lambda>referenced.
     if requires \<and> \<not> referenced then
       (case previous_target of
          None \<Rightarrow> ret ()
        | Some previous \<Rightarrow>
            thn (wr 0x607A previous 0)
                (modify (\<lambda>s. s\<lparr>last_target_position_command := previous\<rparr>)))
     else
       bnd (position_target_is_within_software_limits position) (\<lambda>ok.
       if \<not> ok then
         thn (modify (\<lambda>s. s\<lparr>software_limit_warning := True\<rparr>))
        (thn (modify (\<lambda>s. s\<lparr>position_target_rejected := True\<rparr>))
        (thn stop_at_current_position
             (modify (\<lambda>s. s\<lparr>target_reached := False\<rparr>))))
       else
         thn (modify (\<lambda>s. s\<lparr>position_target_rejected := False\<rparr>))
        (bnd actual_position_exceeds_software_limits (\<lambda>exceeds.
         thn (whenm (\<not> exceeds) (modify (\<lambda>s. s\<lparr>software_limit_warning := False\<rparr>)))
        (bnd (case previous_target of None \<Rightarrow> rd 0x607A 0 | Some previous \<Rightarrow> ret previous) (\<lambda>current_target.
         thn (whenm (\<not> py_eq position current_target)
               (modify (\<lambda>s. s\<lparr>target_reached := False, window_counter := 0\<rparr>)))
        (thn (wr 0x607A position 0)
             (modify (\<lambda>s. s\<lparr>last_target_position_command := position\<rparr>))))))))))"

definition apply_device_reset_response :: "unit servo_m" where
  "apply_device_reset_response =
     bnd (rd_role ''actual_position'') (\<lambda>current_position.
     bnd (gets device_profile) (\<lambda>p.
     thn (od_op (reset_non_pdo_configuration p))
    (thn (od_op reset_pdo_values)
    (thn (wr_role ''target_position'' current_position)
    (thn (wr_role ''actual_position'' current_position)
    (thn (wr_role ''statusword'' (VInt 0x0027))
    (bnd (rd_role ''mode_of_operation'') (\<lambda>mode.
     thn (wr_role ''mode_of_operation_display'' mode)
    (bnd (rd_role_int ''mode_of_operation'') (\<lambda>m.
     thn (modify (\<lambda>s. s\<lparr>last_mode_command := m\<rparr>))
    (bnd (rd_role ''target_position'') (\<lambda>t.
     modify (\<lambda>s. s\<lparr>last_target_position_command := t\<rparr>)))))))))))))"

definition apply_od_commands :: "unit servo_m" where
  "apply_od_commands =
     bnd (rd_role_int ''device_reset_command'') (\<lambda>device_reset_command.
     bnd (gets last_device_reset_command) (\<lambda>last_reset.
     thn (whenm (device_reset_command \<noteq> last_reset \<and> device_reset_command = 1)
           apply_device_reset_response)
    (thn (modify (\<lambda>s. s\<lparr>last_device_reset_command := device_reset_command\<rparr>))
    (bnd (rd_role_int ''parameter_save_command'') (\<lambda>parameter_save_command.
     bnd (gets last_parameter_save_command) (\<lambda>last_save.
     thn (whenm (parameter_save_command \<noteq> last_save \<and> parameter_save_command = 1)
           (thn (wr_role ''parameter_save_status'' (VInt 0))
           (thn (wr_role ''parameter_save_return_code'' (VInt 0))
                (wr_role ''parameter_save_return_value'' (VInt 1)))))
    (thn (modify (\<lambda>s. s\<lparr>last_parameter_save_command := parameter_save_command\<rparr>))
    (bnd (rd_role_int ''mode_of_operation'') (\<lambda>requested_mode.
     bnd (rd_role ''target_position'') (\<lambda>requested_target.
     bnd (gets last_mode_command) (\<lambda>last_mode.
     thn (whenm (requested_mode \<noteq> last_mode) (set_mode requested_mode (Some last_mode)))
    (bnd (gets last_target_position_command) (\<lambda>last_target.
     whenm (\<not> py_eq requested_target last_target)
       (set_target_position requested_target (Some last_target)))))))))))))))"

section \<open>Accessors\<close>

definition get_statusword :: "odval servo_m" where
  "get_statusword = rd 0x6041 0"

definition set_software_position_limits :: "odval \<Rightarrow> odval \<Rightarrow> unit servo_m" where
  "set_software_position_limits negative_limit positive_limit =
     thn (wr 0x607D negative_limit 1) (wr 0x607D positive_limit 2)"

definition get_software_position_limits :: "(odval \<times> odval) servo_m" where
  "get_software_position_limits =
     bnd (rd 0x607D 1) (\<lambda>n. bnd (rd 0x607D 2) (\<lambda>p. ret (n, p)))"

definition set_position_loop_gain :: "odval \<Rightarrow> unit servo_m" where
  "set_position_loop_gain gain = bnd (lift (py_float gain)) (\<lambda>f. modify (\<lambda>s. s\<lparr>kp := f\<rparr>))"

section \<open>Target reached\<close>

definition is_in_position :: "bool servo_m" where
  "is_in_position =
     bnd (rd 0x607A 0) (\<lambda>target.
     bnd (rd 0x6064 0) (\<lambda>actual.
     bnd (rd 0x6067 0) (\<lambda>window.
     lift (ebind (py_sub target actual) (\<lambda>d. ebind (py_abs d) (\<lambda>a. py_le a window))))))"

definition update_target_reached :: "unit servo_m" where
  "update_target_reached =
     bnd is_in_position (\<lambda>inside.
     thn (if inside then modify (\<lambda>s. s\<lparr>window_counter := window_counter s + 1\<rparr>)
          else modify (\<lambda>s. s\<lparr>window_counter := 0, target_reached := False\<rparr>))
    (bnd (rd_float 0x6068 0) (\<lambda>window_time_ms.
     bnd (gets cycle_time) (\<lambda>ct.
     bnd (lift (ebind (fdiv window_time_ms (fmul ct (Fin 1000))) int_of_float)) (\<lambda>n.
     modify (\<lambda>s. if window_counter s \<ge> max 1 n then s\<lparr>target_reached := True\<rparr> else s))))))"

section \<open>Motion\<close>

definition write_actual_feedback :: "unit servo_m" where
  "write_actual_feedback =
     bnd (gets actual_position) (\<lambda>pos.
     thn (wr 0x6064 pos 0)
    (bnd (gets actual_velocity) (\<lambda>vel. wr 0x606C (VFloat vel) 0)))"

text \<open>\<open>self.actual_position += rate * self.cycle_time\<close>\<close>

definition advance_position :: "unit servo_m" where
  "advance_position =
     bnd (gets actual_velocity) (\<lambda>vel.
     bnd (velocity_to_position_rate vel) (\<lambda>rate.
     bnd (gets cycle_time) (\<lambda>ct.
     bnd (gets actual_position) (\<lambda>pos.
     bnd (lift (py_add pos (VFloat (fmul rate ct)))) (\<lambda>new.
     modify (\<lambda>s. s\<lparr>actual_position := new\<rparr>))))))"

definition decelerate_to_stop :: "unit servo_m" where
  "decelerate_to_stop =
     bnd (rd_float 0x6084 0) (\<lambda>d.
     bnd (gets cycle_time) (\<lambda>ct.
     bnd (acceleration_to_velocity_delta (VFloat (fabs d)) ct) (\<lambda>max_delta.
     thn (modify (\<lambda>s. s\<lparr>actual_velocity := move_towards (actual_velocity s) (Fin 0) max_delta\<rparr>))
         advance_position)))"

definition is_moving :: "servo \<Rightarrow> bool" where
  "is_moving s \<longleftrightarrow>
     flt (flit (1 / 10 ^ 9)) (fabs (actual_velocity s)) \<or> pp_active s \<or> homing_active s"

text \<open>The rising edge of bit 4: \<open>bool(cw & (1 << 4)) and not bool(self.previous_controlword & (1 << 4))\<close>.\<close>

definition rising_edge4 :: "odval \<Rightarrow> bool servo_m" where
  "rising_edge4 controlword =
     bnd (lift (py_bit controlword 4)) (\<lambda>b.
     if b then bnd (gets previous_controlword) (\<lambda>p. bnd (lift (py_bit p 4)) (\<lambda>q. ret (\<not> q)))
     else ret False)"

definition process_homing :: "unit servo_m" where
  "process_homing =
     bnd (gets sm) (\<lambda>st.
     if sm_get_statusword st \<noteq> 0x0027 then ret ()
     else
     bnd (rd 0x6040 0) (\<lambda>controlword.
     bnd (rising_edge4 controlword) (\<lambda>start_homing.
     thn (whenm start_homing
           (thn (modify (\<lambda>s. s\<lparr>homing_active := True\<rparr>))
           (bnd (gets cycle_time) (\<lambda>ct.
            bnd (lift (ebind (fdiv (flit (1 / 10)) ct) int_of_float)) (\<lambda>n.
            thn (modify (\<lambda>s. s\<lparr>homing_counter := max 1 n\<rparr>))
           (thn (modify (\<lambda>s. s\<lparr>homing_referenced := False, homing_error := False, actual_velocity := Fin 0\<rparr>))
           (thn write_actual_feedback
                (modify (\<lambda>s. s\<lparr>target_reached := False\<rparr>)))))))))
    (bnd (gets homing_active) (\<lambda>active.
     if \<not> active then ret ()
     else
     thn (modify (\<lambda>s. s\<lparr>homing_counter := homing_counter s - 1\<rparr>))
    (bnd (gets homing_counter) (\<lambda>counter.
     if counter > 0 then ret ()
     else
     thn (modify (\<lambda>s. s\<lparr>actual_position := VFloat (Fin 0), actual_velocity := Fin 0\<rparr>))
    (thn (wr 0x607A (VFloat (Fin 0)) 0)
    (thn write_actual_feedback
         (modify (\<lambda>s. s\<lparr>target_reached := True, homing_active := False, homing_referenced := True\<rparr>)))))))))))"

text \<open>The velocity limit of PP and CSP towards a target.\<close>

definition max_motion_velocity :: "odval \<Rightarrow> pyfloat servo_m" where
  "max_motion_velocity target =
     bnd (rd_float 0x6081 0) (\<lambda>pv. let profile_vel = fabs pv in
     bnd (rd_float 0x607F 0) (\<lambda>pl. let positive_limit = fabs pl in
     bnd (rd_float 0x2183 0x0C) (\<lambda>nl. let negative_limit = fabs (fmul nl (Fin 1000)) in
     bnd (gets actual_position) (\<lambda>pos.
     bnd (lift (py_lt target pos)) (\<lambda>backwards.
     let max_profile_vel = (if backwards \<and> flt (Fin 0) negative_limit then negative_limit else positive_limit) in
     ret (if flt (Fin 0) max_profile_vel then fmin profile_vel max_profile_vel else profile_vel))))))"

definition pp_halt :: "unit servo_m" where
  "pp_halt =
     thn (modify (\<lambda>s. s\<lparr>pp_active := False, pp_setpoint_ack := False\<rparr>))
    (thn decelerate_to_stop
    (thn write_actual_feedback
         (modify (\<lambda>s. s\<lparr>target_reached := fle (fabs (actual_velocity s)) (flit (1 / 10 ^ 9))\<rparr>))))"

definition pp_unreferenced :: "unit servo_m" where
  "pp_unreferenced =
     thn (modify (\<lambda>s. s\<lparr>pp_active := False, pp_setpoint_ack := False, target_reached := False\<rparr>))
    (thn decelerate_to_stop write_actual_feedback)"

definition pp_rejected :: "unit servo_m" where
  "pp_rejected =
     thn (modify (\<lambda>s. s\<lparr>pp_active := False, pp_setpoint_ack := False\<rparr>))
    (thn decelerate_to_stop write_actual_feedback)"

definition pp_idle :: "unit servo_m" where
  "pp_idle = thn decelerate_to_stop (thn write_actual_feedback update_target_reached)"

text \<open>The profile motion towards \<open>pp_target_position\<close>: one cycle of the trapezoid.\<close>

definition pp_stopping_distance :: "pyfloat \<Rightarrow> pyfloat \<Rightarrow> pyfloat res" where
  "pp_stopping_distance position_velocity_toward_target decel_position_rate =
     (if flt (Fin 0) decel_position_rate
      then ebind (fsquare (fmax position_velocity_toward_target (Fin 0))) (\<lambda>sq.
             fdiv sq (fmul (Fin 2) decel_position_rate))
      else Inr (Fin 0))"

definition pp_arrive :: "odval \<Rightarrow> unit servo_m" where
  "pp_arrive target =
     modify (\<lambda>s. s\<lparr>actual_position := target, actual_velocity := Fin 0, pp_active := False\<rparr>)"

definition pp_crosses :: "odval \<Rightarrow> odval \<Rightarrow> odval \<Rightarrow> bool res" where
  "pp_crosses target pos next_position =
     ebind (py_sub target pos) (\<lambda>remaining.
     if py_eq remaining (VFloat (Fin 0)) then Inr True
     else ebind (py_sub target next_position) (\<lambda>after.
       ebind (py_mul remaining after) (\<lambda>product. py_le product (VFloat (Fin 0)))))"

definition pp_move :: "odval \<Rightarrow> pyfloat \<Rightarrow> pyfloat \<Rightarrow> pyfloat \<Rightarrow> odval \<Rightarrow> odval \<Rightarrow> unit servo_m" where
  "pp_move target max_vel accel decel error distance =
     bnd (gets cycle_time) (\<lambda>dt.
     bnd (lift (py_le (VFloat (Fin 0)) error)) (\<lambda>forward.
     let direction = (if forward then Fin 1 else Fin (- 1)) in
     bnd (gets actual_velocity) (\<lambda>vel.
     let velocity_toward_target = fmul vel direction in
     bnd (velocity_to_position_rate vel) (\<lambda>rate.
     let position_velocity_toward_target = fmul rate direction in
     bnd (acceleration_to_position_rate decel) (\<lambda>decel_position_rate.
     bnd (lift (pp_stopping_distance position_velocity_toward_target decel_position_rate)) (\<lambda>stopping_distance.
     bnd (lift (py_le distance (VFloat stopping_distance))) (\<lambda>brake.
     let (desired_velocity, velocity_limit) =
       (if flt velocity_toward_target (Fin 0) then (Fin 0, decel)
        else if brake then (Fin 0, decel)
        else (fmul direction max_vel, accel)) in
     bnd (acceleration_to_velocity_delta (VFloat velocity_limit) dt) (\<lambda>delta.
     thn (modify (\<lambda>s. s\<lparr>actual_velocity := move_towards (actual_velocity s) desired_velocity delta\<rparr>))
    (bnd (gets actual_velocity) (\<lambda>new_vel.
     bnd (velocity_to_position_rate new_vel) (\<lambda>new_rate.
     bnd (gets actual_position) (\<lambda>pos.
     bnd (lift (py_add pos (VFloat (fmul new_rate dt)))) (\<lambda>next_position.
     bnd (lift (pp_crosses target pos next_position)) (\<lambda>crosses.
     thn (if crosses then pp_arrive target
          else modify (\<lambda>s. s\<lparr>actual_position := next_position\<rparr>))
    (thn write_actual_feedback update_target_reached)))))))))))))))"

definition pp_motion :: "unit servo_m" where
  "pp_motion =
     bnd (gets pp_target_position) (\<lambda>target.
     bnd (max_motion_velocity target) (\<lambda>max_vel.
     bnd (rd_float 0x6083 0) (\<lambda>a. let accel = fabs a in
     bnd (rd_float 0x6084 0) (\<lambda>d. let decel = fabs d in
     bnd (rd_float 0x6067 0) (\<lambda>w. let window = fabs w in
     bnd (gets cycle_time) (\<lambda>dt.
     bnd (gets actual_position) (\<lambda>pos.
     bnd (lift (py_sub target pos)) (\<lambda>error.
     bnd (lift (py_abs error)) (\<lambda>distance.
     bnd (lift (py_le distance (VFloat window))) (\<lambda>near.
     bnd (if near then
            bnd (acceleration_to_velocity_delta (VFloat decel) dt) (\<lambda>delta.
            bnd (gets actual_velocity) (\<lambda>vel.
            ret (fle (fabs vel) (fmax delta (flit (1 / 10 ^ 9))))))
          else ret False) (\<lambda>arrived.
     if arrived then thn (pp_arrive target) (thn write_actual_feedback update_target_reached)
     else pp_move target max_vel accel decel error distance)))))))))))"

definition process_pp :: "unit servo_m" where
  "process_pp =
     bnd (gets sm) (\<lambda>st.
     if sm_get_statusword st \<noteq> 0x0027 then ret ()
     else
     bnd (gets halt_active) (\<lambda>halt.
     if halt then pp_halt
     else
     bnd (gets homing_referenced) (\<lambda>referenced.
     if \<not> referenced then pp_unreferenced
     else
     bnd (rd 0x6040 0) (\<lambda>controlword.
     bnd (rising_edge4 controlword) (\<lambda>new_setpoint.
     bnd (gets position_target_rejected) (\<lambda>rejected.
     if new_setpoint \<and> rejected then pp_rejected
     else
     thn (whenm new_setpoint
           (bnd (rd 0x607A 0) (\<lambda>target.
            modify (\<lambda>s. s\<lparr>pp_target_position := target, pp_active := True,
              target_reached := False, window_counter := 0\<rparr>))))
    (bnd (lift (py_bit controlword 4)) (\<lambda>b.
     thn (modify (\<lambda>s. s\<lparr>pp_setpoint_ack := b\<rparr>))
    (bnd (gets pp_active) (\<lambda>active.
     if \<not> active then pp_idle else pp_motion))))))))))"

definition track_velocity :: "pyfloat \<Rightarrow> pyfloat servo_m" where
  \<comment> \<open>the ramp shared by PV and jog: returns the velocity change allowed in this cycle\<close>
  "track_velocity target_velocity =
     bnd (rd_float 0x6083 0) (\<lambda>accel.
     bnd (rd_float 0x6084 0) (\<lambda>decel.
     bnd (gets actual_velocity) (\<lambda>vel.
     bnd (gets cycle_time) (\<lambda>ct.
     let limit = (if flt (fabs vel) (fabs target_velocity) then accel else decel) in
     bnd (acceleration_to_velocity_delta (VFloat limit) ct) (\<lambda>delta.
     thn (modify (\<lambda>s. s\<lparr>actual_velocity := move_towards (actual_velocity s) target_velocity delta\<rparr>))
    (thn advance_position
    (thn write_actual_feedback (ret delta))))))))"

definition process_pv :: "unit servo_m" where
  "process_pv =
     bnd (gets sm) (\<lambda>st.
     if sm_get_statusword st \<noteq> 0x0027 then ret ()
     else
     bnd (gets halt_active) (\<lambda>halt.
     bnd (if halt then ret (Fin 0) else rd_float 0x60FF 0) (\<lambda>target0.
     bnd (rd_float 0x607F 0) (\<lambda>pl. let positive_limit = fabs pl in
     bnd (rd_float 0x2183 0x0C) (\<lambda>nl. let negative_limit = fabs (fmul nl (Fin 1000)) in
     let target_velocity =
       (if fle (Fin 0) target0 \<and> flt (Fin 0) positive_limit then fmin target0 positive_limit
        else if flt target0 (Fin 0) \<and> flt (Fin 0) negative_limit then fmax target0 (fneg negative_limit)
        else target0) in
     bnd (track_velocity target_velocity) (\<lambda>delta.
     modify (\<lambda>s. s\<lparr>target_reached :=
       fle (fabs (fsub (actual_velocity s) target_velocity)) (fmax delta (flit (1 / 10 ^ 9)))\<rparr>)))))))"

definition jog_velocity_limit :: "odval \<Rightarrow> pyfloat servo_m" where
  "jog_velocity_limit controlword =
     bnd (rd_float 0x6081 0) (\<lambda>pv.
     bnd (rd_float 0x607F 0) (\<lambda>pl.
     bnd (rd_float 0x2183 0x0C) (\<lambda>nl.
     let configured_limits = filter (\<lambda>v. flt (Fin 0) v) [fabs pv, fabs pl, fabs (fmul nl (Fin 1000))];
         max_velocity = (case configured_limits of [] \<Rightarrow> Fin 0 | x # xs \<Rightarrow> foldl fmin x xs) in
     bnd (lift (py_bit controlword 12)) (\<lambda>fast.
     bnd (lift (py_bit controlword 11)) (\<lambda>slow.
     ret (fmul max_velocity (if fast then Fin 1 else if slow then Fin (1 / 4) else Fin (1 / 2))))))))"

definition limit_jog_velocity_at_software_limit :: "pyfloat \<Rightarrow> pyfloat servo_m" where
  "limit_jog_velocity_at_software_limit target_velocity =
     (if fle (fabs target_velocity) (flit (1 / 10 ^ 12)) then ret (Fin 0)
      else
      bnd software_position_limits (\<lambda>(negative_limit, positive_limit).
      bnd (gets actual_position) (\<lambda>pos.
      bnd (lift (py_le (VFloat positive_limit) pos)) (\<lambda>at_positive.
      bnd (lift (py_le pos (VFloat negative_limit))) (\<lambda>at_negative.
      if flt (Fin 0) target_velocity \<and> at_positive then ret (Fin 0)
      else if flt target_velocity (Fin 0) \<and> at_negative then ret (Fin 0)
      else ret target_velocity)))))"

definition process_jog :: "unit servo_m" where
  "process_jog =
     bnd (gets sm) (\<lambda>st.
     if sm_get_statusword st \<noteq> 0x0027 then ret ()
     else
     bnd (rd 0x6040 0) (\<lambda>controlword.
     bnd (lift (py_bit controlword 4)) (\<lambda>positive.
     bnd (lift (py_bit controlword 5)) (\<lambda>negative.
     bnd (gets halt_active) (\<lambda>halt.
     bnd (if positive = negative \<or> halt then ret (Fin 0)
          else bnd (jog_velocity_limit controlword) (\<lambda>l.
            ret (fmul (if positive then Fin 1 else Fin (- 1)) l))) (\<lambda>target0.
     bnd (limit_jog_velocity_at_software_limit target0) (\<lambda>target_velocity.
     bnd (track_velocity target_velocity) (\<lambda>_.
     modify (\<lambda>s. s\<lparr>target_reached := fle (fabs (actual_velocity s)) (flit (1 / 10 ^ 9))\<rparr>)))))))))"

definition csp_halt :: "unit servo_m" where
  "csp_halt =
     thn decelerate_to_stop
    (thn write_actual_feedback
         (modify (\<lambda>s. s\<lparr>target_reached := fle (fabs (actual_velocity s)) (flit (1 / 10 ^ 9))\<rparr>)))"

definition csp_motion :: "unit servo_m" where
  "csp_motion =
     bnd (rd 0x607A 0) (\<lambda>target.
     bnd (max_motion_velocity target) (\<lambda>max_vel.
     bnd (rd 0x6083 0) (\<lambda>accel.
     bnd (rd 0x6084 0) (\<lambda>decel.
     bnd (gets actual_position) (\<lambda>pos.
     bnd (lift (py_sub target pos)) (\<lambda>error.
     bnd (gets kp) (\<lambda>gain.
     bnd (lift (py_mul (VFloat gain) error)) (\<lambda>scaled.
     bnd (position_rate_to_velocity scaled) (\<lambda>desired0.
     let desired_velocity = fmax (fmin desired0 max_vel) (fneg max_vel) in
     bnd (gets actual_velocity) (\<lambda>vel.
     let delta0 = fsub desired_velocity vel;
         limit = (if flt (fabs vel) (fabs desired_velocity) then accel else decel) in
     bnd (gets cycle_time) (\<lambda>ct.
     bnd (acceleration_to_velocity_delta limit ct) (\<lambda>max_delta.
     let delta = fmax (fmin delta0 max_delta) (fneg max_delta) in
     thn (modify (\<lambda>s. s\<lparr>actual_velocity := fadd (actual_velocity s) delta\<rparr>))
    (thn advance_position
    (thn write_actual_feedback update_target_reached))))))))))))))"

definition process_csp :: "unit servo_m" where
  "process_csp =
     bnd (gets sm) (\<lambda>st.
     if sm_get_statusword st \<noteq> 0x0027 then ret ()
     else
     bnd (gets halt_active) (\<lambda>halt.
     if halt then csp_halt
     else
     bnd (gets homing_referenced) (\<lambda>referenced.
     if \<not> referenced then
       thn (modify (\<lambda>s. s\<lparr>target_reached := False\<rparr>)) (thn decelerate_to_stop write_actual_feedback)
     else csp_motion)))"

section \<open>The cycle\<close>

definition run_mode :: "odval \<Rightarrow> unit servo_m" where
  "run_mode mode =
     (if py_eq mode (VInt 1) then process_pp
      else if py_eq mode (VInt 3) then process_pv
      else if py_eq mode (VInt 8) then process_csp
      else if py_eq mode (VInt 6) then process_homing
      else if py_eq mode (VInt (- 3)) then process_jog
      else ret ())"

definition or_bit :: "bool \<Rightarrow> nat \<Rightarrow> int \<Rightarrow> int" where
  "or_bit c k w = (if c then w OR push_bit k 1 else w)"

text \<open>The status word published at the end of a cycle.\<close>

definition status_word :: "odval \<Rightarrow> bool \<Rightarrow> servo \<Rightarrow> int" where
  "status_word mode limit_active s =
     or_bit (py_eq mode (VInt 6) \<and> homing_error s) 3
    (or_bit (homing_referenced s) 15
    (or_bit limit_active 11
    (or_bit limit_active 7
    (or_bit (is_moving s) 8
    (or_bit (pp_setpoint_ack s) 12
    (or_bit (target_reached s) 10 (sm_get_statusword (sm s))))))))"

definition process_cycle :: "unit servo_m" where
  "process_cycle =
     bnd (rd 0x6040 0) (\<lambda>controlword.
     bnd (lift (py_bit controlword 8)) (\<lambda>halt.
     thn (modify (\<lambda>s. s\<lparr>halt_active := halt\<rparr>))
    (bnd (gets (\<lambda>s. sm_get_statusword (sm s) = 0x0027)) (\<lambda>was_operation_enabled.
     bnd (lift (py_int controlword)) (\<lambda>cw.
     thn (modify (\<lambda>s. s\<lparr>sm := sm_process (sm s) cw\<rparr>))
    (bnd (gets (\<lambda>s. sm_get_statusword (sm s) = 0x0027)) (\<lambda>is_operation_enabled.
     thn (whenm (was_operation_enabled \<and> \<not> is_operation_enabled) stop_at_current_position)
    (bnd (rd 0x6060 0) (\<lambda>mode.
     thn (run_mode mode)
    (bnd software_limit_is_active (\<lambda>limit_active.
     bnd (gets (status_word mode limit_active)) (\<lambda>statusword.
     thn (wr 0x6041 (VInt statusword) 0)
         (modify (\<lambda>s. s\<lparr>previous_controlword := controlword\<rparr>))))))))))))))"

definition model_update :: "unit servo_m" where
  "model_update = thn apply_od_commands process_cycle"

end
