(* ===== verification/Magnitude.thy ===== *)
theory Magnitude
  imports Codec
begin

text \<open>
  Magnitudes: a calculus of bounds for float and Python numbers. \<open>mag k a\<close> says that
  \<open>a\<close> is a finite binary64 number of magnitude at most \<open>2 ^ k\<close>; the rules compute a
  bound for each operation, so that a sequence of operations is shown free of overflow,
  infinities and NaN by adding exponents.
\<close>

definition mag :: "int \<Rightarrow> pyfloat \<Rightarrow> bool" where
  "mag k a \<longleftrightarrow> fin a \<and> wff a \<and> \<bar>fval a\<bar> \<le> 2 powi k"

named_theorems mag \<open>bounds of float operations\<close>

lemma magD: "mag k a \<Longrightarrow> fin a" "mag k a \<Longrightarrow> wff a" "mag k a \<Longrightarrow> \<bar>fval a\<bar> \<le> 2 powi k"
  by (simp_all add: mag_def)

lemma mag_mono: "mag k a \<Longrightarrow> k \<le> l \<Longrightarrow> mag l a"
  using powi_le_iff [of k l] by (auto simp: mag_def intro: order_trans)

lemma wff_powi: "-1074 \<le> k \<Longrightarrow> k \<le> 1023 \<Longrightarrow> wff (Fin (2 powi k)) \<and> wff (Fin (- (2 powi k)))"
  using isfI [of "2 powi k" 1 k 53 "-1074"] powi_less_iff [of k 1024]
  by (simp add: lim64_def isf_minus)

lemma mag_round64:
  assumes "\<bar>x\<bar> \<le> 2 powi k" "-1074 \<le> k" "k \<le> 1023"
  shows "mag k (round64 s x)"
proof -
  have w: "wff (Fin (- (2 powi k)))" "wff (Fin (2 powi k))" using assms(2,3) by (simp_all only: wff_powi)
  have "fval (Fin (- (2 powi k))) \<le> x" "x \<le> fval (Fin (2 powi k))" using assms(1) by (simp_all add: abs_le_iff)
  from round64_between [OF w this, of s] show ?thesis
    unfolding mag_def abs_le_iff by (simp add: minus_le_iff)
qed

lemma mag_fadd:
  assumes "mag j a" "mag k b" "-1074 \<le> max j k" "max j k \<le> 1022"
  shows "mag (max j k + 1) (fadd a b)"
proof -
  have "\<bar>fval a\<bar> \<le> 2 powi max j k" "\<bar>fval b\<bar> \<le> 2 powi max j k"
    using assms(1,2) mag_mono [of j a "max j k"] mag_mono [of k b "max j k"] by (auto simp: mag_def)
  then have x: "\<bar>fval a + fval b\<bar> \<le> 2 powi (max j k + 1)"
    by (simp add: power_int_add)
  obtain s where "fadd a b = round64 s (fval a + fval b)"
    using fadd_fin [OF magD(1) [OF assms(1)] magD(1) [OF assms(2)]] by blast
  then show ?thesis using mag_round64 [OF x] assms(3,4) by simp
qed

lemma mag_fneg: "mag k a \<Longrightarrow> mag k (fneg a)"
  by (simp add: mag_def)

lemma mag_fabs: "mag k a \<Longrightarrow> mag k (fabs a)"
  by (simp add: mag_def)

lemma mag_fsub: "mag j a \<Longrightarrow> mag k b \<Longrightarrow> -1074 \<le> max j k \<Longrightarrow> max j k \<le> 1022 \<Longrightarrow> mag (max j k + 1) (fsub a b)"
  by (simp add: fsub_def mag_fadd mag_fneg)

lemma mag_fmul:
  assumes "mag j a" "mag k b" "-1074 \<le> j + k" "j + k \<le> 1023"
  shows "mag (j + k) (fmul a b)"
proof -
  have "\<bar>fval a * fval b\<bar> \<le> 2 powi j * 2 powi k"
    using assms(1,2) by (auto simp: mag_def abs_mult intro: mult_mono)
  then have "\<bar>fval a * fval b\<bar> \<le> 2 powi (j + k)" by (simp add: power_int_add)
  with assms fmul_fin [of a b] show ?thesis by (auto simp: mag_def [of j] mag_def [of k] intro: mag_round64)
qed

lemma mag_fdiv:
  assumes "mag j a" "fin b" "2 powi l \<le> \<bar>fval b\<bar>" "-1074 \<le> j - l" "j - l \<le> 1023"
  shows "\<exists>c. fdiv a b = Inr c \<and> mag (j - l) c"
proof -
  have b: "0 < \<bar>fval b\<bar>" by (rule less_le_trans [OF _ assms(3)]) simp
  have "\<bar>fval a / fval b\<bar> = \<bar>fval a\<bar> / \<bar>fval b\<bar>" by (rule abs_divide)
  also have "\<dots> \<le> 2 powi j / 2 powi l"
    using assms(1,3) b by (intro frac_le) (auto simp: mag_def)
  also have "\<dots> = 2 powi (j - l)" by (simp add: power_int_diff)
  finally have x: "\<bar>fval a / fval b\<bar> \<le> 2 powi (j - l)" .
  obtain s where "fdiv a b = Inr (round64 s (fval a / fval b))"
    using fdiv_fin [OF magD(1) [OF assms(1)] assms(2)] b by auto
  then show ?thesis using mag_round64 [OF x assms(4,5)] by blast
qed

lemma mag_fmax: "mag k a \<Longrightarrow> mag k b \<Longrightarrow> mag k (fmax a b)"
  by (simp add: fmax_def)

lemma mag_fmin: "mag k a \<Longrightarrow> mag k b \<Longrightarrow> mag k (fmin a b)"
  by (simp add: fmin_def)

lemma mag_0 [simp, intro]: "mag k (Fin 0)"
  by (simp add: mag_def)

lemma mag_int:
  assumes "\<bar>of_int n :: rat\<bar> \<le> 2 powi k" "\<bar>n\<bar> < 2 ^ 53"
  shows "mag k (Fin (of_int n))"
proof -
  obtain c where "float_of_int n = Inr c" "fval c = of_int n" "wff c"
    using float_of_int_exact [OF assms(2)] by blast
  then have "wff (Fin (of_int n))"
    using wff_fval [of c] by (simp add: lim64_def)
  then show ?thesis using assms(1) by (simp add: mag_def)
qed

lemma mag_literals [simp, intro]:
  "mag 0 (Fin 1)" "mag 0 (Fin (- 1))" "mag 10 (Fin 1000)" "mag 1 (Fin 2)" "mag 3 (Fin 5)"
  using mag_int [of 1 0] mag_int [of "-1" 0] mag_int [of 1000 10] mag_int [of 2 1] mag_int [of 5 3] by simp_all

section \<open>Python numbers\<close>

definition nmag :: "int \<Rightarrow> odval \<Rightarrow> bool" where
  "nmag k v = (case v of VInt n \<Rightarrow> \<bar>of_int n :: rat\<bar> \<le> 2 powi k | VFloat f \<Rightarrow> mag k f | _ \<Rightarrow> False)"

text \<open>The rational value of a finite Python number.\<close>

fun num :: "odval \<Rightarrow> rat" where
  "num (VInt n) = of_int n"
| "num (VFloat f) = fval f"
| "num _ = 0"

lemma nmag_VFloat [simp]: "nmag k (VFloat f) = mag k f"
  by (simp add: nmag_def)

lemma nmag_mono: "nmag k v \<Longrightarrow> k \<le> l \<Longrightarrow> nmag l v"
  using powi_le_iff [of k l] by (auto simp: nmag_def intro: mag_mono order_trans split: odval.splits)

lemma nmag_num: "nmag k v \<Longrightarrow> \<bar>num v\<bar> \<le> 2 powi k"
  by (cases v) (auto simp: nmag_def mag_def)

lemma float_of_int_mag:
  "\<bar>of_int n :: rat\<bar> \<le> 2 powi k \<Longrightarrow> 0 \<le> k \<Longrightarrow> k \<le> 1023 \<Longrightarrow>
   \<exists>f. float_of_int n = Inr f \<and> mag k f \<and> (\<exists>s. f = round64 s (of_int n))"
  using mag_round64 [of "of_int n" k False] by (auto simp: float_of_int_def Let_def mag_def)

lemma py_float_mag:
  assumes "nmag k v" "0 \<le> k" "k \<le> 1023"
  shows "\<exists>f. py_float v = Inr f \<and> mag k f"
proof (cases v)
  case (VInt n)
  then show ?thesis using assms float_of_int_mag [of n k] by (auto simp: nmag_def)
qed (use assms in \<open>auto simp: nmag_def\<close>)

lemma powi_double: "(2::rat) powi (k + 1) = 2 * 2 powi k"
  by (simp add: power_int_add)

lemma py_sub_mag:
  assumes "nmag k a" "nmag k b" "0 \<le> k" "k \<le> 1022"
  shows "\<exists>c. py_sub a b = Inr c \<and> nmag (k + 1) c"
proof -
  have *: "mag (k + 1) (fsub f g)" if "mag k f" "mag k g" for f g
    using mag_fsub [OF that] assms(3,4) by simp
  show ?thesis
  proof (cases a; cases b)
    fix m n assume "a = VInt m" "b = VInt n"
    moreover from this assms have "\<bar>of_int (m - n) :: rat\<bar> \<le> 2 powi (k + 1)"
      by (auto simp: nmag_def powi_double)
    ultimately show ?thesis by (simp add: nmag_def)
  next
    fix m f assume "a = VInt m" "b = VFloat f"
    then show ?thesis using assms float_of_int_mag [of m k] by (auto simp: nmag_def intro: *)
  next
    fix m f assume "a = VFloat f" "b = VInt m"
    then show ?thesis using assms float_of_int_mag [of m k] by (auto simp: nmag_def intro: *)
  qed (use assms in \<open>auto simp: nmag_def intro: *\<close>)
qed

lemma py_mul_float_mag:
  assumes "mag j f" "nmag k b" "0 \<le> k" "k \<le> 1023" "-1074 \<le> j + k" "j + k \<le> 1023"
  shows "\<exists>c. py_mul (VFloat f) b = Inr (VFloat c) \<and> mag (j + k) c"
proof (cases b)
  case (VInt n)
  then show ?thesis using assms float_of_int_mag [of n k] by (auto simp: nmag_def intro: mag_fmul)
qed (use assms in \<open>auto simp: nmag_def intro: mag_fmul\<close>)

lemma py_abs_mag: "nmag k a \<Longrightarrow> \<exists>c. py_abs a = Inr c \<and> nmag k c"
  by (cases a) (auto simp: nmag_def mag_fabs)

text \<open>Comparisons of numbers never raise and compare the values.\<close>

lemma py_lt_num: "nmag k a \<Longrightarrow> nmag l b \<Longrightarrow> py_lt a b = Inr (num a < num b)"
  by (cases a; cases b) (auto simp: nmag_def mag_def cmp_rat_def flt_fin split: pyfloat.splits)

lemma py_eq_num: "nmag k a \<Longrightarrow> nmag l b \<Longrightarrow> py_eq a b = (num a = num b)"
  by (cases a; cases b) (auto simp: nmag_def mag_def cmp_rat_def feq_fin split: pyfloat.splits)

lemma py_le_num: "nmag k a \<Longrightarrow> nmag l b \<Longrightarrow> py_le a b = Inr (num a \<le> num b)"
  by (auto simp: py_le_def py_lt_num py_eq_num)

lemma py_cmp_ex:
  assumes "nmag k a"
  shows "\<exists>r. py_le a (VFloat f) = Inr r" "\<exists>r. py_le (VFloat f) a = Inr r"
    "\<exists>r. py_lt a (VFloat f) = Inr r" "\<exists>r. py_lt (VFloat f) a = Inr r"
  using assms by (cases a; simp add: nmag_def py_le_def)+

lemma py_mul_mag:
  assumes "nmag j a" "nmag k b" "0 \<le> j" "0 \<le> k" "j + k \<le> 1023"
  shows "\<exists>c. py_mul a b = Inr c \<and> nmag (j + k) c"
proof -
  have *: "mag (j + k) (fmul f g)" if "mag j f" "mag k g" for f g
    using mag_fmul [OF that] assms(3-5) by simp
  show ?thesis
  proof (cases a; cases b)
    fix m n assume ab: "a = VInt m" "b = VInt n"
    then have "\<bar>of_int m :: rat\<bar> * \<bar>of_int n\<bar> \<le> 2 powi j * 2 powi k"
      using assms(1,2) by (intro mult_mono) (auto simp: nmag_def)
    then show ?thesis using ab by (simp add: nmag_def power_int_add abs_mult)
  next
    fix m f assume "a = VInt m" "b = VFloat f"
    then show ?thesis using assms float_of_int_mag [of m j] by (auto simp: nmag_def intro: *)
  next
    fix m f assume "a = VFloat f" "b = VInt m"
    then show ?thesis using assms float_of_int_mag [of m k] by (auto simp: nmag_def intro: *)
  qed (use assms in \<open>auto simp: nmag_def intro: *\<close>)
qed

text \<open>A float literal, and a value clamped between a bound and its negation.\<close>

lemma mag_flit: "\<bar>x\<bar> \<le> 1 \<Longrightarrow> mag 0 (flit x)"
  unfolding flit_def by (rule mag_round64) simp_all

lemma mag_clamp: "fin a \<Longrightarrow> wff a \<Longrightarrow> mag k m \<Longrightarrow> mag k (fmax (fmin a m) (fneg m))"
  by (auto simp: mag_def fmax_def fmin_def flt_fin)

text \<open>
  Addition at the top of a range: the sum of a number of magnitude up to \<open>2 ^ k\<close> and one
  up to \<open>2 ^ (k - 58)\<close> rounds back into the range, so repeated addition never leaves it.
\<close>

definition absorbs :: "int \<Rightarrow> int \<Rightarrow> bool" where
  "absorbs k j \<longleftrightarrow> rnd64 (2 powi k + 2 powi j) = 2 powi k \<and> 0 \<le> j \<and> j \<le> k \<and> k \<le> 1000"

lemma absorbs_240 [simp]: "absorbs 240 182"
  by code_simp

lemma absorbs_140 [simp]: "absorbs 140 82"
  by code_simp

lemma fadd_absorb:
  assumes "absorbs k j" "mag k a" "mag j b"
  shows "mag k (fadd a b)"
proof -
  obtain s where s: "fadd a b = round64 s (fval a + fval b)"
    using fadd_fin [OF magD(1) [OF assms(2)] magD(1) [OF assms(3)]] by blast
  have x: "\<bar>fval a + fval b\<bar> \<le> 2 powi k + 2 powi j"
    using magD(3) [OF assms(2)] magD(3) [OF assms(3)] by linarith
  then have "rnd64 (fval a + fval b) \<le> 2 powi k" "- (2 powi k) \<le> rnd64 (fval a + fval b)"
    using rnd64_mono [of "fval a + fval b" "2 powi k + 2 powi j"]
      rnd64_mono [of "- (2 powi k + 2 powi j)" "fval a + fval b"] assms(1)
    by (auto simp only: rnd_minus abs_le_iff absorbs_def)
  moreover have "fin (fadd a b)"
    using mag_fadd [OF assms(2,3)] assms(1) by (simp add: mag_def absorbs_def)
  ultimately show ?thesis
    by (simp only: s mag_def fval_round64 wff_round64 abs_le_iff) simp
qed

lemma py_add_absorb:
  assumes "absorbs k j" "nmag k a" "mag j b"
  shows "\<exists>c. py_add a (VFloat b) = Inr (VFloat c) \<and> mag k c"
proof (cases a)
  case (VInt n)
  then obtain f where "float_of_int n = Inr f" "mag k f"
    using assms float_of_int_mag [of n k] by (auto simp: nmag_def absorbs_def)
  then show ?thesis using VInt fadd_absorb [OF assms(1) _ assms(3)] by simp
next
  case (VFloat f)
  then show ?thesis using assms(2) fadd_absorb [OF assms(1) _ assms(3)] by simp
qed (use assms(2) in \<open>simp_all add: nmag_def\<close>)


text \<open>An extended magnitude: also the infinities and NaN.\<close>

definition xmag :: "int \<Rightarrow> pyfloat \<Rightarrow> bool" where
  "xmag k a \<longleftrightarrow> mag k a \<or> \<not> fin a"

lemma mag_xmag: "mag k a \<Longrightarrow> xmag k a"
  by (simp add: xmag_def)

lemma not_fin_cases: "\<not> fin a \<Longrightarrow> a = PInf \<or> a = NInf \<or> a = NaN"
  by (cases a) auto

lemma xmag_fabs: "xmag k a \<Longrightarrow> xmag k (fabs a)"
  by (auto simp: xmag_def mag_fabs)

lemma xmag_fmul:
  assumes "xmag j a" "mag k (Fin c)" "c \<noteq> 0" "-1074 \<le> j + k" "j + k \<le> 1023"
  shows "xmag (j + k) (fmul a (Fin c))"
proof (cases "fin a")
  case True
  then show ?thesis using assms mag_fmul [of j a k "Fin c"] by (simp add: xmag_def)
next
  case False
  then show ?thesis using not_fin_cases [OF False] assms(3) by (auto simp: xmag_def fmul_def finf_def split: if_splits)
qed

text \<open>A positive extended bound limits a number from above, and leaves it when it is no number.\<close>

lemma mag_fmin_bound: "mag k a \<Longrightarrow> xmag k b \<Longrightarrow> flt (Fin 0) b \<Longrightarrow> mag k (fmin a b)"
  unfolding fmin_def xmag_def by (cases b) (auto simp: flt_def mag_def)

lemma mag_fmax_bound: "mag k a \<Longrightarrow> xmag k b \<Longrightarrow> flt (Fin 0) b \<Longrightarrow> mag k (fmax a (fneg b))"
  unfolding fmax_def xmag_def using mag_fneg [of k b] by (cases b) (auto simp: flt_def mag_def)


lemma mag_limit:
  assumes "mag k a" "xmag k b"
  shows "mag k (if flt (Fin 0) b then fmin a b else a)"
  using assms by (simp add: mag_fmin_bound)

lemma xmag_fmin: "xmag k a \<Longrightarrow> xmag k b \<Longrightarrow> xmag k (fmin a b)"
  by (simp add: fmin_def)

end
