(* ===== verification/ServoInvariant.thy ===== *)
theory ServoInvariant
  imports Servo Magnitude
begin

text \<open>
  The invariant of the servo: every dictionary entry it uses is present with a value of its
  kind, the roles it looks up are unique, and position and velocity stay within a range that
  float rounding closes under addition. The judgement \<open>keeps\<close> types the methods one by
  one; the result is that a cycle never raises and keeps the invariant.
\<close>

section \<open>Kinds of entries\<close>

definition position_keys :: "(int \<times> int) list" where
  "position_keys = [(0x607A, 0), (0x6064, 0)]"

definition quantity_keys :: "(int \<times> int) list" where
  "quantity_keys = [(0x6067, 0), (0x6068, 0), (0x607D, 1), (0x607D, 2), (0x607F, 0), (0x6081, 0),
     (0x6083, 0), (0x6084, 0), (0x60FF, 0)]"

definition word_keys :: "(int \<times> int) list" where
  "word_keys = [(0x6040, 0), (0x6041, 0), (0x6060, 0), (0x6061, 0), (0x2000, 1), (0x2005, 1),
     (0x2005, 2), (0x2005, 4), (0x2005, 5), (0x2194, 1), (0x2194, 2), (0x2194, 3),
     (0x6071, 0), (0x60B1, 0), (0x60B2, 0), (0x6077, 0)]"

definition servo_keys :: "(int \<times> int) list" where
  "servo_keys = position_keys @ quantity_keys @ word_keys @ [(0x606C, 0), (0x2183, 0x0C)]"

text \<open>The negative velocity limit is a float32, with the infinities and NaN.\<close>

definition limit_kind :: "odval \<Rightarrow> bool" where
  "limit_kind v = (case v of VFloat f \<Rightarrow> xmag 128 f | _ \<Rightarrow> nmag 128 v)"

text \<open>The values an entry may hold; other entries than the servo's hold anything.\<close>

definition fits_type :: "int \<Rightarrow> int \<Rightarrow> odval \<Rightarrow> bool" where
  "fits_type i s v =
     (if (i, s) \<in> set position_keys then nmag 240 v
      else if (i, s) = (0x606C, 0) then nmag 140 v
      else if (i, s) = (0x2183, 0x0C) then limit_kind v
      else if (i, s) \<in> set quantity_keys then (case v of VInt n \<Rightarrow> \<bar>n\<bar> \<le> 2 ^ 32 | _ \<Rightarrow> False)
      else if (i, s) \<in> set word_keys then (case v of VInt n \<Rightarrow> True | _ \<Rightarrow> False)
      else True)"

lemmas key_defs = position_keys_def quantity_keys_def word_keys_def servo_keys_def

lemma fits_position [simp]: "fits_type 0x607A 0 v = nmag 240 v" "fits_type 0x6064 0 v = nmag 240 v"
  by (simp_all add: fits_type_def key_defs)

lemma fits_velocity [simp]: "fits_type 0x606C 0 v = nmag 140 v"
  by (simp add: fits_type_def key_defs)

lemma fits_position_fun [simp]: "fits_type 0x607A 0 = nmag 240" "fits_type 0x6064 0 = nmag 240"
  by (simp_all add: fun_eq_iff)

lemma fits_limit [simp]: "fits_type 0x2183 0x0C v = limit_kind v"
  by (simp add: fits_type_def key_defs)

lemma quantity_keys_apart:
  "list_all (\<lambda>k. k \<notin> set position_keys \<and> k \<noteq> (0x606C, 0) \<and> k \<noteq> (0x2183, 0x0C)) quantity_keys"
  by code_simp

lemma word_keys_apart:
  "list_all (\<lambda>k. k \<notin> set position_keys \<and> k \<noteq> (0x606C, 0) \<and> k \<noteq> (0x2183, 0x0C) \<and>
     k \<notin> set quantity_keys) word_keys"
  by code_simp

lemma fits_quantity: "(i, s) \<in> set quantity_keys \<Longrightarrow> fits_type i s v = (\<exists>n. v = VInt n \<and> \<bar>n\<bar> \<le> 2 ^ 32)"
  using quantity_keys_apart unfolding list_all_iff fits_type_def by (cases v) auto

lemma fits_word: "(i, s) \<in> set word_keys \<Longrightarrow> fits_type i s v = (\<exists>n. v = VInt n)"
  using word_keys_apart unfolding list_all_iff fits_type_def by (cases v) auto

text \<open>The roles the servo looks up, and where they must be.\<close>

definition servo_roles :: "(string \<times> int \<times> int) list" where
  "servo_roles =
    [(''device_reset_command'', 0x2000, 1), (''parameter_save_command'', 0x2005, 1),
     (''parameter_save_status'', 0x2005, 2), (''parameter_save_return_code'', 0x2005, 4),
     (''parameter_save_return_value'', 0x2005, 5), (''mode_of_operation'', 0x6060, 0),
     (''target_position'', 0x607A, 0), (''actual_position'', 0x6064, 0),
     (''statusword'', 0x6041, 0), (''mode_of_operation_display'', 0x6061, 0)]"

definition role_at :: "VirtualOdModel \<Rightarrow> string \<Rightarrow> int \<Rightarrow> int \<Rightarrow> bool" where
  "role_at od r i s \<longleftrightarrow>
     map (\<lambda>d. (def_index d, def_subindex d)) (filter (\<lambda>d. def_role d = Some r) (definitions od)) = [(i, s)]"

lemma role_at_lookup:
  "role_at od r i s \<Longrightarrow> \<exists>d. definition_by_role r od = (Inr d, od) \<and> def_index d = i \<and> def_subindex d = s"
  by (auto simp: role_at_def definition_by_role_def)

text \<open>A dictionary the servo can work with; \<open>p\<close> is the profile a device reset applies.\<close>

definition pdo_default_fits :: "VirtualOdModel \<Rightarrow> int \<times> int \<Rightarrow> bool" where
  "pdo_default_fits od = (\<lambda>(i, s).
     case map_of (entries od) (storage_key i s) of
       None \<Rightarrow> True
     | Some e \<Rightarrow> (let d = ent_definition e in def_rxpdo d \<or> def_txpdo d \<longrightarrow> fits_type i s (def_default d)))"

definition config_fits :: "VirtualOdModel \<Rightarrow> ConfiguredValue \<Rightarrow> bool" where
  "config_fits od c \<longleftrightarrow> od_val od (cfg_index c) (cfg_subindex c) \<noteq> None \<and>
     fits_type (cfg_index c) (cfg_subindex c) (cfg_value c)"

definition value_fits :: "VirtualOdModel \<Rightarrow> int \<times> int \<Rightarrow> bool" where
  "value_fits od = (\<lambda>(i, s). case od_val od i s of None \<Rightarrow> False | Some v \<Rightarrow> fits_type i s v)"

text \<open>The type of an entry decodes to its kind: four bytes at most, or a float32 for the limit.\<close>

definition type_fits :: "int \<times> int \<Rightarrow> string \<Rightarrow> bool" where
  "type_fits k data_type \<longleftrightarrow>
     (let t = normalize_od_data_type data_type in
      \<not> is_byte_array_type t \<and> \<not> contains ''string'' t \<and>
      (case map_of DATA_TYPE_FORMATS t of
         Some (SInt sgnd n) \<Rightarrow> 0 < n \<and> n \<le> 4 \<and> k \<noteq> (0x2183, 0x0C)
       | Some SFloat32 \<Rightarrow> k = (0x2183, 0x0C)
       | _ \<Rightarrow> False))"

definition def_fits :: "VirtualOdModel \<Rightarrow> int \<times> int \<Rightarrow> bool" where
  "def_fits od = (\<lambda>(i, s).
     case map_of (entries od) (storage_key i s) of
       None \<Rightarrow> True
     | Some e \<Rightarrow> type_fits (i, s) (def_data_type (ent_definition e)))"

text \<open>A process data entry that only carries integers of at most four bytes into the servo's keys.\<close>

definition rx_fits :: "ObjectDictionaryEntry \<Rightarrow> bool" where
  "rx_fits e \<longleftrightarrow>
     (case byte_length e of
        Inl _ \<Rightarrow> False
      | Inr n \<Rightarrow> 0 \<le> n \<and> (ode_index e = 0 \<or> ode_field e = None \<or>
          (let k = (ode_index e, ode_subindex e); t = normalize_od_data_type (ode_data_type e) in
           k \<in> set servo_keys \<and> type_fits k (ode_data_type e) \<and>
           (case map_of DATA_TYPE_FORMATS t of Some f \<Rightarrow> int (calcsize f) = n | None \<Rightarrow> False))))"

definition typed :: "DeviceProfile \<Rightarrow> VirtualOdModel \<Rightarrow> bool" where
  "typed p od \<longleftrightarrow>
     list_all (value_fits od) servo_keys \<and>
     list_all (\<lambda>(r, i, s). role_at od r i s) servo_roles \<and>
     list_all (pdo_default_fits od) servo_keys \<and>
     (case prof_config p of None \<Rightarrow> True | Some cs \<Rightarrow> list_all (config_fits od) cs) \<and>
     list_all (def_fits od) servo_keys \<and>
     list_all rx_fits (prof_rx p)"

lemma typed_val:
  "typed p od \<Longrightarrow> (i, s) \<in> set servo_keys \<Longrightarrow> \<exists>v. od_val od i s = Some v \<and> fits_type i s v"
  by (auto simp: typed_def list_all_iff value_fits_def split: option.splits)

lemma typed_role: "typed p od \<Longrightarrow> (r, i, s) \<in> set servo_roles \<Longrightarrow> role_at od r i s"
  by (auto simp: typed_def list_all_iff)

text \<open>A change of values that keeps definitions and kinds keeps the dictionary typed.\<close>

definition same_shape :: "VirtualOdModel \<Rightarrow> VirtualOdModel \<Rightarrow> bool" where
  "same_shape od od' \<longleftrightarrow> definitions od' = definitions od \<and>
     (\<forall>k. map_option ent_definition (map_of (entries od') k) = map_option ent_definition (map_of (entries od) k))"

lemma same_shape_val: "same_shape od od' \<Longrightarrow> od_val od' i s = None \<longleftrightarrow> od_val od i s = None"
proof -
  assume "same_shape od od'"
  then have "map_option ent_definition (map_of (entries od') (storage_key i s)) =
    map_option ent_definition (map_of (entries od) (storage_key i s))" by (simp add: same_shape_def)
  then show ?thesis
    by (cases "map_of (entries od') (storage_key i s)"; cases "map_of (entries od) (storage_key i s)")
      (simp_all add: od_val_def)
qed

lemma same_shape_default:
  assumes "same_shape od od'"
  shows "pdo_default_fits od' k = pdo_default_fits od k"
proof (cases k)
  case (Pair i s)
  have "map_option ent_definition (map_of (entries od') (storage_key i s)) =
    map_option ent_definition (map_of (entries od) (storage_key i s))"
    using assms by (simp add: same_shape_def)
  with Pair show ?thesis
    by (cases "map_of (entries od') (storage_key i s)"; cases "map_of (entries od) (storage_key i s)")
      (simp_all add: pdo_default_fits_def)
qed

lemma same_shape_type:
  assumes "same_shape od od'"
  shows "def_fits od' k = def_fits od k"
proof (cases k)
  case (Pair i s)
  have "map_option ent_definition (map_of (entries od') (storage_key i s)) =
    map_option ent_definition (map_of (entries od) (storage_key i s))"
    using assms by (simp add: same_shape_def)
  with Pair show ?thesis
    by (cases "map_of (entries od') (storage_key i s)"; cases "map_of (entries od) (storage_key i s)")
      (simp_all add: def_fits_def)
qed

lemma same_shape_trans: "same_shape a b \<Longrightarrow> same_shape b c \<Longrightarrow> same_shape a c"
  by (simp add: same_shape_def)

lemma typed_same_shape:
  assumes "typed p od" "same_shape od od'" "list_all (value_fits od') servo_keys"
  shows "typed p od'"
proof -
  have "definitions od' = definitions od" using assms(2) by (simp add: same_shape_def)
  then have "role_at od' = role_at od" by (simp add: role_at_def fun_eq_iff)
  moreover have "pdo_default_fits od' = pdo_default_fits od"
    using same_shape_default [OF assms(2)] by (simp add: fun_eq_iff)
  moreover have "def_fits od' = def_fits od"
    using same_shape_type [OF assms(2)] by (simp add: fun_eq_iff)
  moreover have "config_fits od' = config_fits od"
    using same_shape_val [OF assms(2)] by (auto simp: config_fits_def fun_eq_iff)
  ultimately show ?thesis using assms(1,3) by (simp add: typed_def split: option.splits)
qed

lemma same_shape_set:
  "map_of (entries od) k = Some e \<Longrightarrow>
   same_shape od (od\<lparr>entries := AList.update k (e\<lparr>ent_value := v\<rparr>) (entries od)\<rparr>)"
  by (auto simp: same_shape_def definitions_def definitions_set update_conv')

lemma same_shape_put: "same_shape od (od_put i v s od)"
  by (auto simp: od_put_def od_write_run same_shape_def definitions_def definitions_set update_conv'
      split: option.splits)

lemma typed_put:
  assumes "typed p od" "fits_type i s v" "od_val od i s \<noteq> None"
  shows "typed p (od_put i v s od)"
proof (rule typed_same_shape [OF assms(1) same_shape_put])
  show "list_all (value_fits (od_put i v s od)) servo_keys"
    using assms by (auto simp: typed_def list_all_iff value_fits_def split: option.splits)
qed


section \<open>The invariant and its judgement\<close>

text \<open>The cycle times for which the bounds are computed: between \<open>2 ^ -30\<close> s and 1 s.\<close>

definition dt_ok :: "pyfloat \<Rightarrow> bool" where
  "dt_ok dt \<longleftrightarrow> fin dt \<and> wff dt \<and> 2 powi (-30) \<le> fval dt \<and> fval dt \<le> 1"

definition sv :: "servo \<Rightarrow> bool" where
  "sv s \<longleftrightarrow> dt_ok (cycle_time s) \<and> typed (device_profile s) (sv_od s) \<and>
     nmag 240 (actual_position s) \<and> mag 140 (actual_velocity s) \<and> mag 60 (kp s) \<and>
     (case previous_controlword s of VInt n \<Rightarrow> True | _ \<Rightarrow> False) \<and>
     nmag 240 (pp_target_position s) \<and> nmag 240 (last_target_position_command s)"

text \<open>\<open>keeps m P\<close>: under the invariant \<open>m\<close> raises nothing, keeps it, and returns a \<open>P\<close>.\<close>

definition keeps :: "'a servo_m \<Rightarrow> ('a \<Rightarrow> bool) \<Rightarrow> bool" where
  "keeps m P \<longleftrightarrow> (\<forall>s. sv s \<longrightarrow> run_ok m s (\<lambda>x t. sv t \<and> P x))"

abbreviation keeps_unit :: "unit servo_m \<Rightarrow> bool" where
  "keeps_unit m \<equiv> keeps m (\<lambda>_. True)"

named_theorems kp_intro \<open>rules of the judgement\<close>

lemma keepsD: "keeps m P \<Longrightarrow> sv s \<Longrightarrow> \<exists>x t. m s = (Inr x, t) \<and> sv t \<and> P x"
  by (auto simp: keeps_def run_ok_def)

lemma keepsI: "(\<And>s. sv s \<Longrightarrow> \<exists>x t. m s = (Inr x, t) \<and> sv t \<and> P x) \<Longrightarrow> keeps m P"
  by (auto simp: keeps_def run_ok_def)

lemma keeps_ret: "P x \<Longrightarrow> keeps (ret x) P"
  by (simp add: keeps_def run_ok_ret)

lemma keeps_unit_ret [kp_intro]: "keeps_unit (ret ())"
  by (simp add: keeps_ret)

lemma keeps_bnd:
  assumes "keeps m P" "\<And>x. P x \<Longrightarrow> keeps (f x) Q"
  shows "keeps (bnd m f) Q"
proof (rule keepsI)
  fix s assume "sv s"
  then obtain x t where "m s = (Inr x, t)" "sv t" "P x" using keepsD [OF assms(1)] by blast
  then show "\<exists>x t. bnd m f s = (Inr x, t) \<and> sv t \<and> Q x"
    using keepsD [OF assms(2), of x t] by (simp add: bnd_Inr)
qed

lemma keeps_thn [kp_intro]: "keeps_unit m \<Longrightarrow> keeps k Q \<Longrightarrow> keeps (thn m k) Q"
  by (simp add: thn_def keeps_bnd)

lemma keeps_lift: "r = Inr x \<Longrightarrow> P x \<Longrightarrow> keeps (lift r) P"
  by (auto intro!: keepsI simp: pym)

lemma keeps_lift_ex: "\<exists>x. r = Inr x \<and> P x \<Longrightarrow> keeps (lift r) P"
  by (auto intro!: keepsI simp: pym)

lemma keeps_gets: "(\<And>s. sv s \<Longrightarrow> P (f s)) \<Longrightarrow> keeps (gets f) P"
  by (auto intro!: keepsI simp: pym)

lemma keeps_modify [kp_intro]: "(\<And>s. sv s \<Longrightarrow> sv (f s)) \<Longrightarrow> keeps_unit (modify f)"
  by (auto intro!: keepsI simp: pym)

lemma keeps_if [kp_intro]: "(c \<Longrightarrow> keeps m P) \<Longrightarrow> (\<not> c \<Longrightarrow> keeps n P) \<Longrightarrow> keeps (if c then m else n) P"
  by simp

lemma keeps_whenm [kp_intro]: "(c \<Longrightarrow> keeps_unit m) \<Longrightarrow> keeps_unit (whenm c m)"
  by (auto simp: whenm_def intro: keeps_unit_ret)

lemma keeps_mono: "keeps m P \<Longrightarrow> (\<And>x. P x \<Longrightarrow> Q x) \<Longrightarrow> keeps m Q"
  unfolding keeps_def run_ok_def by blast

lemma keeps_bnd_pair:
  "keeps m (\<lambda>x. P (fst x) (snd x)) \<Longrightarrow> (\<And>a b. P a b \<Longrightarrow> keeps (f a b) Q) \<Longrightarrow> keeps (bnd m (\<lambda>(a, b). f a b)) Q"
  by (rule keeps_bnd [where P = "\<lambda>x. P (fst x) (snd x)"]) (auto simp: split_def)

text \<open>A field the invariant says nothing of: the result of \<open>gets\<close> is arbitrary.\<close>

lemma keeps_bnd_any: "(\<And>x. keeps (k x) Q) \<Longrightarrow> keeps (bnd (gets f) k) Q"
  by (rule keeps_bnd [where P = "\<lambda>_. True"]) (auto intro: keeps_gets)

section \<open>Access to the dictionary\<close>

lemma sv_typed: "sv s \<Longrightarrow> typed (device_profile s) (sv_od s)"
  by (simp add: sv_def)

lemma sv_od_update: "sv s \<Longrightarrow> typed (device_profile s) od \<Longrightarrow> sv (s\<lparr>sv_od := od\<rparr>)"
  by (simp add: sv_def)

lemma keeps_rd:
  assumes "(i, s) \<in> set servo_keys"
  shows "keeps (rd i s) (fits_type i s)"
proof (rule keepsI)
  fix t assume t: "sv t"
  obtain v where "od_val (sv_od t) i s = Some v" "fits_type i s v"
    using typed_val [OF sv_typed [OF t] assms] by blast
  then show "\<exists>x u. rd i s t = (Inr x, u) \<and> sv u \<and> fits_type i s x"
    using t by (simp add: rd_def od_op_def pym od_read_some)
qed

lemma keeps_wr:
  assumes "(i, s) \<in> set servo_keys" "fits_type i s v"
  shows "keeps_unit (wr i v s)"
proof (rule keepsI)
  fix t assume t: "sv t"
  then have p: "od_val (sv_od t) i s \<noteq> None"
    using typed_val [OF sv_typed [OF t] assms(1)] by auto
  then show "\<exists>x u. wr i v s t = (Inr x, u) \<and> sv u \<and> True"
    using t typed_put [OF sv_typed [OF t] assms(2) p]
    by (simp add: wr_def od_op_def pym od_write_put sv_od_update)
qed

lemma keeps_rd_role:
  assumes "(r, i, s) \<in> set servo_roles" "(i, s) \<in> set servo_keys"
  shows "keeps (rd_role r) (fits_type i s)"
proof (rule keepsI)
  fix t assume t: "sv t"
  obtain d where d: "definition_by_role r (sv_od t) = (Inr d, sv_od t)" "def_index d = i" "def_subindex d = s"
    using role_at_lookup [OF typed_role [OF sv_typed [OF t] assms(1)]] by blast
  obtain v where "od_val (sv_od t) i s = Some v" "fits_type i s v"
    using typed_val [OF sv_typed [OF t] assms(2)] by blast
  then show "\<exists>x u. rd_role r t = (Inr x, u) \<and> sv u \<and> fits_type i s x"
    using t d by (simp add: rd_role_def od_op_def read_role_def bnd_def pym od_read_some)
qed

lemma keeps_wr_role:
  assumes "(r, i, s) \<in> set servo_roles" "(i, s) \<in> set servo_keys" "fits_type i s v"
  shows "keeps_unit (wr_role r v)"
proof (rule keepsI)
  fix t assume t: "sv t"
  obtain d where d: "definition_by_role r (sv_od t) = (Inr d, sv_od t)" "def_index d = i" "def_subindex d = s"
    using role_at_lookup [OF typed_role [OF sv_typed [OF t] assms(1)]] by blast
  have p: "od_val (sv_od t) i s \<noteq> None"
    using typed_val [OF sv_typed [OF t] assms(2)] by auto
  then show "\<exists>x u. wr_role r v t = (Inr x, u) \<and> sv u \<and> True"
    using t d typed_put [OF sv_typed [OF t] assms(3) p]
    by (simp add: wr_role_def od_op_def write_role_def bnd_def pym od_write_put sv_od_update)
qed

end
