(* ===== verification/ServoTyping.thy ===== *)
theory ServoTyping
  imports ServoInvariant
begin

text \<open>
  The methods of the servo under the invariant: each raises nothing, keeps it, and returns
  a value in the stated range.
\<close>

section \<open>Fields\<close>

lemma sv_fields:
  assumes "sv s"
  shows "dt_ok (cycle_time s)" "nmag 240 (actual_position s)" "mag 140 (actual_velocity s)" "mag 60 (kp s)"
    "\<exists>n. previous_controlword s = VInt n" "nmag 240 (pp_target_position s)"
    "nmag 240 (last_target_position_command s)"
  using assms by (auto simp: sv_def split: odval.splits)

lemmas [kp_intro] =
  keeps_bnd [OF keeps_gets [of "\<lambda>x. dt_ok x" cycle_time], OF sv_fields(1)]
  keeps_bnd [OF keeps_gets [of "\<lambda>x. nmag 240 x" actual_position], OF sv_fields(2)]
  keeps_bnd [OF keeps_gets [of "\<lambda>x. mag 140 x" actual_velocity], OF sv_fields(3)]
  keeps_bnd [OF keeps_gets [of "\<lambda>x. mag 60 x" kp], OF sv_fields(4)]
  keeps_bnd [OF keeps_gets [of "\<lambda>x. \<exists>n. x = VInt n" previous_controlword], OF sv_fields(5)]
  keeps_bnd [OF keeps_gets [of "\<lambda>x. nmag 240 x" pp_target_position], OF sv_fields(6)]
  keeps_bnd [OF keeps_gets [of "\<lambda>x. nmag 240 x" last_target_position_command], OF sv_fields(7)]

lemmas [kp_intro] =
  keeps_bnd_any [of _ _ sm] keeps_bnd_any [of _ _ halt_active] keeps_bnd_any [of _ _ homing_referenced]
  keeps_bnd_any [of _ _ homing_active] keeps_bnd_any [of _ _ homing_counter]
  keeps_bnd_any [of _ _ software_limit_warning] keeps_bnd_any [of _ _ position_target_rejected]
  keeps_bnd_any [of _ _ pp_active] keeps_bnd_any [of _ _ last_mode_command]
  keeps_bnd_any [of _ _ last_device_reset_command] keeps_bnd_any [of _ _ last_parameter_save_command]

text \<open>Assignments to the fields.\<close>

lemma sv_updates [simp]:
  "sv (s\<lparr>sm := a\<rparr>) = sv s" "sv (s\<lparr>target_reached := b\<rparr>) = sv s" "sv (s\<lparr>window_counter := n\<rparr>) = sv s"
  "sv (s\<lparr>pp_active := b\<rparr>) = sv s" "sv (s\<lparr>pp_setpoint_ack := b\<rparr>) = sv s" "sv (s\<lparr>halt_active := b\<rparr>) = sv s"
  "sv (s\<lparr>homing_active := b\<rparr>) = sv s" "sv (s\<lparr>homing_counter := n\<rparr>) = sv s"
  "sv (s\<lparr>homing_referenced := b\<rparr>) = sv s" "sv (s\<lparr>homing_error := b\<rparr>) = sv s"
  "sv (s\<lparr>software_limit_warning := b\<rparr>) = sv s" "sv (s\<lparr>position_target_rejected := b\<rparr>) = sv s"
  "sv (s\<lparr>last_mode_command := n\<rparr>) = sv s" "sv (s\<lparr>last_device_reset_command := n\<rparr>) = sv s"
  "sv (s\<lparr>last_parameter_save_command := n\<rparr>) = sv s"
  by (simp_all add: sv_def)

lemma sv_assign:
  assumes "sv s"
  shows "mag 140 v \<Longrightarrow> sv (s\<lparr>actual_velocity := v\<rparr>)"
    "nmag 240 p \<Longrightarrow> sv (s\<lparr>actual_position := p\<rparr>)"
    "nmag 240 p \<Longrightarrow> sv (s\<lparr>pp_target_position := p\<rparr>)"
    "nmag 240 p \<Longrightarrow> sv (s\<lparr>last_target_position_command := p\<rparr>)"
    "sv (s\<lparr>previous_controlword := VInt n\<rparr>)"
  using assms by (simp_all add: sv_def)

section \<open>Reading and writing entries\<close>

lemma quantity_in: "k \<in> set quantity_keys \<Longrightarrow> k \<in> set servo_keys"
  by (simp add: servo_keys_def)

lemma word_in: "k \<in> set word_keys \<Longrightarrow> k \<in> set servo_keys"
  by (simp add: servo_keys_def)

lemma servo_keys_in [simp]:
  "(0x607A, 0) \<in> set servo_keys" "(0x6064, 0) \<in> set servo_keys" "(0x606C, 0) \<in> set servo_keys"
  "(0x2183, 0x0C) \<in> set servo_keys"
  by (simp_all add: key_defs)

lemma quantity_nmag: "(i, s) \<in> set quantity_keys \<Longrightarrow> fits_type i s v \<Longrightarrow> nmag 32 v"
proof -
  assume "(i, s) \<in> set quantity_keys" "fits_type i s v"
  then obtain n where n: "v = VInt n" "\<bar>n\<bar> \<le> 2 ^ 32" by (auto simp: fits_quantity)
  then have "of_int \<bar>n\<bar> \<le> (of_int (2 ^ 32) :: rat)" by (simp only: of_int_le_iff)
  with n show ?thesis by (simp add: nmag_def)
qed

lemma rd_quantity: "(i, s) \<in> set quantity_keys \<Longrightarrow> keeps (rd i s) (nmag 32)"
  by (rule keeps_mono [OF keeps_rd [OF quantity_in]]) (auto dest: quantity_nmag)

lemma rd_word: "(i, s) \<in> set word_keys \<Longrightarrow> keeps (rd i s) (\<lambda>v. \<exists>n. v = VInt n)"
  by (rule keeps_mono [OF keeps_rd [OF word_in]]) (auto simp: fits_word)

lemma rd_position: "keeps (rd 0x607A 0) (nmag 240)" "keeps (rd 0x6064 0) (nmag 240)"
  using keeps_rd [of "0x607A" 0] keeps_rd [of "0x6064" 0] by simp_all

lemma keeps_float: "nmag k v \<Longrightarrow> 0 \<le> k \<Longrightarrow> k \<le> 1023 \<Longrightarrow> keeps (lift (py_float v)) (mag k)"
  by (rule keeps_lift_ex) (rule py_float_mag)

lemma rd_float_quantity: "(i, s) \<in> set quantity_keys \<Longrightarrow> keeps (rd_float i s) (mag 32)"
  unfolding rd_float_def by (rule keeps_bnd [OF rd_quantity]) (auto intro: keeps_float)

lemma py_float_limit: "limit_kind v \<Longrightarrow> \<exists>f. py_float v = Inr f \<and> xmag 128 f"
  using py_float_mag [of 128 v] by (cases v) (auto simp: limit_kind_def intro: mag_xmag)

lemma rd_float_limit: "keeps (rd_float 0x2183 0x0C) (xmag 128)"
  unfolding rd_float_def
  by (rule keeps_bnd [OF keeps_rd]) (auto intro!: keeps_lift_ex py_float_limit)

lemma rd_quantities:
  "keeps (rd 0x6067 0) (nmag 32)" "keeps (rd 0x6083 0) (nmag 32)" "keeps (rd 0x6084 0) (nmag 32)"
  by (rule rd_quantity, simp add: quantity_keys_def)+

lemma rd_float_quantities:
  "keeps (rd_float 0x6067 0) (mag 32)" "keeps (rd_float 0x6068 0) (mag 32)" "keeps (rd_float 0x607D 1) (mag 32)"
  "keeps (rd_float 0x607D 2) (mag 32)" "keeps (rd_float 0x607F 0) (mag 32)" "keeps (rd_float 0x6081 0) (mag 32)"
  "keeps (rd_float 0x6083 0) (mag 32)" "keeps (rd_float 0x6084 0) (mag 32)" "keeps (rd_float 0x60FF 0) (mag 32)"
  by (rule rd_float_quantity, simp add: quantity_keys_def)+

lemma rd_words:
  "keeps (rd 0x6040 0) (\<lambda>v. \<exists>n. v = VInt n)" "keeps (rd 0x6060 0) (\<lambda>v. \<exists>n. v = VInt n)"
  "keeps (rd 0x2194 1) (\<lambda>v. \<exists>n. v = VInt n)" "keeps (rd 0x2194 2) (\<lambda>v. \<exists>n. v = VInt n)"
  "keeps (rd 0x2194 3) (\<lambda>v. \<exists>n. v = VInt n)"
  by (rule rd_word, simp add: word_keys_def)+

lemmas [kp_intro] = rd_quantities [THEN keeps_bnd] rd_float_quantities [THEN keeps_bnd]
  rd_words [THEN keeps_bnd] rd_position [THEN keeps_bnd] rd_float_limit [THEN keeps_bnd]

lemma wr_position [kp_intro]:
  "nmag 240 v \<Longrightarrow> keeps_unit (wr 0x607A v 0)" "nmag 240 v \<Longrightarrow> keeps_unit (wr 0x6064 v 0)"
  using keeps_wr [of "0x607A" 0 v] keeps_wr [of "0x6064" 0 v] by simp_all

lemma wr_velocity [kp_intro]: "mag 140 v \<Longrightarrow> keeps_unit (wr 0x606C (VFloat v) 0)"
  using keeps_wr [of "0x606C" 0 "VFloat v"] by simp

lemma wr_word: "(i, s) \<in> set word_keys \<Longrightarrow> keeps_unit (wr i (VInt n) s)"
  by (rule keeps_wr) (auto simp: word_in fits_word)

lemma wr_words [kp_intro]:
  "keeps_unit (wr 0x6041 (VInt n) 0)" "keeps_unit (wr 0x6060 (VInt n) 0)" "keeps_unit (wr 0x6061 (VInt n) 0)"
  by (rule wr_word, simp add: word_keys_def)+

lemma role_word:
  assumes "(r, i, s) \<in> set servo_roles" "(i, s) \<in> set word_keys"
  shows "keeps (rd_role r) (\<lambda>v. \<exists>n. v = VInt n)" "keeps_unit (wr_role r (VInt n))"
  using keeps_mono [OF keeps_rd_role [OF assms(1) word_in [OF assms(2)]]]
    keeps_wr_role [OF assms(1) word_in [OF assms(2)]] assms(2)
  by (simp_all add: fits_word)

lemma rd_role_int_word: "keeps (rd_role r) (\<lambda>v. \<exists>n. v = VInt n) \<Longrightarrow> keeps (rd_role_int r) (\<lambda>_. True)"
  unfolding rd_role_int_def by (erule keeps_bnd) (auto intro: keeps_lift)

lemma role_ints [THEN keeps_bnd, kp_intro]:
  "keeps (rd_role_int ''device_reset_command'') (\<lambda>_. True)"
  "keeps (rd_role_int ''parameter_save_command'') (\<lambda>_. True)"
  "keeps (rd_role_int ''mode_of_operation'') (\<lambda>_. True)"
  "keeps (rd_role ''mode_of_operation'') (\<lambda>v. \<exists>n. v = VInt n)"
  by (rule rd_role_int_word role_word(1), (rule role_word(1))?, simp add: servo_roles_def, simp add: word_keys_def)+

lemma role_positions [THEN keeps_bnd, kp_intro]:
  "keeps (rd_role ''target_position'') (nmag 240)" "keeps (rd_role ''actual_position'') (nmag 240)"
  using keeps_rd_role [of "''target_position''" "0x607A" 0] keeps_rd_role [of "''actual_position''" "0x6064" 0]
  by (simp_all add: servo_roles_def)

lemma wr_role_words [kp_intro]:
  "keeps_unit (wr_role ''parameter_save_status'' (VInt n))"
  "keeps_unit (wr_role ''parameter_save_return_code'' (VInt n))"
  "keeps_unit (wr_role ''parameter_save_return_value'' (VInt n))"
  "keeps_unit (wr_role ''statusword'' (VInt n))"
  "keeps_unit (wr_role ''mode_of_operation_display'' (VInt n))"
  by (rule role_word, simp add: servo_roles_def, simp add: word_keys_def)+

lemma wr_role_positions [kp_intro]:
  "nmag 240 v \<Longrightarrow> keeps_unit (wr_role ''target_position'' v)"
  "nmag 240 v \<Longrightarrow> keeps_unit (wr_role ''actual_position'' v)"
  using keeps_wr_role [of "''target_position''" "0x607A" 0 v] keeps_wr_role [of "''actual_position''" "0x6064" 0 v]
  by (simp_all add: servo_roles_def)


section \<open>Unit conversions\<close>

definition scale_ok :: "pyfloat \<Rightarrow> bool" where
  "scale_ok x \<longleftrightarrow> mag 0 x \<and> 2 powi (-40) \<le> fval x"

lemma dt_okD: "dt_ok dt \<Longrightarrow> mag 0 dt" "dt_ok dt \<Longrightarrow> 2 powi (-30) \<le> \<bar>fval dt\<bar>" "dt_ok dt \<Longrightarrow> fin dt"
  unfolding dt_ok_def mag_def by (auto intro: order_trans [of 0 "2 powi (-30)"])

lemma powi10_small: "e \<le> 0 \<Longrightarrow> \<bar>(10::rat) powi e\<bar> \<le> 2 powi 0"
  using power_int_increasing [of e 0 "10::rat"] by simp

lemma fpow10_small: "e \<le> 0 \<Longrightarrow> \<exists>f. fpow10 e = Inr f \<and> mag 0 f"
  using mag_round64 [OF powi10_small [of e], of False] by (auto simp: fpow10_def Let_def dest: magD(1))

lemma scale_from_exponent_ok: "\<exists>f. scale_from_exponent (VInt n) = Inr f \<and> mag 0 f"
  using fpow10_small [of n] fpow10_small [of "- n"] by (simp add: scale_from_exponent_def)

lemma unit_scale_ok:
  assumes "keeps (rd 0x2194 k) (\<lambda>v. \<exists>n. v = VInt n)"
  shows "keeps (unit_scale k) (mag 0)"
proof (rule keepsI)
  fix s assume "sv s"
  then obtain n t where r: "rd 0x2194 k s = (Inr (VInt n), t)" "sv t" using keepsD [OF assms] by blast
  obtain f where "scale_from_exponent (VInt n) = Inr f" "mag 0 f" using scale_from_exponent_ok by blast
  with r show "\<exists>x t. unit_scale k s = (Inr x, t) \<and> sv t \<and> mag 0 x"
    by (simp add: unit_scale_def pym bnd_def)
qed

lemma floor_scale_ok: "mag 0 x \<Longrightarrow> scale_ok (fmax x (flit (1 / 10 ^ 12)))"
proof -
  assume x: "mag 0 x"
  have "mag 0 (flit (1 / 10 ^ 12))" by (rule mag_flit) simp
  moreover have "2 powi (-40) \<le> fval (flit (1 / 10 ^ 12))" by code_simp
  ultimately show ?thesis using x by (auto simp: scale_ok_def mag_def fmax_def flt_fin)
qed

lemma scales [THEN keeps_bnd, kp_intro]:
  "keeps position_scale scale_ok" "keeps velocity_scale scale_ok" "keeps acceleration_scale scale_ok"
  unfolding position_scale_def velocity_scale_def acceleration_scale_def
  by (rule keeps_bnd [OF unit_scale_ok], rule rd_words, rule keeps_ret, erule floor_scale_ok)+

lemma rescale:
  assumes "mag k x" "scale_ok a" "scale_ok b" "0 \<le> k" "k \<le> 900"
  shows "\<exists>c. fdiv (fmul x a) b = Inr c \<and> mag (k + 40) c"
proof -
  have "mag (k + 0) (fmul x a)" using assms by (intro mag_fmul) (auto simp: scale_ok_def)
  moreover have "2 powi (-40) \<le> \<bar>fval b\<bar>" "fin b"
    using assms(3) by (auto simp: scale_ok_def mag_def)
  ultimately show ?thesis using mag_fdiv [of k "fmul x a" b "-40"] assms(4,5) by simp
qed

lemma velocity_to_position_rate_ok:
  "mag k v \<Longrightarrow> 0 \<le> k \<Longrightarrow> k \<le> 900 \<Longrightarrow> keeps (velocity_to_position_rate v) (mag (k + 40))"
  unfolding velocity_to_position_rate_def
  by (intro kp_intro keeps_lift_ex rescale)

lemma acceleration_to_position_rate_ok:
  "mag k a \<Longrightarrow> 0 \<le> k \<Longrightarrow> k \<le> 900 \<Longrightarrow> keeps (acceleration_to_position_rate a) (mag (k + 40))"
  unfolding acceleration_to_position_rate_def
  by (intro kp_intro keeps_lift_ex rescale)

lemma position_rate_to_velocity_ok:
  "nmag k r \<Longrightarrow> 0 \<le> k \<Longrightarrow> k \<le> 900 \<Longrightarrow> keeps (position_rate_to_velocity r) (mag (k + 40))"
  unfolding position_rate_to_velocity_def
  by (rule keeps_bnd [OF keeps_float], assumption, assumption, simp) (intro kp_intro keeps_lift_ex rescale)

lemma acceleration_to_velocity_delta_ok:
  assumes "nmag k a" "0 \<le> k" "k \<le> 900" "dt_ok dt"
  shows "keeps (acceleration_to_velocity_delta a dt) (mag (k + 40))"
proof -
  have m: "mag (k + 40) (fmul q dt)" if "mag (k + 40) q" for q
    using mag_fmul [OF that dt_okD(1) [OF assms(4)]] assms(2,3) by simp
  have f: "keeps (lift (py_float a)) (mag k)" using assms by (intro keeps_float) auto
  show ?thesis
    unfolding acceleration_to_velocity_delta_def
  proof (rule keeps_bnd [OF f], intro kp_intro)
    fix x as vs assume "mag k x" "scale_ok as" "scale_ok vs"
    then have "\<exists>c. fdiv (fmul x as) vs = Inr c \<and> mag (k + 40) c" using assms(2,3) by (intro rescale)
    then show "keeps (bnd (lift (fdiv (fmul x as) vs)) (\<lambda>q. ret (fmul q dt))) (mag (k + 40))"
      by (rule keeps_bnd [OF keeps_lift_ex]) (rule keeps_ret, rule m)
  qed
qed


text \<open>The conversions at the magnitudes the servo uses.\<close>

lemma conversions:
  "mag 140 v \<Longrightarrow> keeps (velocity_to_position_rate v) (mag 180)"
  "mag 32 a \<Longrightarrow> keeps (acceleration_to_position_rate a) (mag 72)"
  "nmag 32 b \<Longrightarrow> dt_ok dt \<Longrightarrow> keeps (acceleration_to_velocity_delta b dt) (mag 72)"
  "nmag 301 r \<Longrightarrow> keeps (position_rate_to_velocity r) (mag 341)"
  using velocity_to_position_rate_ok [of 140 v] acceleration_to_position_rate_ok [of 32 a]
    acceleration_to_velocity_delta_ok [of 32 b dt] position_rate_to_velocity_ok [of 301 r] by simp_all

lemmas [kp_intro] = conversions [THEN keeps_bnd]

section \<open>Software position limits\<close>

lemma software_position_limits_ok:
  "keeps software_position_limits (\<lambda>x. mag 32 (fst x) \<and> mag 32 (snd x))"
  unfolding software_position_limits_def by (intro kp_intro keeps_ret) auto

lemmas software_position_limits_bnd [kp_intro] =
  keeps_bnd_pair [OF software_position_limits_ok [unfolded fst_conv snd_conv]]

lemma position_target_is_within_software_limits_ok [THEN keeps_bnd, kp_intro]:
  "nmag 240 p \<Longrightarrow> keeps (position_target_is_within_software_limits p) (\<lambda>_. True)"
  unfolding position_target_is_within_software_limits_def
  by (intro kp_intro keeps_bnd [OF keeps_float [of 240]] keeps_ret) auto

lemma keeps_le: "nmag k a \<Longrightarrow> keeps (lift (py_le a (VFloat f))) (\<lambda>_. True)"
  "nmag k a \<Longrightarrow> keeps (lift (py_le (VFloat f) a)) (\<lambda>_. True)"
  "nmag k a \<Longrightarrow> keeps (lift (py_lt a (VFloat f))) (\<lambda>_. True)"
  "nmag k a \<Longrightarrow> keeps (lift (py_lt (VFloat f) a)) (\<lambda>_. True)"
  using py_cmp_ex [of k a f] by (auto intro: keeps_lift_ex)

lemmas keeps_le_bnd [kp_intro] = keeps_le [THEN keeps_bnd]

lemma actual_position_exceeds_ok:
  "keeps actual_position_exceeds_software_limits (\<lambda>_. True)"
  unfolding actual_position_exceeds_software_limits_def
  by (intro kp_intro keeps_le keeps_ret TrueI) assumption+

lemmas [kp_intro] = actual_position_exceeds_ok actual_position_exceeds_ok [THEN keeps_bnd]

lemma software_limit_is_active_ok: "keeps software_limit_is_active (\<lambda>_. True)"
  unfolding software_limit_is_active_def by (intro kp_intro keeps_ret TrueI)

lemmas [kp_intro] = software_limit_is_active_ok [THEN keeps_bnd]

section \<open>Commands\<close>

lemma sv_stop_fields:
  assumes "sv s"
  shows "sv (s\<lparr>actual_velocity := Fin 0\<rparr>)" "sv (s\<lparr>pp_target_position := actual_position s\<rparr>)"
  using assms by (simp_all add: sv_assign sv_fields)

lemma stop_at_current_position_ok [kp_intro]: "keeps_unit stop_at_current_position"
  unfolding stop_at_current_position_def
  by (intro kp_intro) (simp_all add: sv_stop_fields sv_assign)

lemma position_command_requires_reference_ok [THEN keeps_bnd, kp_intro]:
  "keeps position_command_requires_reference (\<lambda>_. True)"
  unfolding position_command_requires_reference_def
  by (intro kp_intro keeps_bnd [OF keeps_lift_ex [where P = "\<lambda>_. True"]] keeps_ret) auto

lemma set_mode_ok [kp_intro]: "keeps_unit (set_mode m (Some n))"
  unfolding set_mode_def option.case
  by (intro kp_intro keeps_bnd [OF keeps_ret [where P = "\<lambda>_. True"]]) simp_all

lemma set_target_position_ok [kp_intro]:
  assumes "nmag 240 position" "nmag 240 previous"
  shows "keeps_unit (set_target_position position (Some previous))"
  unfolding set_target_position_def option.case
  by (intro kp_intro keeps_bnd [OF keeps_ret [where P = "\<lambda>_. True"]]) (simp_all add: assms sv_assign)

section \<open>Device reset\<close>

lemma apply_configured_typed:
  assumes "typed p od" "config_fits od c"
  shows "run_ok (apply_configured c) od (\<lambda>_ od'. typed p od' \<and> same_shape od od')"
proof -
  define i s v where "i = cfg_index c" and "s = cfg_subindex c" and "v = cfg_value c"
  have v: "od_val od i s \<noteq> None" "fits_type i s v" using assms(2) by (auto simp: config_fits_def i_def s_def v_def)
  then obtain e where e: "map_of (entries od) (storage_key i s) = Some e" by (auto simp: od_val_def)
  define od' where "od' = od\<lparr>entries := AList.update (storage_key i s) (e\<lparr>ent_value := v\<rparr>) (entries od)\<rparr>"
  have run: "apply_configured c od = (Inr (), od')"
    using e v(1) unfolding apply_configured_def i_def [symmetric] s_def [symmetric] v_def [symmetric]
    by (simp add: pym has_entry_def write_internal_def set_value_def od'_def)
  have sh: "same_shape od od'" unfolding od'_def by (rule same_shape_set [OF e])
  have val: "od_val od' i' s' = (if i' = i \<and> s' = s then Some v else od_val od i' s')" for i' s'
    by (auto simp: od'_def od_val_def update_conv')
  have "list_all (value_fits od') servo_keys"
    using assms(1) v(2) by (auto simp: typed_def list_all_iff value_fits_def val split: option.splits)
  then show ?thesis using run sh typed_same_shape [OF assms(1) sh] by (simp add: run_ok_def)
qed

lemma reset_configuration_typed:
  assumes "typed p od"
  shows "run_ok (reset_non_pdo_configuration p) od (\<lambda>_. typed p)"
proof (cases "prof_config p")
  case None
  then show ?thesis
    using assms by (simp add: reset_non_pdo_configuration_def apply_non_pdo_configuration_def run_ok_ret)
next
  case (Some cs)
  have "run_ok (forM apply_configured cs) od (\<lambda>_. typed p)"
  proof (rule run_ok_forM [where I = "typed p", OF assms])
    fix c od' assume "c \<in> set cs" "typed p od'"
    moreover from this have "config_fits od' c" using Some by (simp add: typed_def list_all_iff)
    ultimately show "run_ok (apply_configured c) od' (\<lambda>_. typed p)"
      using apply_configured_typed run_ok_mono by fastforce
  qed
  then show ?thesis using Some by (simp add: reset_non_pdo_configuration_def apply_non_pdo_configuration_def)
qed

lemma reset_pdo_typed:
  assumes "typed p od"
  shows "run_ok reset_pdo_values od (\<lambda>_. typed p)"
proof -
  define od' where "od' = od\<lparr>entries := map (\<lambda>(k, e). (k, reset_entry e)) (entries od)\<rparr>"
  have look: "map_of (entries od') k = map_option reset_entry (map_of (entries od) k)" for k
    by (simp add: od'_def map_of_map)
  have d: "ent_definition (reset_entry e) = ent_definition e" for e
    by (simp add: reset_entry_def Let_def)
  have sh: "same_shape od od'"
    unfolding same_shape_def
  proof
    show "definitions od' = definitions od" by (simp add: definitions_def od'_def split_def d)
    show "\<forall>k. map_option ent_definition (map_of (entries od') k) = map_option ent_definition (map_of (entries od) k)"
      by (simp add: look option.map_comp comp_def d)
  qed
  have "value_fits od' k" if "k \<in> set servo_keys" for k
  proof -
    obtain i s where k: "k = (i, s)" by fastforce
    have kin: "(i, s) \<in> set servo_keys" using that k by simp
    obtain e where e: "map_of (entries od) (storage_key i s) = Some e" "fits_type i s (ent_value e)"
      using typed_val [OF assms kin] by (auto simp: od_val_def)
    have "pdo_default_fits od (i, s)" using assms kin by (auto simp: typed_def list_all_iff)
    then show ?thesis
      using e by (auto simp: k value_fits_def od_val_def look reset_entry_def Let_def pdo_default_fits_def)
  qed
  then have "typed p od'" by (intro typed_same_shape [OF assms sh]) (simp add: list_all_iff)
  then show ?thesis by (simp add: reset_pdo_values_def run_ok_def modify_def od'_def)
qed

lemma keeps_od_op:
  assumes "\<And>p od. typed p od \<Longrightarrow> run_ok m od (\<lambda>_. typed p)"
  shows "keeps_unit (od_op m)"
proof (rule keepsI)
  fix s assume s: "sv s"
  obtain od where "m (sv_od s) = (Inr (), od)" "typed (device_profile s) od"
    using assms [OF sv_typed [OF s]] by (auto simp: run_ok_def)
  with s show "\<exists>x t. od_op m s = (Inr x, t) \<and> sv t \<and> True"
    by (simp add: od_op_def pym sv_od_update)
qed

lemma keeps_reset_configuration [kp_intro]:
  assumes "keeps_unit k"
  shows "keeps_unit (bnd (gets device_profile) (\<lambda>p. thn (od_op (reset_non_pdo_configuration p)) k))"
proof (rule keepsI)
  fix s assume s: "sv s"
  obtain od where "reset_non_pdo_configuration (device_profile s) (sv_od s) = (Inr (), od)"
    "typed (device_profile s) od"
    using reset_configuration_typed [OF sv_typed [OF s]] by (auto simp: run_ok_def)
  with s show "\<exists>x t. bnd (gets device_profile) (\<lambda>p. thn (od_op (reset_non_pdo_configuration p)) k) s = (Inr x, t)
      \<and> sv t \<and> True"
    using keepsD [OF assms sv_od_update [OF s]] by (simp add: pym od_op_def bnd_def)
qed

lemma apply_device_reset_response_ok [kp_intro]: "keeps_unit apply_device_reset_response"
  unfolding apply_device_reset_response_def
  by (intro kp_intro keeps_od_op reset_pdo_typed) (auto simp: sv_assign intro: kp_intro)

lemma apply_od_commands_ok: "keeps_unit apply_od_commands"
  unfolding apply_od_commands_def
  by (intro kp_intro) simp_all


section \<open>Motion\<close>

text \<open>A step towards a target ends between the start and the target, rounding included.\<close>

lemma round64_not_NaN: "round64 s x \<noteq> NaN"
  by (auto simp: round64_def Let_def)

lemma far_difference:
  assumes "\<not> fle (fabs (round64 s x)) m" "fin m" "wff m"
  shows "x < - fval m \<or> fval m < x"
proof (rule ccontr)
  assume "\<not> ?thesis"
  then have "fin (round64 s x)" "\<bar>fval (round64 s x)\<bar> \<le> fval m"
    using round64_between [of "fneg m" m x s] assms(2,3) by auto
  then show False using assms by (simp add: fle_fin)
qed

lemma far_direction:
  assumes "0 < fval m" "fin m" "wff m"
  shows "fval m < x \<Longrightarrow> flt (Fin 0) (round64 s x)"
proof -
  assume "fval m < x"
  then have "\<not> flt (round64 s x) m" using round64_flt [OF assms(3,2)] by fastforce
  with assms(1,2) round64_not_NaN [of s x] show ?thesis by (cases "round64 s x"; cases m) (auto simp: flt_def)
qed

lemma fmul_unit:
  assumes "fin m" "wff m"
  shows "fin (fmul m (Fin 1))" "fval (fmul m (Fin 1)) = fval m"
    "fin (fmul m (Fin (- 1)))" "fval (fmul m (Fin (- 1))) = - fval m"
proof -
  obtain s where "fmul m (Fin 1) = round64 s (fval m)" using fmul_fin [OF assms(1), of "Fin 1"] by auto
  then show "fin (fmul m (Fin 1))" "fval (fmul m (Fin 1)) = fval m"
    using round64_between [of m m "fval m" s] assms by auto
  obtain u where "fmul m (Fin (- 1)) = round64 u (- fval m)" using fmul_fin [OF assms(1), of "Fin (- 1)"] by auto
  then show "fin (fmul m (Fin (- 1)))" "fval (fmul m (Fin (- 1))) = - fval m"
    using round64_between [of "fneg m" "fneg m" "- fval m" u] assms by auto
qed

lemma fadd_between:
  assumes "fin a" "fin b" "wff l" "wff h" "fval l \<le> fval a + fval b" "fval a + fval b \<le> fval h"
  shows "fin (fadd a b) \<and> wff (fadd a b) \<and> fval l \<le> fval (fadd a b) \<and> fval (fadd a b) \<le> fval h"
  using fadd_fin [OF assms(1,2)] round64_between [OF assms(3-6)] by auto

lemma move_towards_between:
  assumes "fin c" "wff c" "fin t" "wff t" "fin m" "wff m"
  shows "fin (move_towards c t m) \<and> wff (move_towards c t m) \<and>
    min (fval c) (fval t) \<le> fval (move_towards c t m) \<and> fval (move_towards c t m) \<le> max (fval c) (fval t)"
proof -
  let ?d = "fsub t c"
  have "fle m (Fin 0) \<or> 0 < fval m" using assms(5) by (auto simp: fle_fin)
  then consider (no_move) "fle m (Fin 0)" | (reach) "\<not> fle m (Fin 0)" "fle (fabs ?d) m"
    | (far) "0 < fval m" "\<not> fle m (Fin 0)" "\<not> fle (fabs ?d) m"
    by blast
  then show ?thesis
  proof cases
    case far
    obtain s where s: "?d = round64 s (fval t - fval c)" using fsub_fin [OF assms(3,1)] by blast
    note u = fmul_unit [OF assms(5,6)]
    show ?thesis
    proof (cases "flt (Fin 0) ?d")
      case True
      then have "0 < fval t - fval c" using flt_round64 [of "Fin 0"] unfolding s by fastforce
      then have "fval m < fval t - fval c" using far_difference [of s _ m] far assms(5,6) unfolding s by fastforce
      then have "fin (fadd c (fmul m (Fin 1))) \<and> wff (fadd c (fmul m (Fin 1))) \<and>
          fval c \<le> fval (fadd c (fmul m (Fin 1))) \<and> fval (fadd c (fmul m (Fin 1))) \<le> fval t"
        using far(1) u assms by (intro fadd_between) auto
      with True far show ?thesis by (auto simp: move_towards_def)
    next
      case False
      then have "\<not> fval m < fval t - fval c" using far_direction [OF far(1) assms(5,6)] unfolding s by blast
      then have "fval t - fval c < - fval m" using far_difference [of s _ m] far assms(5,6) unfolding s by fastforce
      then have "fin (fadd c (fmul m (Fin (- 1)))) \<and> wff (fadd c (fmul m (Fin (- 1)))) \<and>
          fval t \<le> fval (fadd c (fmul m (Fin (- 1)))) \<and> fval (fadd c (fmul m (Fin (- 1)))) \<le> fval c"
        using far(1) u assms by (intro fadd_between) auto
      with False far show ?thesis by (auto simp: move_towards_def)
    qed
  qed (use assms in \<open>simp_all add: move_towards_def\<close>)
qed

lemma mag_move_towards: "mag k c \<Longrightarrow> mag k t \<Longrightarrow> mag j m \<Longrightarrow> mag k (move_towards c t m)"
  using move_towards_between [of c t m] by (auto simp: mag_def abs_le_iff min_def max_def split: if_splits)


text \<open>Towards an infinite target the step is the full change, which rounding keeps in range.\<close>

lemma mag_move_towards_ext:
  assumes "mag 140 c" "xmag 140 t" "mag 72 m"
  shows "mag 140 (move_towards c t m)"
proof (cases "fin t")
  case True
  then show ?thesis using assms mag_move_towards by (auto simp: xmag_def)
next
  case False
  have "\<not> fle (fabs (fsub t c)) m"
    using not_fin_cases [OF False] assms(1,3) by (auto simp: mag_def fsub_def fadd_def fle_def flt_def feq_def)
  moreover have "mag 72 (fmul m (if b then Fin 1 else Fin (- 1)))" for b
    using mag_fmul [of 72 m 0 "Fin 1"] mag_fmul [of 72 m 0 "Fin (- 1)"] assms(3) by simp
  then have "mag 140 (fadd c (fmul m (if b then Fin 1 else Fin (- 1))))" for b
    using mag_mono [of 72 _ 82] by (intro fadd_absorb [OF absorbs_140 assms(1)]) auto
  ultimately show ?thesis using assms(1) by (simp add: move_towards_def)
qed

lemma sv_move_towards: "sv s \<Longrightarrow> xmag 140 t \<Longrightarrow> mag 72 m \<Longrightarrow> sv (s\<lparr>actual_velocity := move_towards (actual_velocity s) t m\<rparr>)"
  by (intro sv_assign mag_move_towards_ext sv_fields)

lemma xmag_0 [simp]: "xmag k (Fin 0)"
  by (simp add: mag_xmag)

lemma write_actual_feedback_ok [kp_intro]: "keeps_unit write_actual_feedback"
  unfolding write_actual_feedback_def by (intro kp_intro)

lemma fmul_dt: "mag k x \<Longrightarrow> dt_ok dt \<Longrightarrow> 0 \<le> k \<Longrightarrow> k \<le> 900 \<Longrightarrow> mag k (fmul x dt)"
  using mag_fmul [of k x 0 dt] by (simp add: dt_okD)

lemma advance_sum:
  assumes "mag 180 rate" "dt_ok ct" "nmag 240 pos"
  shows "\<exists>c. py_add pos (VFloat (fmul rate ct)) = Inr c \<and> nmag 240 c"
  using py_add_absorb [OF absorbs_240 assms(3) mag_mono [OF fmul_dt [OF assms(1,2)]]] by fastforce

lemma advance_position_ok [kp_intro]: "keeps_unit advance_position"
  unfolding advance_position_def
  by (intro kp_intro keeps_bnd [OF keeps_lift_ex [OF advance_sum]]) (simp_all add: sv_assign)

lemma nmag_fabs: "mag k x \<Longrightarrow> nmag k (VFloat (fabs x))"
  by (simp add: mag_fabs)

lemma decelerate_to_stop_ok [kp_intro]: "keeps_unit decelerate_to_stop"
  unfolding decelerate_to_stop_def
  by (intro kp_intro nmag_fabs) (simp_all add: sv_move_towards)

lemma is_in_position_ok [THEN keeps_bnd, kp_intro]: "keeps is_in_position (\<lambda>_. True)"
proof -
  have "\<exists>r. ebind (py_sub t a) (\<lambda>d. ebind (py_abs d) (\<lambda>b. py_le b w)) = Inr r \<and> True"
    if "nmag 240 t" "nmag 240 a" "nmag 32 w" for t a w
  proof -
    note n = that
    obtain d where d: "py_sub t a = Inr d" "nmag 241 d" using py_sub_mag [OF n(1,2)] by auto
    obtain b where "py_abs d = Inr b" "nmag 241 b" using py_abs_mag [OF d(2)] by auto
    then show ?thesis using d(1) py_le_num [OF _ n(3)] by simp
  qed
  then show ?thesis unfolding is_in_position_def by (intro kp_intro keeps_lift_ex)
qed

lemma dt_ms:
  assumes "dt_ok dt"
  shows "fin (fmul dt (Fin 1000))" "2 powi (-21) \<le> \<bar>fval (fmul dt (Fin 1000))\<bar>"
proof -
  obtain s where s: "fmul dt (Fin 1000) = round64 s (fval dt * 1000)"
    using fmul_fin [OF dt_okD(3) [OF assms], of "Fin 1000"] by auto
  have "mag 10 (fmul dt (Fin 1000))" using mag_fmul [OF dt_okD(1) [OF assms] mag_literals(3)] by simp
  then show f: "fin (fmul dt (Fin 1000))" by (rule magD)
  have "(2::rat) powi (-21) \<le> 2 powi (-30) * 1000" by code_simp
  also have "\<dots> \<le> fval dt * 1000" using assms by (intro mult_right_mono) (auto simp: dt_ok_def)
  finally have l: "2 powi (-21) \<le> fval dt * 1000" .
  have "rnd64 (2 powi (-21)) \<le> rnd64 (fval dt * 1000)" by (rule rnd64_mono [OF l])
  moreover have "rnd64 (2 powi (-21)) = 2 powi (-21)" by code_simp
  moreover have "fval (fmul dt (Fin 1000)) = rnd64 (fval dt * 1000)" using f unfolding s by (simp add: fval_round64)
  ultimately show "2 powi (-21) \<le> \<bar>fval (fmul dt (Fin 1000))\<bar>" by linarith
qed

lemma int_of_fin: "mag k x \<Longrightarrow> \<exists>n. int_of_float x = Inr n"
  by (cases x) (auto simp: mag_def)

lemma window_cycles:
  assumes "mag 32 w" "dt_ok ct"
  shows "\<exists>n. ebind (fdiv w (fmul ct (Fin 1000))) int_of_float = Inr n \<and> True"
proof -
  obtain c where "fdiv w (fmul ct (Fin 1000)) = Inr c" "mag (32 - (-21)) c"
    using mag_fdiv [OF assms(1) dt_ms [OF assms(2)]] by auto
  then show ?thesis using int_of_fin by fastforce
qed

lemma update_target_reached_ok [kp_intro]: "keeps_unit update_target_reached"
  unfolding update_target_reached_def
  by (intro kp_intro keeps_bnd [OF keeps_lift_ex [OF window_cycles]]) simp_all


section \<open>The modes\<close>

lemma keeps_bit: "\<exists>n. v = VInt n \<Longrightarrow> keeps (lift (py_bit v k)) (\<lambda>_. True)"
  by (auto intro: keeps_lift)

lemmas [kp_intro] = keeps_bit [THEN keeps_bnd]

lemma rising_edge4_ok [THEN keeps_bnd, kp_intro]: "\<exists>n. v = VInt n \<Longrightarrow> keeps (rising_edge4 v) (\<lambda>_. True)"
  unfolding rising_edge4_def by (intro kp_intro keeps_ret TrueI)

lemma homing_cycles: "dt_ok ct \<Longrightarrow> \<exists>n. ebind (fdiv (flit (1 / 10)) ct) int_of_float = Inr n \<and> True"
proof -
  assume ct: "dt_ok ct"
  have "mag 0 (flit (1 / 10))" by (rule mag_flit) simp
  then obtain c where "fdiv (flit (1 / 10)) ct = Inr c" "mag (0 - (-30)) c"
    using mag_fdiv [OF _ dt_okD(3) [OF ct] dt_okD(2) [OF ct]] by fastforce
  then show ?thesis using int_of_fin by fastforce
qed

lemma nmag_zero: "nmag k (VFloat (Fin 0))"
  by simp

lemma sv_home:
  assumes "sv s"
  shows "sv (s\<lparr>homing_referenced := a, homing_error := b, actual_velocity := Fin 0\<rparr>)"
    "sv (s\<lparr>actual_position := VFloat (Fin 0), actual_velocity := Fin 0\<rparr>)"
  using assms by (simp_all add: sv_def)

lemma process_homing_ok [kp_intro]: "keeps_unit process_homing"
  unfolding process_homing_def
  by (intro kp_intro keeps_bnd [OF keeps_lift_ex [OF homing_cycles]] nmag_zero) (simp_all add: sv_home)

lemma negative_limit_mag: "xmag 128 x \<Longrightarrow> xmag 138 (fabs (fmul x (Fin 1000)))"
  using xmag_fmul [of 128 x 10 1000] by (simp add: xmag_fabs)

lemma mag_32_138: "mag 32 x \<Longrightarrow> mag 138 x"
  by (erule mag_mono) simp

lemma limited_velocity:
  assumes "mag 32 a" "mag 32 b" "xmag 128 c"
  shows "mag 138 (if flt (Fin 0) (if d then fabs (fmul c (Fin 1000)) else fabs b)
    then fmin (fabs a) (if d then fabs (fmul c (Fin 1000)) else fabs b) else fabs a)"
  using assms negative_limit_mag [OF assms(3)] by (intro mag_limit) (auto intro: mag_xmag mag_32_138 mag_fabs)

lemma keeps_lt: "nmag j a \<Longrightarrow> nmag k b \<Longrightarrow> keeps (lift (py_lt a b)) (\<lambda>_. True)"
  by (simp add: py_lt_num keeps_lift)

lemma max_motion_velocity_ok [THEN keeps_bnd, kp_intro]:
  "nmag 240 t \<Longrightarrow> keeps (max_motion_velocity t) (mag 138)"
  unfolding max_motion_velocity_def Let_def
  by (intro kp_intro keeps_bnd [OF keeps_lt] keeps_ret limited_velocity)

lemma pp_stops_ok [kp_intro]: "keeps_unit pp_halt" "keeps_unit pp_unreferenced" "keeps_unit pp_rejected" "keeps_unit pp_idle"
  unfolding pp_halt_def pp_unreferenced_def pp_rejected_def pp_idle_def
  by (intro kp_intro; simp)+

lemma pp_arrive_ok [kp_intro]: "nmag 240 t \<Longrightarrow> keeps_unit (pp_arrive t)"
  unfolding pp_arrive_def by (intro kp_intro) (simp add: sv_def)

lemma mag_direction: "mag k v \<Longrightarrow> 0 \<le> k \<Longrightarrow> k \<le> 900 \<Longrightarrow> mag k (fmul v (if b then Fin 1 else Fin (- 1)))"
  using mag_fmul [of k v 0 "Fin 1"] mag_fmul [of k v 0 "Fin (- 1)"] by simp

lemma mag_fmul_square:
  assumes "mag 180 a"
  shows "\<exists>q. fsquare a = Inr q \<and> fin q"
proof -
  have "\<bar>fval a\<bar> * \<bar>fval a\<bar> \<le> 2 powi 180 * 2 powi 180"
    using magD(3) [OF assms] by (intro mult_mono) simp_all
  then have "\<bar>fval a * fval a\<bar> \<le> 2 powi 360" by (simp only: abs_mult power_int_add [symmetric]) simp
  then have "fin (round64 False (fval a * fval a))" by (intro magD(1) [OF mag_round64 [of _ 360]]) simp_all
  moreover have "a \<noteq> NaN" "fin a" using assms by (auto simp: mag_def)
  ultimately show ?thesis by (simp add: fsquare_def Let_def)
qed

lemma pp_stopping_distance_ok:
  assumes "mag 180 v" "mag 72 d"
  shows "\<exists>x. pp_stopping_distance v d = Inr x \<and> True"
proof (cases "flt (Fin 0) d")
  case True
  then have d: "0 < fval d" using assms(2) by (simp add: mag_def flt_fin)
  have "mag 180 (fmax v (Fin 0))" using assms(1) by (simp add: mag_fmax)
  then obtain sq where sq: "fsquare (fmax v (Fin 0)) = Inr sq" "fin sq"
    using mag_fmul_square by blast
  have m: "mag 73 (fmul (Fin 2) d)" using mag_fmul [of 1 "Fin 2" 72 d] assms(2) by simp
  obtain s where s: "fmul (Fin 2) d = round64 s (2 * fval d)" using fmul_fin [of "Fin 2" d] assms(2) by (auto simp: mag_def)
  have "fval d \<le> rnd64 (2 * fval d)" using rnd64_mono [of "fval d" "2 * fval d"] d assms(2) by (simp add: mag_def)
  then have "fval (fmul (Fin 2) d) \<noteq> 0" using d magD(1) [OF m] unfolding s by (simp add: fval_round64)
  then show ?thesis using True sq fdiv_fin [OF sq(2) magD(1) [OF m]] by (auto simp: pp_stopping_distance_def)
qed (simp add: pp_stopping_distance_def)


lemma pp_crosses_ok:
  assumes "nmag 240 t" "nmag 240 p" "nmag 240 q"
  shows "\<exists>b. pp_crosses t p q = Inr b \<and> True"
proof -
  obtain r where r: "py_sub t p = Inr r" "nmag 241 r" using py_sub_mag [OF assms(1,2)] by auto
  obtain a where a: "py_sub t q = Inr a" "nmag 241 a" using py_sub_mag [OF assms(1,3)] by auto
  obtain x where "py_mul r a = Inr x" "nmag 482 x" using py_mul_mag [OF r(2) a(2)] by auto
  then show ?thesis using r a py_cmp_ex(1) [of 482 x "Fin 0"] by (auto simp: pp_crosses_def)
qed

lemma mag_desired:
  "mag 138 v \<Longrightarrow> xmag 140 (fst (if c then (Fin 0, d) else if e then (Fin 0, d)
     else (fmul (if b then Fin 1 else Fin (- 1)) v, a)))"
  using mag_fmul [of 0 "Fin 1" 138 v] mag_fmul [of 0 "Fin (- 1)" 138 v] mag_mono [of 138 _ 140] mag_xmag by simp

lemma nmag_ramp:
  "mag 32 a \<Longrightarrow> mag 32 d \<Longrightarrow> nmag 32 (VFloat (snd (if c then (z, d) else if e then (z, d) else (v, a))))"
  by simp

lemma pp_move_ok:
  assumes "nmag 240 t" "mag 138 v" "mag 32 a" "mag 32 d" "nmag 241 e" "nmag 241 l"
  shows "keeps_unit (pp_move t v a d e l)"
  unfolding pp_move_def Let_def split_def
  by (intro kp_intro keeps_bnd [OF keeps_lift_ex [OF pp_stopping_distance_ok]]
      keeps_bnd [OF keeps_lift_ex [OF advance_sum]] keeps_bnd [OF keeps_lift_ex [OF pp_crosses_ok]]
      sv_move_towards mag_desired nmag_ramp mag_direction) (rule assms(5,6) | simp add: assms(1-4) sv_assign)+

lemma keeps_bnd_if:
  "(c \<Longrightarrow> keeps m P) \<Longrightarrow> (\<not> c \<Longrightarrow> keeps n P) \<Longrightarrow> (\<And>x. P x \<Longrightarrow> keeps (k x) Q) \<Longrightarrow>
   keeps (bnd (if c then m else n) k) Q"
  by (rule keeps_bnd [of _ P]) auto

lemma pp_motion_ok [kp_intro]: "keeps_unit pp_motion"
proof -
  have sub: "keeps (lift (py_sub t p)) (nmag 241)" if "nmag 240 t" "nmag 240 p" for t p
    using py_sub_mag [OF that] by (intro keeps_lift_ex) auto
  have abs: "keeps (lift (py_abs e)) (nmag 241)" if "nmag 241 e" for e
    using py_abs_mag [OF that] by (intro keeps_lift_ex) auto
  show ?thesis
    unfolding pp_motion_def Let_def
    by (intro kp_intro keeps_bnd [OF sub] keeps_bnd [OF abs] keeps_bnd_if [where P = "\<lambda>_. True"]
        keeps_ret pp_move_ok mag_fabs nmag_fabs TrueI)
qed

lemma process_pp_ok [kp_intro]: "keeps_unit process_pp"
  unfolding process_pp_def
  by (intro kp_intro) (simp_all add: sv_def)


lemma track_velocity_ok [THEN keeps_bnd, kp_intro]:
  "xmag 140 t \<Longrightarrow> keeps (track_velocity t) (mag 72)"
  unfolding track_velocity_def Let_def
  by (intro kp_intro sv_move_towards keeps_ret) simp_all

lemma mag_32_140: "mag 32 x \<Longrightarrow> mag 140 x"
  by (erule mag_mono) simp

lemma pv_target:
  assumes "mag 32 t" "mag 32 p" "xmag 128 n"
  shows "xmag 140 (if fle (Fin 0) t \<and> flt (Fin 0) (fabs p) then fmin t (fabs p)
    else if flt t (Fin 0) \<and> flt (Fin 0) (fabs (fmul n (Fin 1000))) then fmax t (fneg (fabs (fmul n (Fin 1000))))
    else t)"
  using mag_fmin [OF assms(1) mag_fabs [OF assms(2)]] assms(1)
    mag_mono [OF mag_fmax_bound [OF mag_32_138 [OF assms(1)] negative_limit_mag [OF assms(3)]], of 140]
  by (auto intro!: mag_xmag dest: mag_32_140)

lemma process_pv_ok [kp_intro]: "keeps_unit process_pv"
  unfolding process_pv_def Let_def
  by (intro kp_intro keeps_bnd_if [where P = "mag 32"] keeps_ret rd_float_quantities pv_target) simp_all

lemma xmag_fold_fmin:
  assumes "xmag k x" "\<And>y. y \<in> set ys \<Longrightarrow> xmag k y"
  shows "xmag k (foldl fmin x ys)"
  using assms by (induction ys arbitrary: x) (simp_all add: xmag_fmin)

lemma xmag_jog_limit:
  assumes "\<And>y. y \<in> set ys \<Longrightarrow> xmag k y"
  shows "xmag k (case filter P ys of [] \<Rightarrow> Fin 0 | x # xs \<Rightarrow> foldl fmin x xs)"
proof (cases "filter P ys")
  case (Cons x xs)
  then have "set (x # xs) \<subseteq> set ys" by (metis filter_is_subset)
  then have "xmag k x" "\<And>y. y \<in> set xs \<Longrightarrow> xmag k y" using assms by auto
  then show ?thesis unfolding Cons list.case by (rule xmag_fold_fmin)
qed simp

lemma mag_literal_parts: "mag 0 (Fin (1 / 4))" "mag 0 (Fin (1 / 2))"
proof -
  have "wff (Fin (1 / 4))" "wff (Fin (1 / 2))"
    using wff_powi [of "-2"] wff_powi [of "-1"] by (simp_all add: power_int_def power2_eq_square)
  then show "mag 0 (Fin (1 / 4))" "mag 0 (Fin (1 / 2))" by (simp_all add: mag_def)
qed

lemma xmag_speed:
  assumes "xmag 138 x"
  shows "xmag 138 (fmul x (if a then Fin 1 else if b then Fin (1 / 4) else Fin (1 / 2)))"
  using xmag_fmul [OF assms, of 0 1] xmag_fmul [OF assms, of 0 "1 / 4"] xmag_fmul [OF assms, of 0 "1 / 2"]
    mag_literal_parts mag_literals(1) by simp

lemma fmul_commute: "fmul a b = fmul b a"
proof -
  have "(fsign a \<noteq> fsign b) = (fsign b \<noteq> fsign a)" "fval a * fval b = fval b * fval a" by auto
  then show ?thesis by (simp add: fmul_def Let_def disj_commute mult.commute [of "fval a"])
qed

lemma xmag_signed: "xmag 138 x \<Longrightarrow> xmag 138 (fmul (if b then Fin 1 else Fin (- 1)) x)"
  using xmag_fmul [of 138 x 0 1] xmag_fmul [of 138 x 0 "- 1"] by (simp add: fmul_commute [of _ x])

lemma jog_velocity_limit_ok [THEN keeps_bnd, kp_intro]:
  assumes "\<exists>n. v = VInt n"
  shows "keeps (jog_velocity_limit v) (xmag 138)"
proof -
  have "xmag 138 z" if "mag 32 a" "mag 32 b" "xmag 128 c" "z \<in> set [fabs a, fabs b, fabs (fmul c (Fin 1000))]" for a b c z
    using that negative_limit_mag [of c] by (auto intro: mag_xmag mag_32_138 mag_fabs)
  then show ?thesis
    unfolding jog_velocity_limit_def Let_def
    by (intro kp_intro keeps_ret assms xmag_speed xmag_jog_limit) simp_all
qed

lemma limit_jog_velocity_ok [THEN keeps_bnd, kp_intro]:
  "xmag 138 t \<Longrightarrow> keeps (limit_jog_velocity_at_software_limit t) (xmag 140)"
  unfolding limit_jog_velocity_at_software_limit_def
  by (intro kp_intro keeps_ret) (auto simp: xmag_def intro: mag_mono)

lemma process_jog_ok [kp_intro]: "keeps_unit process_jog"
  unfolding process_jog_def
  by (intro kp_intro keeps_bnd_if [where P = "xmag 138"] keeps_ret xmag_signed) simp_all

lemma csp_halt_ok [kp_intro]: "keeps_unit csp_halt"
  unfolding csp_halt_def by (intro kp_intro) simp_all

lemma sv_csp_velocity:
  assumes "sv s" "mag 72 m" "fin x" "wff x"
  shows "sv (s\<lparr>actual_velocity := fadd (actual_velocity s) (fmax (fmin x m) (fneg m))\<rparr>)"
proof -
  have "mag 82 (fmax (fmin x m) (fneg m))" using mag_mono [OF mag_clamp [OF assms(3,4,2)], of 82] by simp
  then show ?thesis using assms(1) by (intro sv_assign fadd_absorb [OF absorbs_140]) (simp_all add: sv_fields)
qed

lemma csp_delta_finite:
  assumes "mag 341 d" "mag 138 v" "mag 140 a"
  shows "fin (fsub (fmax (fmin d v) (fneg v)) a)" "wff (fsub (fmax (fmin d v) (fneg v)) a)"
proof -
  have "mag 138 (fmax (fmin d v) (fneg v))" using assms by (intro mag_clamp) (auto simp: mag_def)
  then have "mag (max 138 140 + 1) (fsub (fmax (fmin d v) (fneg v)) a)" by (intro mag_fsub assms(3)) simp_all
  then show "fin (fsub (fmax (fmin d v) (fneg v)) a)" "wff (fsub (fmax (fmin d v) (fneg v)) a)" by (auto dest: magD)
qed

lemma csp_motion_ok [kp_intro]: "keeps_unit csp_motion"
proof -
  have sub: "keeps (lift (py_sub t p)) (nmag 241)" if "nmag 240 t" "nmag 240 p" for t p
    using py_sub_mag [OF that] by (intro keeps_lift_ex) auto
  have mul: "keeps (lift (py_mul (VFloat g) e)) (nmag 301)" if "mag 60 g" "nmag 241 e" for g e
    using py_mul_float_mag [OF that] by (intro keeps_lift_ex) auto
  have lim: "keeps (acceleration_to_velocity_delta (if c then a else d) ct) (mag 72)"
    if "nmag 32 a" "nmag 32 d" "dt_ok ct" for c a d ct
    using conversions(3) that by simp
  show ?thesis
    unfolding csp_motion_def Let_def
    by (intro kp_intro keeps_bnd [OF sub] keeps_bnd [OF mul] keeps_bnd [OF lim] sv_csp_velocity csp_delta_finite)
qed

lemma process_csp_ok [kp_intro]: "keeps_unit process_csp"
  unfolding process_csp_def by (intro kp_intro) simp_all

section \<open>The cycle\<close>

lemma run_mode_ok [kp_intro]: "keeps_unit (run_mode m)"
  unfolding run_mode_def by (intro kp_intro)

lemma process_cycle_ok: "keeps_unit process_cycle"
proof -
  have "\<exists>n. v = VInt n \<Longrightarrow> keeps (lift (py_int v)) (\<lambda>_. True)" for v
    by (auto intro: keeps_lift)
  then show ?thesis
    unfolding process_cycle_def
    by (intro kp_intro keeps_bnd_any [of _ _ "\<lambda>s. sm_get_statusword (sm s) = 39"]
        keeps_bnd_any [of _ _ "status_word _ _"] keeps_bnd [OF \<open>\<And>v. \<exists>n. v = VInt n \<Longrightarrow> keeps (lift (py_int v)) (\<lambda>_. True)\<close>])
      (auto simp: sv_assign)
qed

lemma model_update_keeps: "keeps_unit model_update"
  unfolding model_update_def by (intro kp_intro apply_od_commands_ok process_cycle_ok)

text \<open>
  C19. The ramp moves a value towards its target without overshooting it: the result lies between
  the current and the target value, also after float rounding.
\<close>

theorem ramp_stays_between:
  assumes "fin current" "wff current" "fin target" "wff target" "fin max_delta" "wff max_delta"
  shows "min (fval current) (fval target) \<le> fval (move_towards current target max_delta) \<and>
    fval (move_towards current target max_delta) \<le> max (fval current) (fval target)"
  using move_towards_between [OF assms] by simp

end
