(* ===== verification/Adapter.thy ===== *)
theory Adapter
  imports Bridge ServoTyping
begin

text \<open>
  The adapter boundary (adapter/contract.py, capabilities.py) and the F-KR CMMT adapter
  (adapter/f_kr_cmmt.py). The adapter object is its servo: the profile and the dictionary
  are fields of the servo. The role index installed on the dictionary changes no outcome
  (theory \<open>ObjectDictionary\<close>), so the plain dictionary stands for it.
\<close>

section \<open>The contract\<close>

record 's adapter_ops =
  ad_read_sdo :: "int \<Rightarrow> int \<Rightarrow> nat \<Rightarrow> ('s, bytes) pym"
  ad_write_sdo :: "int \<Rightarrow> int \<Rightarrow> bytes \<Rightarrow> ('s, unit) pym"
  ad_apply_outputs :: "bytes \<Rightarrow> ('s, unit) pym"
  ad_step :: "pyfloat \<Rightarrow> ('s, unit) pym"
  ad_read_inputs :: "('s, bytes) pym"
  ad_od_definition :: "int \<Rightarrow> int \<Rightarrow> ('s, VirtualOdDefinition) pym"
  ad_od_read :: "int \<Rightarrow> int \<Rightarrow> ('s, odval) pym"
  ad_od_write :: "int \<Rightarrow> odval \<Rightarrow> int \<Rightarrow> ('s, unit) pym"
  ad_od_write_role :: "string \<Rightarrow> odval \<Rightarrow> ('s, unit) pym"
  ad_persistent_roles :: "'s \<Rightarrow> (int \<times> int) list"
  ad_validate_parameters :: "'s \<Rightarrow> (((int \<times> int) \<times> odval) list \<Rightarrow> unit res) option"

text \<open>
  What a client of the boundary relies on: reading changes nothing, and no access, accepted
  or refused, leaves the adapter in a state from which it could not go on (\<open>ok\<close>). A total
  adapter also executes every step of an admissible length.
\<close>

locale drive_adapter =
  fixes ops :: "'s adapter_ops" and ok :: "'s \<Rightarrow> bool"
  assumes read_sdo_pure: "snd (ad_read_sdo ops i k n s) = s"
    and read_inputs_pure: "snd (ad_read_inputs ops s) = s"
    and od_read_pure: "snd (ad_od_read ops i k s) = s"
    and write_sdo_ok: "ok s \<Longrightarrow> ok (snd (ad_write_sdo ops i k payload s))"
    and apply_outputs_ok: "ok s \<Longrightarrow> ok (snd (ad_apply_outputs ops payload s))"

locale total_adapter = drive_adapter ops ok for ops :: "'s adapter_ops" and ok :: "'s \<Rightarrow> bool" +
  fixes save_roles :: "(string \<times> int) list"
  assumes step_total: "ok s \<Longrightarrow> dt_ok dt \<Longrightarrow> fst (ad_step ops dt s) = Inr () \<and> ok (snd (ad_step ops dt s))"
    and write_role_ok: "ok s \<Longrightarrow> (r, n) \<in> set save_roles \<Longrightarrow> ok (snd (ad_od_write_role ops r (VInt n) s))"

context total_adapter
begin

text \<open>One exchange: outputs, a step, inputs. Only the outputs and the inputs can raise.\<close>

lemma exchange_ok:
  assumes "ok s" "dt_ok dt"
  shows "ok (snd (thn (ad_apply_outputs ops p) (thn (ad_step ops dt) (ad_read_inputs ops)) s))"
proof -
  obtain r t where a: "ad_apply_outputs ops p s = (r, t)" by fastforce
  then have t: "ok t" using apply_outputs_ok [OF assms(1), of p] by simp
  obtain u where u: "ad_step ops dt t = (Inr (), u)" "ok u"
    using step_total [OF t assms(2)] by (cases "ad_step ops dt t") auto
  show ?thesis
    using a t u read_inputs_pure [of u] by (cases r) (simp_all add: thn_def bnd_def)
qed

end

section \<open>The F-KR CMMT adapter\<close>

definition fkr_modes :: "int list" where
  "fkr_modes = [1, 3, 6, 8, - 3]"

definition fkr_init :: "DeviceProfile \<Rightarrow> servo res" where
  "fkr_init p = servo_init (flit (1 / 100)) (Some p)"

text \<open>The persistent roles: those of the profile and, of the received process data, the profile velocity.\<close>

definition fkr_persistent_roles :: "DeviceProfile \<Rightarrow> (int \<times> int) list" where
  "fkr_persistent_roles p =
     map (\<lambda>r. (role_index r, role_subindex r)) (prof_persistent p) @
     filter (\<lambda>k. k = (0x6081, 0)) (map (\<lambda>e. (ode_index e, ode_subindex e)) (prof_rx p))"

definition fkr_read_sdo :: "int \<Rightarrow> int \<Rightarrow> nat \<Rightarrow> bytes servo_m" where
  "fkr_read_sdo index subindex sz = od_op (bridge_read_sdo index subindex sz)"

definition validate_mode :: "int \<Rightarrow> unit res" where
  "validate_mode mode = (if mode \<noteq> 0 \<and> mode \<notin> set fkr_modes then Inl DeviceRejectedException else Inr ())"

definition fkr_write_sdo :: "int \<Rightarrow> int \<Rightarrow> bytes \<Rightarrow> unit servo_m" where
  "fkr_write_sdo index subindex payload =
     thn (whenm ((index, subindex) = (0x6060, 0)) (lift (validate_mode (le_sint payload))))
         (od_op (bridge_write_sdo index subindex payload))"

fun validate_rx_modes :: "bytes \<Rightarrow> int \<Rightarrow> ObjectDictionaryEntry list \<Rightarrow> unit res" where
  "validate_rx_modes payload offset [] = Inr ()"
| "validate_rx_modes payload offset (e # es) =
     ebind (byte_length e) (\<lambda>n.
     ebind (if (ode_index e, ode_subindex e) = (0x6060, 0)
            then validate_mode (le_sint (take (nat n) (drop (nat offset) payload))) else Inr ()) (\<lambda>_.
     validate_rx_modes payload (offset + n) es))"

definition fkr_apply_outputs :: "bytes \<Rightarrow> unit servo_m" where
  "fkr_apply_outputs payload =
     bnd (gets (\<lambda>s. prof_rx (device_profile s))) (\<lambda>rx.
     bnd (lift (pdo_size rx)) (\<lambda>expected.
     if int (length payload) \<noteq> expected then raise ValueError
     else thn (lift (validate_rx_modes payload 0 rx)) (od_op (rxpdo_payload_to_od rx payload))))"

definition fkr_step :: "pyfloat \<Rightarrow> unit servo_m" where
  "fkr_step dt = thn (modify (\<lambda>s. s\<lparr>cycle_time := dt\<rparr>)) model_update"

definition fkr_read_inputs :: "bytes servo_m" where
  "fkr_read_inputs = bnd (gets (\<lambda>s. prof_tx (device_profile s))) (\<lambda>tx. od_op (od_to_txpdo_payload tx))"

definition fkr_ops :: "servo adapter_ops" where
  "fkr_ops = \<lparr>ad_read_sdo = fkr_read_sdo, ad_write_sdo = fkr_write_sdo, ad_apply_outputs = fkr_apply_outputs,
     ad_step = fkr_step, ad_read_inputs = fkr_read_inputs,
     ad_od_definition = (\<lambda>i k. od_op (od_definition i k)), ad_od_read = rd, ad_od_write = wr,
     ad_od_write_role = wr_role, ad_persistent_roles = (\<lambda>s. fkr_persistent_roles (device_profile s)),
     ad_validate_parameters = (\<lambda>_. None)\<rparr>"


section \<open>Decoded values fit\<close>

lemma mag_scaled:
  assumes "0 \<le> n" "n < 2 ^ 24" "-149 \<le> e" "e \<le> 104"
  shows "mag 128 (Fin (of_int n * 2 powi e))"
proof -
  define x :: rat where "x = of_int n * 2 powi e"
  have "(of_int n :: rat) \<le> of_int (2 ^ 24)" using assms(2) by (simp only: of_int_le_iff)
  moreover have "(2::rat) powi e \<le> 2 powi 104" using assms(4) by (simp only: powi_le_iff)
  ultimately have "x \<le> of_int (2 ^ 24) * 2 powi 104" unfolding x_def by (rule mult_mono) simp_all
  also have "\<dots> = 2 powi 128" using power_int_add [of "2::rat" 24 104] by simp
  finally have b: "\<bar>x\<bar> \<le> 2 powi 128" using assms(1) by (simp add: x_def)
  have "isf 53 (-1074) x" using assms unfolding x_def by (intro isfI [of _ n e]) auto
  moreover have "\<bar>x\<bar> < lim64"
    unfolding lim64_def by (rule le_less_trans [OF b]) (simp only: powi_less_iff)
  ultimately show ?thesis using b unfolding x_def [symmetric] mag_def by simp
qed

lemma f32_value_xmag: "xmag 128 (f32_value w)"
proof -
  define m e where "m = w mod 2 ^ 23" and "e = (w div 2 ^ 23) mod 2 ^ 8"
  have r: "0 \<le> m" "m < 2 ^ 23" "0 \<le> e" "e < 2 ^ 8" by (simp_all add: m_def e_def)
  define x :: rat where "x = (if e = 0 then of_int m * 2 powi (-149) else of_int (2 ^ 23 + m) * 2 powi (e - 150))"
  have v: "f32_value w = (if e = 255 then (if m = 0 then finf (0x80000000 \<le> w) else NaN)
      else if x = 0 then (if 0x80000000 \<le> w then NZero else Fin 0)
      else Fin (if 0x80000000 \<le> w then - x else x))"
    unfolding f32_value_def Let_def m_def [symmetric] e_def [symmetric] x_def [symmetric] by simp
  show ?thesis
  proof (cases "e = 255")
    case True
    then show ?thesis unfolding v by (simp add: xmag_def finf_def)
  next
    case False
    then have "mag 128 (Fin x)"
      using r mag_scaled [of m "-149"] mag_scaled [of "2 ^ 23 + m" "e - 150"] by (simp add: x_def)
    then have "mag 128 (Fin x)" "mag 128 (Fin (- x))" by (simp_all add: mag_def isf_minus)
    moreover have "mag 128 NZero" by (simp add: mag_def)
    ultimately show ?thesis using False unfolding v by (simp add: xmag_def)
  qed
qed

lemma int_fits:
  assumes "(i, s) \<in> set servo_keys" "(i, s) \<noteq> (0x2183, 0x0C)" "\<bar>m\<bar> \<le> 2 ^ 32"
  shows "fits_type i s (VInt m)"
proof -
  have "of_int \<bar>m\<bar> \<le> (of_int (2 ^ 32) :: rat)" using assms(3) by (simp only: of_int_le_iff)
  then have n: "nmag 32 (VInt m)" by (simp add: nmag_def)
  then have "nmag 240 (VInt m)" "nmag 140 (VInt m)" by (auto intro: nmag_mono [of 32])
  then show ?thesis using assms unfolding fits_type_def by auto
qed

lemma unpack_small:
  assumes "struct_unpack (SInt sgnd n) bs = Inr v" "0 < n" "n \<le> 4"
  shows "\<exists>m. v = VInt m \<and> \<bar>m\<bar> \<le> 2 ^ 32"
proof -
  have l: "length bs = n" and v: "v = VInt (if sgnd then le_sint bs else le_uint bs)"
    using assms(1) by (auto simp: struct_unpack_def split: if_splits)
  have p: "(2::int) ^ (8 * length bs) \<le> 2 ^ 32" unfolding l using assms(3) by (intro power_increasing) simp_all
  have u: "0 \<le> le_uint bs" "le_uint bs < 2 ^ (8 * length bs)" by (simp_all add: le_uint_less)
  have "le_sint bs = le_uint bs \<or> le_sint bs = le_uint bs - 2 ^ (8 * length bs)"
    by (simp add: le_sint_def Let_def)
  then have "\<bar>le_uint bs\<bar> \<le> 2 ^ 32" "\<bar>le_sint bs\<bar> \<le> 2 ^ 32" using p u by linarith+
  with v show ?thesis by simp
qed

lemma decode_fits:
  assumes "type_fits (i, s) t" "(i, s) \<in> set servo_keys" "decode_od_value t bs = Inr v"
  shows "fits_type i s v"
proof -
  define u where "u = normalize_od_data_type t"
  obtain f where f: "map_of DATA_TYPE_FORMATS u = Some f" "struct_unpack f (take (calcsize f) bs) = Inr v"
    using assms(1,3) by (auto simp: type_fits_def decode_od_value_def Let_def u_def split: option.splits)
  show ?thesis
  proof (cases f)
    case (SInt sgnd n)
    then have "0 < n" "n \<le> 4" "(i, s) \<noteq> (0x2183, 0x0C)" using assms(1) f(1) by (auto simp: type_fits_def Let_def u_def)
    then show ?thesis using unpack_small f(2) SInt int_fits [OF assms(2)] by blast
  next
    case SFloat32
    then have "i = 0x2183" "s = 0x0C" using assms(1) f(1) by (auto simp: type_fits_def Let_def u_def)
    moreover have "\<exists>w. v = VFloat (f32_value w)" using f(2) SFloat32 by (auto simp: struct_unpack_def split: if_splits)
    ultimately show ?thesis using f32_value_xmag by (auto simp: limit_kind_def)
  next
    case SBool
    then show ?thesis using assms(1) f(1) by (auto simp: type_fits_def Let_def u_def)
  qed
qed


section \<open>Every access keeps the servo working\<close>

lemma sv_od_snd:
  assumes "sv s" "typed (device_profile s) (snd (m (sv_od s)))"
  shows "sv (snd (od_op m s))"
  using assms by (simp add: od_op_def pym split_def sv_od_update)

lemma typed_write_any:
  assumes "typed p od" "(i, s) \<in> set servo_keys \<Longrightarrow> fits_type i s v"
  shows "typed p (snd (od_write i v s od))"
proof (cases "od_val od i s")
  case None
  then show ?thesis using assms(1) by (simp add: od_write_run od_val_def split: option.splits)
next
  case (Some w)
  have "fits_type i s v"
  proof (cases "(i, s) \<in> set servo_keys")
    case False
    then show ?thesis by (auto simp: fits_type_def servo_keys_def)
  qed (rule assms(2))
  then show ?thesis using typed_put [OF assms(1)] Some by (simp add: od_put_def)
qed

lemma typed_sdo_write:
  assumes "typed p od"
  shows "typed p (snd (bridge_write_sdo i s payload od))"
proof -
  consider (none) "od_def od i s = None" | (ro) d where "od_def od i s = Some d" "lower (def_access d) = ''ro''"
    | (raises) d e where "od_def od i s = Some d" "lower (def_access d) \<noteq> ''ro''" "decode_od_value (def_data_type d) payload = Inl e"
    | (ok) d v where "od_def od i s = Some d" "lower (def_access d) \<noteq> ''ro''" "decode_od_value (def_data_type d) payload = Inr v"
    by (cases "od_def od i s"; cases "decode_od_value (def_data_type (the (od_def od i s))) payload") auto
  then show ?thesis
  proof cases
    case raises
    then show ?thesis using assms by (simp add: bridge_write_sdo_def bnd_def bridge_definition_run lift_run)
  next
    case ok
    have "def_fits od (i, s)" if "(i, s) \<in> set servo_keys" using assms that by (auto simp: typed_def list_all_iff)
    then have "fits_type i s v" if "(i, s) \<in> set servo_keys"
      using that decode_fits [OF _ that ok(3)] ok(1) by (auto simp: def_fits_def od_def_def)
    then have "typed p (od_put i v s od)" unfolding od_put_def by (rule typed_write_any [OF assms])
    then show ?thesis using bridge_write_run [OF ok] by simp
  qed (use assms in \<open>simp_all add: sdo_errors\<close>)
qed

lemma fkr_write_keeps: "sv s \<Longrightarrow> sv (snd (fkr_write_sdo i k payload s))"
proof -
  assume s: "sv s"
  then have "sv (snd (od_op (bridge_write_sdo i k payload) s))"
    by (intro sv_od_snd typed_sdo_write sv_typed)
  then show ?thesis using s
    by (cases "validate_mode (le_sint payload)") (auto simp: fkr_write_sdo_def pym)
qed

lemma typed_rx_loop:
  assumes "typed p od" "list_all rx_fits es"
  shows "typed p (snd (rx_loop payload off es od))"
  using assms
proof (induction es arbitrary: off od)
  case Nil
  then show ?case by (simp add: ret_def)
next
  case (Cons e es)
  have e: "rx_fits e" "list_all rx_fits es" using Cons.prems(2) by simp_all
  then obtain n where n: "byte_length e = Inr n" by (auto simp: rx_fits_def split: sum.splits)
  define raw where "raw = take (nat n) (drop (nat off) payload)"
  show ?case
  proof (cases "is_padding e \<or> off + n > int (length payload)")
    case True
    then show ?thesis using Cons.IH [OF Cons.prems(1) e(2), of "off + n"] Cons.prems(1) n
      by (auto simp: pym Let_def)
  next
    case False
    define i k where "i = ode_index e" and "k = ode_subindex e"
    have key: "(i, k) \<in> set servo_keys" "type_fits (i, k) (ode_data_type e)"
      using e(1) False n by (auto simp: rx_fits_def is_padding_def Let_def i_def k_def)
    show ?thesis
    proof (cases "decode_od_value (ode_data_type e) raw")
      case (Inl x)
      then show ?thesis using False n Cons.prems(1) by (simp add: pym Let_def raw_def bnd_def)
    next
      case (Inr v)
      obtain y where "od_val od i k = Some y" using typed_val [OF Cons.prems(1) key(1)] by blast
      then have w: "od_write i v k od = (Inr (), od_put i v k od)" by (simp add: od_write_put)
      have "typed p (od_put i v k od)"
        unfolding od_put_def by (rule typed_write_any [OF Cons.prems(1)]) (rule decode_fits [OF key(2,1) Inr])
      from Cons.IH [OF this e(2), of "off + n"] show ?thesis
        using False n w Inr by (simp add: pym Let_def bnd_Inr raw_def i_def k_def)
    qed
  qed
qed

lemma fkr_outputs_keep: "sv s \<Longrightarrow> sv (snd (fkr_apply_outputs payload s))"
proof -
  assume s: "sv s"
  have "list_all rx_fits (prof_rx (device_profile s))" using sv_typed [OF s] by (simp add: typed_def)
  then have "sv (snd (od_op (rxpdo_payload_to_od (prof_rx (device_profile s)) payload) s))"
    unfolding rxpdo_payload_to_od_def using s by (intro sv_od_snd typed_rx_loop sv_typed)
  then show ?thesis using s
    by (cases "pdo_size (prof_rx (device_profile s))"; cases "validate_rx_modes payload 0 (prof_rx (device_profile s))")
      (simp_all add: fkr_apply_outputs_def pym)
qed

lemma fkr_step_runs:
  assumes "sv s" "dt_ok dt"
  shows "fst (fkr_step dt s) = Inr () \<and> sv (snd (fkr_step dt s))"
proof -
  have "sv (s\<lparr>cycle_time := dt\<rparr>)" using assms by (simp add: sv_def)
  then show ?thesis using keepsD [OF model_update_keeps] by (fastforce simp: fkr_step_def pym)
qed


lemma rx_reads_pure: "snd (od_op (bridge_read_sdo i k n) s) = s" "snd (fkr_read_inputs s) = s" "snd (rd i k s) = s"
  by (simp_all add: fkr_read_inputs_def rd_def od_op_def pym split_def bridge_read_pure od_reads_pure)

definition save_status_roles :: "(string \<times> int) list" where
  "save_status_roles = [(''parameter_save_status'', 0), (''parameter_save_return_code'', 0), (''parameter_save_return_value'', 1)]"

lemma fkr_role_keeps:
  assumes "sv s" "(r, n) \<in> set save_status_roles"
  shows "sv (snd (wr_role r (VInt n) s))"
proof -
  have "keeps_unit (wr_role r (VInt n))" using assms(2) wr_role_words by (auto simp: save_status_roles_def)
  then show ?thesis using keepsD [OF _ assms(1)] by fastforce
qed

interpretation fkr: total_adapter fkr_ops sv save_status_roles
  by unfold_locales
    (auto simp: fkr_ops_def fkr_read_sdo_def rx_reads_pure fkr_write_keeps fkr_outputs_keep fkr_role_keeps
      dest: fkr_step_runs)

end
