(* ===== verification/CmmtData.thy ===== *)
theory CmmtData
  imports Profile
begin

text \<open>
  The data files of the F-KR CMMT drive as constants: the fixed PDO layout
  (profile/pdo.json), the CiA 402 roles (profile/roles.json), and the CMMT extensions with
  the two presets (device_descriptions/cmmt_as/extensions.json).
\<close>

definition pdo_entry :: "int \<Rightarrow> int \<Rightarrow> string \<Rightarrow> string \<Rightarrow> string option \<Rightarrow> int \<Rightarrow> ObjectDictionaryEntry" where
  "pdo_entry i s n t f d = \<lparr>ode_index = i, ode_subindex = s, ode_name = n, ode_data_type = t, ode_field = f, ode_default = d\<rparr>"

definition role_entry :: "string \<Rightarrow> int \<Rightarrow> int \<Rightarrow> string \<Rightarrow> string \<Rightarrow> string \<Rightarrow> RoleEntry" where
  "role_entry r i s n t a = \<lparr>role_role = r, role_index = i, role_subindex = s, role_name = n, role_data_type = t, role_access = a\<rparr>"

definition preset_value :: "int \<Rightarrow> int \<Rightarrow> odval \<Rightarrow> ConfiguredValue" where
  "preset_value i s v = \<lparr>cfg_index = i, cfg_subindex = s, cfg_value = v\<rparr>"

definition pdo_rx :: "ObjectDictionaryEntry list" where
  "pdo_rx =
    [pdo_entry 0x6040 0 ''Controlword'' ''uint16'' (Some ''controlword'') 0,
     pdo_entry 0x6060 0 ''Modes of operation'' ''int8'' (Some ''mode_of_operation'') 8,
     pdo_entry 0x607A 0 ''Target position'' ''int32'' (Some ''target_position'') 0,
     pdo_entry 0x6081 0 ''Profile velocity'' ''uint32'' (Some ''profile_velocity'') 0,
     pdo_entry 0x60FF 0 ''Target velocity'' ''int32'' (Some ''target_velocity'') 0,
     pdo_entry 0x6071 0 ''Target torque'' ''int16'' (Some ''target_torque'') 0,
     pdo_entry 0x60B1 0 ''Velocity offset'' ''int32'' (Some ''velocity_offset'') 0,
     pdo_entry 0x60B2 0 ''Torque offset'' ''int16'' (Some ''torque_offset'') 0,
     pdo_entry 0x0000 0 ''Padding 8'' ''padding8'' (None) 0]"

definition pdo_tx :: "ObjectDictionaryEntry list" where
  "pdo_tx =
    [pdo_entry 0x6041 0 ''Statusword'' ''uint16'' (Some ''statusword'') 64,
     pdo_entry 0x6061 0 ''Modes of operation display'' ''int8'' (Some ''mode_of_operation_display'') 8,
     pdo_entry 0x6064 0 ''Position actual value'' ''int32'' (Some ''actual_position'') 0,
     pdo_entry 0x606C 0 ''Velocity actual value'' ''int32'' (Some ''actual_velocity'') 0,
     pdo_entry 0x6077 0 ''Torque actual value'' ''int16'' (Some ''actual_torque'') 0,
     pdo_entry 0x0000 0 ''Padding 8'' ''padding8'' (None) 0]"

definition standard_roles :: "RoleEntry list" where
  "standard_roles =
    [role_entry ''software_position_limit_negative'' 0x607D 1 ''Minimum position limit'' ''int32'' ''rw'',
     role_entry ''software_position_limit_positive'' 0x607D 2 ''Maximum position limit'' ''int32'' ''rw'',
     role_entry ''position_window'' 0x6067 0 ''Position window'' ''uint32'' ''rw'',
     role_entry ''position_window_time'' 0x6068 0 ''Position window time'' ''uint16'' ''rw'',
     role_entry ''max_profile_velocity'' 0x607F 0 ''Max profile velocity'' ''uint32'' ''rw'',
     role_entry ''profile_acceleration'' 0x6083 0 ''Profile acceleration'' ''uint32'' ''rw'',
     role_entry ''profile_deceleration'' 0x6084 0 ''Profile deceleration'' ''uint32'' ''rw'',
     role_entry ''homing_method'' 0x6098 0 ''Homing method'' ''int8'' ''rw'',
     role_entry ''homing_speed_search_switch'' 0x6099 1 ''Speed during search for switch'' ''uint32'' ''rw'',
     role_entry ''homing_speed_search_zero'' 0x6099 2 ''Speed during search for zero'' ''uint32'' ''rw'',
     role_entry ''homing_acceleration'' 0x609A 0 ''Homing acceleration'' ''uint32'' ''rw'',
     role_entry ''max_acceleration'' 0x60C5 0 ''Max acceleration'' ''uint32'' ''rw'',
     role_entry ''max_deceleration'' 0x60C6 0 ''Max deceleration'' ''uint32'' ''rw'',
     role_entry ''pp_jerk'' 0x60A4 1 ''Jerk'' ''uint32'' ''rw'']"

definition extension_roles :: "RoleEntry list" where
  "extension_roles =
    [role_entry ''user_position_unit'' 0x216E 1 ''User unit position'' ''uint16'' ''ro'',
     role_entry ''converting_unit_position'' 0x2194 1 ''Resolution position'' ''int8'' ''ro'',
     role_entry ''converting_unit_velocity'' 0x2194 2 ''Resolution velocity'' ''int8'' ''ro'',
     role_entry ''converting_unit_acceleration'' 0x2194 3 ''Resolution acceleration'' ''int8'' ''ro'',
     role_entry ''converting_unit_jerk'' 0x2194 4 ''Resolution jerk'' ''int8'' ''ro'',
     role_entry ''negative_velocity_limit'' 0x2183 12 ''Limit value velocity limit negative direction of movement'' ''float32'' ''rw'',
     role_entry ''csp_interpolation_mode'' 0x217B 13 ''CSP interpolation mode'' ''uint32'' ''rw'',
     role_entry ''sync_mode'' 0x212E 1 ''Synchronisation mode'' ''uint16'' ''rw'',
     role_entry ''sync_cycle_time'' 0x212E 2 ''Cycle time'' ''float32'' ''rw'',
     role_entry ''sync_interpolation_time'' 0x212E 9 ''Interpolation time'' ''float32'' ''rw'',
     role_entry ''output_sync_manager_synchronization_type'' 0x1C32 1 ''Output sync manager synchronization type'' ''uint16'' ''rw'',
     role_entry ''output_sync_manager_cycle_time'' 0x1C32 2 ''Output sync manager cycle time'' ''uint32'' ''rw'',
     role_entry ''device_reset_command'' 0x2000 1 ''Reset device control'' ''uint8'' ''rw'',
     role_entry ''parameter_save_command'' 0x2005 1 ''Save parameter set control'' ''uint8'' ''rw'',
     role_entry ''parameter_save_status'' 0x2005 2 ''Save parameter set status'' ''uint8'' ''ro'',
     role_entry ''parameter_save_selection'' 0x2005 3 ''Save parameter set selection'' ''uint16'' ''rw'',
     role_entry ''parameter_save_return_code'' 0x2005 4 ''Save parameter set return code'' ''uint16'' ''ro'',
     role_entry ''parameter_save_return_value'' 0x2005 5 ''Save parameter set return value'' ''uint16'' ''ro'',
     role_entry ''error_code'' 0x2145 12 ''CMMT most serious error'' ''uint32'' ''ro'']"

definition role_order :: "string list" where
  "role_order =
    [''user_position_unit'',
     ''converting_unit_position'',
     ''converting_unit_velocity'',
     ''converting_unit_acceleration'',
     ''converting_unit_jerk'',
     ''software_position_limit_negative'',
     ''software_position_limit_positive'',
     ''position_window'',
     ''position_window_time'',
     ''max_profile_velocity'',
     ''negative_velocity_limit'',
     ''profile_acceleration'',
     ''profile_deceleration'',
     ''homing_method'',
     ''homing_speed_search_switch'',
     ''homing_speed_search_zero'',
     ''homing_acceleration'',
     ''max_acceleration'',
     ''max_deceleration'',
     ''pp_jerk'',
     ''csp_interpolation_mode'',
     ''sync_mode'',
     ''sync_cycle_time'',
     ''sync_interpolation_time'',
     ''output_sync_manager_synchronization_type'',
     ''output_sync_manager_cycle_time'',
     ''device_reset_command'',
     ''parameter_save_command'',
     ''parameter_save_status'',
     ''parameter_save_selection'',
     ''parameter_save_return_code'',
     ''parameter_save_return_value'',
     ''error_code'']"

definition persistent_role_names :: "string list" where
  "persistent_role_names =
    [''user_position_unit'',
     ''converting_unit_position'',
     ''converting_unit_velocity'',
     ''converting_unit_acceleration'',
     ''converting_unit_jerk'',
     ''software_position_limit_negative'',
     ''software_position_limit_positive'',
     ''position_window'',
     ''position_window_time'',
     ''max_profile_velocity'',
     ''negative_velocity_limit'',
     ''profile_acceleration'',
     ''profile_deceleration'',
     ''homing_method'',
     ''homing_speed_search_switch'',
     ''homing_speed_search_zero'',
     ''homing_acceleration'',
     ''max_acceleration'',
     ''max_deceleration'',
     ''pp_jerk'']"

definition linear_mm :: "ConfiguredValue list" where
  "linear_mm =
    [preset_value 0x216E 1 (VInt 256),
     preset_value 0x2194 1 (VInt 6),
     preset_value 0x2194 2 (VInt 3),
     preset_value 0x2194 3 (VInt 3),
     preset_value 0x2194 4 (VInt 3),
     preset_value 0x607D 1 (VInt (-1000000)),
     preset_value 0x607D 2 (VInt 1000000),
     preset_value 0x6067 0 (VInt 20),
     preset_value 0x6068 0 (VInt 20),
     preset_value 0x607F 0 (VInt 200),
     preset_value 0x2183 12 (VFloat (flit (- (1 / 5)))),
     preset_value 0x6083 0 (VInt 1000),
     preset_value 0x6084 0 (VInt 1000),
     preset_value 0x6098 0 (VInt 37),
     preset_value 0x6099 1 (VInt 100),
     preset_value 0x6099 2 (VInt 50),
     preset_value 0x609A 0 (VInt 100),
     preset_value 0x60C5 0 (VInt 2000),
     preset_value 0x60C6 0 (VInt 2000),
     preset_value 0x60A4 1 (VInt 100000)]"

definition rotary_deg :: "ConfiguredValue list" where
  "rotary_deg =
    [preset_value 0x216E 1 (VInt 16640),
     preset_value 0x2194 1 (VInt 6),
     preset_value 0x2194 2 (VInt 3),
     preset_value 0x2194 3 (VInt 3),
     preset_value 0x2194 4 (VInt 3),
     preset_value 0x607D 1 (VInt (-180000000)),
     preset_value 0x607D 2 (VInt 180000000),
     preset_value 0x6067 0 (VInt 20000),
     preset_value 0x6068 0 (VInt 20),
     preset_value 0x607F 0 (VInt 200000),
     preset_value 0x2183 12 (VFloat (flit (- 200))),
     preset_value 0x6083 0 (VInt 1000000),
     preset_value 0x6084 0 (VInt 1000000),
     preset_value 0x6098 0 (VInt 37),
     preset_value 0x6099 1 (VInt 100000),
     preset_value 0x6099 2 (VInt 50000),
     preset_value 0x609A 0 (VInt 100000),
     preset_value 0x60C5 0 (VInt 2000000),
     preset_value 0x60C6 0 (VInt 2000000),
     preset_value 0x60A4 1 (VInt 100000000)]"

end
