(* ===== verification/Configured.thy ===== *)
theory Configured
  imports Adapter CmmtData
begin

text \<open>
  The dictionary that a profile configures (profile/configured_od.py), for every catalog
  that supports the profile: which definition and which value each entry gets, that roles
  are unique, and that the CMMT profile yields a dictionary the servo can work with.
\<close>

section \<open>Loops that update entries\<close>

definition look :: "VirtualOdModel \<Rightarrow> odkey \<Rightarrow> VirtualOdEntry option" where
  "look od k = map_of (entries od) k"

definition put_ent :: "odkey \<Rightarrow> VirtualOdEntry \<Rightarrow> VirtualOdModel \<Rightarrow> VirtualOdModel" where
  "put_ent k e od = od\<lparr>entries := AList.update k e (entries od)\<rparr>"

definition okeys :: "VirtualOdModel \<Rightarrow> odkey list" where
  "okeys od = map fst (entries od)"

lemma look_put: "look (put_ent k e od) k' = (if k' = k then Some e else look od k')"
  by (simp add: look_def put_ent_def update_conv')

lemma look_keys: "look od k \<noteq> None \<longleftrightarrow> k \<in> set (okeys od)"
  by (simp add: look_def okeys_def map_of_eq_None_iff)

lemma okeys_put: "okeys (put_ent k e od) = (if k \<in> set (okeys od) then okeys od else okeys od @ [k])"
  by (simp add: okeys_def put_ent_def update_keys)

lemma update_loop:
  assumes "\<And>x od e. x \<in> set xs \<Longrightarrow> look od (key x) = Some e \<Longrightarrow> f x od = (Inr (), put_ent (key x) (upd x e) od)"
    and "\<And>x. x \<in> set xs \<Longrightarrow> key x \<in> set (okeys od)" and "distinct (map key xs)"
  shows "\<exists>od'. forM f xs od = (Inr (), od') \<and> okeys od' = okeys od \<and>
    (\<forall>k. look od' k = (case map_of (map (\<lambda>x. (key x, x)) xs) k of
        None \<Rightarrow> look od k | Some x \<Rightarrow> map_option (upd x) (look od k)))"
  using assms
proof (induction xs arbitrary: od)
  case Nil
  then show ?case by (simp add: ret_def)
next
  case (Cons x xs)
  obtain e where e: "look od (key x) = Some e" using Cons.prems(2) [of x] look_keys [of od "key x"] by auto
  define od1 where "od1 = put_ent (key x) (upd x e) od"
  have x: "f x od = (Inr (), od1)" using Cons.prems(1) [of x od e] e by (simp add: od1_def)
  have k1: "okeys od1 = okeys od" using Cons.prems(2) [of x] by (simp add: od1_def okeys_put)
  have "\<exists>od'. forM f xs od1 = (Inr (), od') \<and> okeys od' = okeys od1 \<and>
    (\<forall>k. look od' k = (case map_of (map (\<lambda>x. (key x, x)) xs) k of
        None \<Rightarrow> look od1 k | Some x \<Rightarrow> map_option (upd x) (look od1 k)))"
    using Cons.prems k1 by (intro Cons.IH) auto
  then obtain od' where od': "forM f xs od1 = (Inr (), od')" "okeys od' = okeys od1"
    "\<And>k. look od' k = (case map_of (map (\<lambda>x. (key x, x)) xs) k of
        None \<Rightarrow> look od1 k | Some x \<Rightarrow> map_option (upd x) (look od1 k))" by blast
  have none: "map_of (map (\<lambda>x. (key x, x)) xs) (key x) = None"
    using Cons.prems(3) by (auto simp: map_of_eq_None_iff)
  have "look od' k = (case map_of (map (\<lambda>x. (key x, x)) (x # xs)) k of
        None \<Rightarrow> look od k | Some x \<Rightarrow> map_option (upd x) (look od k))" for k
    using od'(3) [of k] none e by (auto simp: od1_def look_put split: option.splits)
  then show ?case using x od' k1 by (simp add: pym bnd_Inr)
qed

lemma forM_filter: "(\<And>x. x \<in> set xs \<Longrightarrow> \<not> P x \<Longrightarrow> f x = ret ()) \<Longrightarrow> forM f xs s = forM f (filter P xs) s"
proof (induction xs arbitrary: s)
  case (Cons x xs)
  then have "forM f xs = forM f (filter P xs)" by (intro ext) simp
  then show ?case using Cons.prems [of x] by (cases "P x") (simp_all add: thn_def bnd_def ret_def)
qed simp

section \<open>Loading the catalog\<close>

definition catalog_entry :: "(int \<times> int) \<times> CatalogEntry \<Rightarrow> odval \<Rightarrow> VirtualOdEntry" where
  "catalog_entry = (\<lambda>((i, s), c) v.
     \<lparr>ent_definition = \<lparr>def_index = i, def_subindex = s, def_name = cat_name c, def_data_type = cat_data_type c,
        def_bit_size = cat_bit_size c, def_access = cat_access c, def_default = v, def_role = None,
        def_rxpdo = False, def_txpdo = False\<rparr>, ent_value = v\<rparr>)"

text \<open>Entries are stored under their own address, each key once.\<close>

definition addressed_entries :: "VirtualOdModel \<Rightarrow> bool" where
  "addressed_entries od \<longleftrightarrow> distinct (okeys od) \<and>
     (\<forall>k e. look od k = Some e \<longrightarrow> k = storage_key (def_index (ent_definition e)) (def_subindex (ent_definition e)))"

lemma addressed_put:
  assumes "addressed_entries od" "k = storage_key (def_index (ent_definition e)) (def_subindex (ent_definition e))"
  shows "addressed_entries (put_ent k e od)"
  using assms by (auto simp: addressed_entries_def okeys_put look_put look_keys)

lemma load_entry_run:
  assumes "load_entry ((i, s), c) od = (Inr (), od')"
  shows "\<exists>v. default_value (cat_data_type c) (cat_bit_size c) = Inr v \<and>
    od' = put_ent (storage_key i s) (catalog_entry ((i, s), c) v) od"
  using assms
  by (cases "default_value (cat_data_type c) (cat_bit_size c)")
    (auto simp: pym od_define_def void_def no_changes_def catalog_entry_def put_ent_def Let_def)

lemma load_loop:
  assumes "forM load_entry cat od = (Inr (), od')" "addressed_entries od"
  shows "addressed_entries od' \<and>
    (\<forall>k. k \<notin> set (map (\<lambda>((i, s), c). storage_key i s) cat) \<longrightarrow> look od' k = look od k) \<and>
    (distinct (map fst cat) \<longrightarrow> (\<forall>((i, s), c) \<in> set cat. \<exists>v. default_value (cat_data_type c) (cat_bit_size c) = Inr v \<and>
       look od' (storage_key i s) = Some (catalog_entry ((i, s), c) v)))"
  using assms
proof (induction cat arbitrary: od)
  case Nil
  then show ?case by (simp add: ret_def)
next
  case (Cons x cat)
  obtain i s c where x: "x = ((i, s), c)" by (cases x) auto
  obtain od1 where od1: "load_entry x od = (Inr (), od1)" "forM load_entry cat od1 = (Inr (), od')"
    using Cons.prems(1) by (cases "load_entry x od"; cases "fst (load_entry x od)") (auto simp: pym bnd_def)
  obtain v where v: "default_value (cat_data_type c) (cat_bit_size c) = Inr v"
    "od1 = put_ent (storage_key i s) (catalog_entry ((i, s), c) v) od"
    using load_entry_run od1(1) x by blast
  have a1: "addressed_entries od1" unfolding v(2) by (rule addressed_put [OF Cons.prems(2)]) (simp add: catalog_entry_def)
  note ih = Cons.IH [OF od1(2) a1]
  have "look od' (storage_key i s) = Some (catalog_entry ((i, s), c) v)" if "distinct (map fst (x # cat))"
  proof -
    have "storage_key i s \<notin> set (map (\<lambda>((i, s), c). storage_key i s) cat)" using that x by force
    then show ?thesis using ih v(2) by (simp add: look_put)
  qed
  then show ?case using ih v x by (auto simp: look_put)
qed


section \<open>Overlays\<close>

definition overlaid :: "od_changes \<Rightarrow> VirtualOdEntry \<Rightarrow> VirtualOdEntry" where
  "overlaid c e = \<lparr>ent_definition = replace_def (ent_definition e) c,
     ent_value = (case chg_default c of Some v \<Rightarrow> v | None \<Rightarrow> ent_value e)\<rparr>"

lemma overlay_run:
  "look od (storage_key i s) = Some e \<Longrightarrow>
   void (od_overlay i s c) od = (Inr (), put_ent (storage_key i s) (overlaid c e) od)"
  by (simp add: void_def od_overlay_def pym Let_def look_def put_ent_def overlaid_def)

lemma overlaid_address [simp]:
  "def_index (ent_definition (overlaid c e)) = def_index (ent_definition e)"
  "def_subindex (ent_definition (overlaid c e)) = def_subindex (ent_definition e)"
  by (simp_all add: overlaid_def replace_def_def)

definition role_key :: "RoleEntry \<Rightarrow> odkey" where
  "role_key r = storage_key (role_index r) (role_subindex r)"

definition role_changes :: "RoleEntry \<Rightarrow> od_changes" where
  "role_changes r = no_changes\<lparr>chg_name := Some (role_name r), chg_data_type := Some (role_data_type r),
     chg_bit_size := Some (case expected_data_type_bits (role_data_type r) of Inr b \<Rightarrow> b | Inl _ \<Rightarrow> 0),
     chg_access := Some (role_access r), chg_role := Some (role_role r)\<rparr>"

definition pdo_key :: "ObjectDictionaryEntry \<Rightarrow> odkey" where
  "pdo_key e = storage_key (ode_index e) (ode_subindex e)"

definition pdo_changes :: "bool \<Rightarrow> ObjectDictionaryEntry \<Rightarrow> od_changes" where
  "pdo_changes rx e = no_changes\<lparr>chg_name := Some (ode_name e), chg_data_type := Some (ode_data_type e),
     chg_bit_size := Some (case bit_length e of Inr b \<Rightarrow> b | Inl _ \<Rightarrow> 0), chg_default := Some (VInt (ode_default e)),
     chg_role := ode_field e, chg_rxpdo := (if rx then Some True else None), chg_txpdo := (if rx then None else Some True)\<rparr>"

definition cfg_key :: "ConfiguredValue \<Rightarrow> odkey" where
  "cfg_key c = storage_key (cfg_index c) (cfg_subindex c)"

definition cfg_upd :: "ConfiguredValue \<Rightarrow> VirtualOdEntry \<Rightarrow> VirtualOdEntry" where
  "cfg_upd c e = e\<lparr>ent_value := cfg_value c\<rparr>"

abbreviation real_pdo :: "ObjectDictionaryEntry list \<Rightarrow> ObjectDictionaryEntry list" where
  "real_pdo es \<equiv> filter (\<lambda>e. ode_index e \<noteq> 0) es"

text \<open>The entry that a profile makes of the catalog's entry under a key.\<close>

definition updated :: "('a \<Rightarrow> odkey) \<Rightarrow> ('a \<Rightarrow> VirtualOdEntry \<Rightarrow> VirtualOdEntry) \<Rightarrow> 'a list \<Rightarrow> odkey \<Rightarrow> VirtualOdEntry \<Rightarrow> VirtualOdEntry" where
  "updated key upd xs k e = (case map_of (map (\<lambda>x. (key x, x)) xs) k of None \<Rightarrow> e | Some x \<Rightarrow> upd x e)"

definition final_entry :: "DeviceProfile \<Rightarrow> odkey \<Rightarrow> VirtualOdEntry \<Rightarrow> VirtualOdEntry" where
  "final_entry p k e =
     updated pdo_key (\<lambda>x. overlaid (pdo_changes False x)) (real_pdo (prof_tx p)) k
    (updated pdo_key (\<lambda>x. overlaid (pdo_changes True x)) (real_pdo (prof_rx p)) k
    (updated cfg_key cfg_upd (case prof_config p of None \<Rightarrow> [] | Some cs \<Rightarrow> cs) k
    (updated role_key (\<lambda>r. overlaid (role_changes r)) (prof_roles p) k e)))"

text \<open>A profile whose loops touch each key once and whose types are known.\<close>

definition plain_profile :: "DeviceProfile \<Rightarrow> bool" where
  "plain_profile p \<longleftrightarrow>
     distinct (map role_key (prof_roles p)) \<and> distinct (map pdo_key (real_pdo (prof_rx p))) \<and>
     distinct (map pdo_key (real_pdo (prof_tx p))) \<and>
     distinct (map cfg_key (case prof_config p of None \<Rightarrow> [] | Some cs \<Rightarrow> cs)) \<and>
     list_all (\<lambda>r. case expected_data_type_bits (role_data_type r) of Inr _ \<Rightarrow> True | Inl _ \<Rightarrow> False) (prof_roles p) \<and>
     list_all (\<lambda>e. case bit_length e of Inr _ \<Rightarrow> True | Inl _ \<Rightarrow> False) (prof_rx p @ prof_tx p) \<and>
     list_all (\<lambda>r. role_index r \<noteq> 0) (prof_roles p) \<and>
     list_all (\<lambda>c. list_ex (\<lambda>r. role_key r = cfg_key c) (prof_roles p)) (case prof_config p of None \<Rightarrow> [] | Some cs \<Rightarrow> cs)"

lemma plain_types:
  assumes "plain_profile p"
  shows "r \<in> set (prof_roles p) \<Longrightarrow> \<exists>b. expected_data_type_bits (role_data_type r) = Inr b"
    "x \<in> set (prof_rx p @ prof_tx p) \<Longrightarrow> \<exists>b. bit_length x = Inr b"
proof -
  have "list_all (\<lambda>r. case expected_data_type_bits (role_data_type r) of Inr _ \<Rightarrow> True | Inl _ \<Rightarrow> False) (prof_roles p)"
    "list_all (\<lambda>e. case bit_length e of Inr _ \<Rightarrow> True | Inl _ \<Rightarrow> False) (prof_rx p @ prof_tx p)"
    using assms unfolding plain_profile_def by blast+
  then show "r \<in> set (prof_roles p) \<Longrightarrow> \<exists>b. expected_data_type_bits (role_data_type r) = Inr b"
    "x \<in> set (prof_rx p @ prof_tx p) \<Longrightarrow> \<exists>b. bit_length x = Inr b"
    unfolding list_all_iff
    by (cases "expected_data_type_bits (role_data_type r)"; cases "bit_length x"; force)+
qed

lemma overlay_role_run:
  assumes "expected_data_type_bits (role_data_type r) = Inr b" "look od (role_key r) = Some e"
  shows "overlay_role r od = (Inr (), put_ent (role_key r) (overlaid (role_changes r) e) od)"
  using overlay_run [of od "role_index r" "role_subindex r" e "role_changes r"] assms
  by (simp add: overlay_role_def pym role_changes_def role_key_def)

lemma overlay_pdo_run:
  assumes "bit_length x = Inr b" "look od (pdo_key x) = Some e" "ode_index x \<noteq> 0"
  shows "overlay_pdo_entry rx x od = (Inr (), put_ent (pdo_key x) (overlaid (pdo_changes rx x) e) od)"
  using overlay_run [of od "ode_index x" "ode_subindex x" e "pdo_changes rx x"] assms
  by (simp add: overlay_pdo_entry_def pym pdo_changes_def pdo_key_def)

lemma apply_configured_run:
  assumes "look od (cfg_key c) = Some e"
  shows "apply_configured c od = (Inr (), put_ent (cfg_key c) (cfg_upd c e) od)"
  using assms
  by (simp add: apply_configured_def pym has_entry_def write_internal_def set_value_def look_def cfg_key_def cfg_upd_def put_ent_def)

lemma emap_all: "emap f xs = Inr ys \<Longrightarrow> x \<in> set xs \<Longrightarrow> \<exists>y. f x = Inr y"
  by (induction xs arbitrary: ys) (auto simp: ebind_Inr_iff)

lemma validated_keys:
  assumes "validate_catalog_support p = Inr ()"
  shows "r \<in> set (prof_roles p) \<Longrightarrow> role_index r \<noteq> 0 \<Longrightarrow> (role_index r, role_subindex r) \<in> set (map fst (prof_catalog p))"
    "e \<in> set (prof_rx p @ prof_tx p) \<Longrightarrow> ode_index e \<noteq> 0 \<Longrightarrow> (ode_index e, ode_subindex e) \<in> set (map fst (prof_catalog p))"
proof -
  obtain ys where ys: "emap (check_entry (prof_catalog p))
      (map role_address (prof_roles p) @ map pdo_address (prof_rx p) @ map pdo_address (prof_tx p)) = Inr ys"
    using assms by (auto simp: validate_catalog_support_def ebind_Inr_iff)
  have c: "(i, s) \<in> set (map fst (prof_catalog p))" if "check_entry (prof_catalog p) (i, s, t) = Inr y" "i \<noteq> 0" for i s t y
    using that by (auto split: option.splits dest: map_of_SomeD) (metis fst_conv image_eqI map_of_SomeD)
  show "r \<in> set (prof_roles p) \<Longrightarrow> role_index r \<noteq> 0 \<Longrightarrow> (role_index r, role_subindex r) \<in> set (map fst (prof_catalog p))"
    using emap_all [OF ys, of "role_address r"] c by (fastforce simp: role_address_def)
  show "e \<in> set (prof_rx p @ prof_tx p) \<Longrightarrow> ode_index e \<noteq> 0 \<Longrightarrow> (ode_index e, ode_subindex e) \<in> set (map fst (prof_catalog p))"
    using emap_all [OF ys, of "pdo_address e"] c by (fastforce simp: pdo_address_def)
qed


lemma thn_Inr: "thn m k s = (Inr x, t) \<Longrightarrow> \<exists>u. m s = (Inr (), u) \<and> k u = (Inr x, t)"
  by (auto simp: thn_def bnd_def split: prod.splits sum.splits)

lemma looks_updated:
  assumes "\<forall>k. look od' k = (case map_of (map (\<lambda>x. (key x, x)) xs) k of
        None \<Rightarrow> look od k | Some x \<Rightarrow> map_option (upd x) (look od k))"
  shows "look od' k = map_option (updated key upd xs k) (look od k)"
  using assms by (cases "look od k") (auto simp: updated_def split: option.splits)

lemma updated_address:
  assumes "\<And>x e. def_index (ent_definition (upd x e)) = def_index (ent_definition e)"
    "\<And>x e. def_subindex (ent_definition (upd x e)) = def_subindex (ent_definition e)"
  shows "def_index (ent_definition (updated key upd xs k e)) = def_index (ent_definition e)"
    "def_subindex (ent_definition (updated key upd xs k e)) = def_subindex (ent_definition e)"
  using assms by (simp_all add: updated_def split: option.splits)

lemma final_address:
  "def_index (ent_definition (final_entry p k e)) = def_index (ent_definition e)"
  "def_subindex (ent_definition (final_entry p k e)) = def_subindex (ent_definition e)"
  unfolding final_entry_def by (simp_all add: updated_address cfg_upd_def)

lemma addressed_updated:
  assumes "addressed_entries od" "okeys od' = okeys od" "\<And>k. look od' k = map_option (g k) (look od k)"
    "\<And>k e. def_index (ent_definition (g k e)) = def_index (ent_definition e)"
    "\<And>k e. def_subindex (ent_definition (g k e)) = def_subindex (ent_definition e)"
  shows "addressed_entries od'"
  using assms by (auto simp: addressed_entries_def)

text \<open>The loops after the catalog is loaded: each runs through and updates its entries.\<close>

definition loaded :: "DeviceProfile \<Rightarrow> VirtualOdModel \<Rightarrow> bool" where
  "loaded p od \<longleftrightarrow> plain_profile p \<and> validate_catalog_support p = Inr () \<and>
     (\<forall>(i, s) \<in> set (map fst (prof_catalog p)). storage_key i s \<in> set (okeys od))"

lemma loaded_okeys: "loaded p od \<Longrightarrow> okeys od' = okeys od \<Longrightarrow> loaded p od'"
  by (simp add: loaded_def)

lemma loaded_role: "loaded p od \<Longrightarrow> r \<in> set (prof_roles p) \<Longrightarrow> role_key r \<in> set (okeys od)"
  using validated_keys(1) [of p r] by (fastforce simp: loaded_def role_key_def plain_profile_def list_all_iff)

lemma loaded_pdo: "loaded p od \<Longrightarrow> x \<in> set (prof_rx p @ prof_tx p) \<Longrightarrow> ode_index x \<noteq> 0 \<Longrightarrow> pdo_key x \<in> set (okeys od)"
  using validated_keys(2) [of p x] by (fastforce simp: loaded_def pdo_key_def)

lemma role_loop:
  assumes l: "loaded p od"
  shows "\<exists>od'. forM overlay_role (prof_roles p) od = (Inr (), od') \<and> okeys od' = okeys od \<and>
    (\<forall>k. look od' k = map_option (updated role_key (\<lambda>r. overlaid (role_changes r)) (prof_roles p) k) (look od k))"
proof -
  have p: "plain_profile p" using l by (simp add: loaded_def)
  have "\<exists>od'. forM overlay_role (prof_roles p) od = (Inr (), od') \<and> okeys od' = okeys od \<and>
    (\<forall>k. look od' k = (case map_of (map (\<lambda>x. (role_key x, x)) (prof_roles p)) k of
        None \<Rightarrow> look od k | Some x \<Rightarrow> map_option (overlaid (role_changes x)) (look od k)))"
  proof (rule update_loop)
    fix r assume r: "r \<in> set (prof_roles p)"
    then show "role_key r \<in> set (okeys od)" by (rule loaded_role [OF l])
    fix od' e assume "look od' (role_key r) = Some e"
    moreover obtain b where "expected_data_type_bits (role_data_type r) = Inr b"
      using plain_types(1) [OF p r] by blast
    ultimately show "overlay_role r od' = (Inr (), put_ent (role_key r) (overlaid (role_changes r) e) od')"
      by (intro overlay_role_run)
  qed (use p in \<open>simp add: plain_profile_def\<close>)
  then show ?thesis using looks_updated [of _ od "\<lambda>r. overlaid (role_changes r)" role_key "prof_roles p"] by blast
qed

lemma config_loop:
  assumes l: "loaded p od"
  shows "\<exists>od'. apply_non_pdo_configuration (prof_config p) od = (Inr (), od') \<and> okeys od' = okeys od \<and>
    (\<forall>k. look od' k = map_option (updated cfg_key cfg_upd (case prof_config p of None \<Rightarrow> [] | Some cs \<Rightarrow> cs) k) (look od k))"
proof -
  have p: "plain_profile p" using l by (simp add: loaded_def)
  define cs where "cs = (case prof_config p of None \<Rightarrow> [] | Some cs \<Rightarrow> cs)"
  have "\<exists>od'. forM apply_configured cs od = (Inr (), od') \<and> okeys od' = okeys od \<and>
    (\<forall>k. look od' k = (case map_of (map (\<lambda>x. (cfg_key x, x)) cs) k of
        None \<Rightarrow> look od k | Some x \<Rightarrow> map_option (cfg_upd x) (look od k)))"
  proof (rule update_loop)
    fix c assume "c \<in> set cs"
    then obtain r where "r \<in> set (prof_roles p)" "role_key r = cfg_key c"
      using p by (auto simp: plain_profile_def cs_def list_all_iff list_ex_iff)
    then show "cfg_key c \<in> set (okeys od)" using loaded_role [OF l] by metis
  qed (use p in \<open>auto simp: plain_profile_def cs_def intro: apply_configured_run\<close>)
  moreover have "apply_non_pdo_configuration (prof_config p) od = forM apply_configured cs od"
    by (auto simp: apply_non_pdo_configuration_def cs_def split: option.splits)
  ultimately show ?thesis using looks_updated [of _ od cfg_upd cfg_key cs] by (auto simp: cs_def)
qed

lemma pdo_loop:
  assumes l: "loaded p od" and es: "set es \<subseteq> set (prof_rx p @ prof_tx p)" "distinct (map pdo_key (real_pdo es))"
  shows "\<exists>od'. forM (overlay_pdo_entry b) es od = (Inr (), od') \<and> okeys od' = okeys od \<and>
    (\<forall>k. look od' k = map_option (updated pdo_key (\<lambda>x. overlaid (pdo_changes b x)) (real_pdo es) k) (look od k))"
proof -
  have p: "plain_profile p" using l by (simp add: loaded_def)
  have "\<exists>od'. forM (overlay_pdo_entry b) (real_pdo es) od = (Inr (), od') \<and> okeys od' = okeys od \<and>
    (\<forall>k. look od' k = (case map_of (map (\<lambda>x. (pdo_key x, x)) (real_pdo es)) k of
      None \<Rightarrow> look od k | Some x \<Rightarrow> map_option (overlaid (pdo_changes b x)) (look od k)))"
  proof (rule update_loop)
    fix x assume x: "x \<in> set (real_pdo es)"
    then show "pdo_key x \<in> set (okeys od)" using loaded_pdo [OF l, of x] es(1) by auto
    fix od' e assume "look od' (pdo_key x) = Some e"
    moreover obtain bits where "bit_length x = Inr bits"
      using plain_types(2) [OF p, of x] x es(1) by auto
    ultimately show "overlay_pdo_entry b x od' = (Inr (), put_ent (pdo_key x) (overlaid (pdo_changes b x) e) od')"
      using x by (intro overlay_pdo_run) auto
  qed (rule es(2))
  then show ?thesis
    using looks_updated [of _ od "\<lambda>x. overlaid (pdo_changes b x)" pdo_key "real_pdo es"]
      forM_filter [of es "\<lambda>e. ode_index e \<noteq> 0" "overlay_pdo_entry b" od] by (auto simp: overlay_pdo_entry_def)
qed

definition overlays :: "DeviceProfile \<Rightarrow> (VirtualOdModel, unit) pym" where
  "overlays p = thn (overlay_required_non_pdo_od (prof_roles p)) (thn (apply_non_pdo_configuration (prof_config p))
     (thn (overlay_pdo True (prof_rx p)) (overlay_pdo False (prof_tx p))))"

lemma overlays_run:
  assumes l: "loaded p od"
  shows "\<exists>od'. overlays p od = (Inr (), od') \<and> okeys od' = okeys od \<and> (\<forall>k. look od' k = map_option (final_entry p k) (look od k))"
proof -
  have d: "distinct (map pdo_key (real_pdo (prof_rx p)))" "distinct (map pdo_key (real_pdo (prof_tx p)))"
    using l by (simp_all add: loaded_def plain_profile_def)
  obtain o2 where o2: "forM overlay_role (prof_roles p) od = (Inr (), o2)" "okeys o2 = okeys od"
    "\<And>k. look o2 k = map_option (updated role_key (\<lambda>r. overlaid (role_changes r)) (prof_roles p) k) (look od k)"
    using role_loop [OF l] by blast
  obtain o3 where o3: "apply_non_pdo_configuration (prof_config p) o2 = (Inr (), o3)" "okeys o3 = okeys o2"
    "\<And>k. look o3 k = map_option (updated cfg_key cfg_upd (case prof_config p of None \<Rightarrow> [] | Some cs \<Rightarrow> cs) k) (look o2 k)"
    using config_loop [OF loaded_okeys [OF l o2(2)]] by blast
  note l3 = loaded_okeys [OF l, of o3, unfolded o3(2) o2(2), OF refl]
  obtain o4 where o4: "forM (overlay_pdo_entry True) (prof_rx p) o3 = (Inr (), o4)" "okeys o4 = okeys o3"
    "\<And>k. look o4 k = map_option (updated pdo_key (\<lambda>x. overlaid (pdo_changes True x)) (real_pdo (prof_rx p)) k) (look o3 k)"
    using pdo_loop [OF l3 _ d(1), of True] by auto
  obtain o5 where o5: "forM (overlay_pdo_entry False) (prof_tx p) o4 = (Inr (), o5)" "okeys o5 = okeys o4"
    "\<And>k. look o5 k = map_option (updated pdo_key (\<lambda>x. overlaid (pdo_changes False x)) (real_pdo (prof_tx p)) k) (look o4 k)"
    using pdo_loop [OF loaded_okeys [OF l3 o4(2)] _ d(2), of False] by auto
  have "overlays p od = (Inr (), o5)" using o2 o3 o4 o5
    by (simp add: overlays_def overlay_required_non_pdo_od_def overlay_pdo_def thn_def bnd_Inr)
  moreover have "look o5 k = map_option (final_entry p k) (look od k)" for k
    unfolding o5 o4 o3 o2 by (cases "look od k") (simp_all add: final_entry_def)
  ultimately show ?thesis using o2 o3 o4 o5 by auto
qed

lemma configured_init_overlays:
  "configured_init p = thn (lift (validate_catalog_support p)) (thn (load_catalog (prof_catalog p)) (overlays p))"
  by (simp add: configured_init_def overlays_def)

lemma loaded_catalog:
  assumes "forM load_entry (prof_catalog p) od_empty = (Inr (), od)" "plain_profile p" "validate_catalog_support p = Inr ()"
    "distinct (map fst (prof_catalog p))"
  shows "loaded p od"
proof -
  have e: "addressed_entries od_empty" by (simp add: addressed_entries_def od_empty_def look_def okeys_def)
  show ?thesis
    using load_loop [OF assms(1) e] assms(2-4) look_keys [of od] unfolding loaded_def by force
qed

lemma configured_entries:
  assumes od: "ConfiguredObjectDictionary p = Inr od" and p: "plain_profile p"
    and cat: "distinct (map fst (prof_catalog p))"
  shows "addressed_entries od"
    "\<And>k. k \<notin> set (map (\<lambda>((i, s), c). storage_key i s) (prof_catalog p)) \<Longrightarrow> look od k = None"
    "\<And>i s c. ((i, s), c) \<in> set (prof_catalog p) \<Longrightarrow> \<exists>v. default_value (cat_data_type c) (cat_bit_size c) = Inr v \<and>
       look od (storage_key i s) = Some (final_entry p (storage_key i s) (catalog_entry ((i, s), c) v))"
proof -
  have "configured_init p od_empty = (Inr (), od)"
    using od by (auto simp: ConfiguredObjectDictionary_def split: prod.splits sum.splits)
  then obtain od1 where v: "validate_catalog_support p = Inr ()"
    and r1: "forM load_entry (prof_catalog p) od_empty = (Inr (), od1)" and r2: "overlays p od1 = (Inr (), od)"
    by (auto simp: configured_init_overlays load_catalog_def lift_run dest!: thn_Inr)
  have e: "addressed_entries od_empty" "look od_empty k = None" for k
    by (simp_all add: addressed_entries_def od_empty_def look_def okeys_def)
  note l1 = load_loop [OF r1 e(1)]
  have o: "okeys od = okeys od1" and fin: "\<And>k. look od k = map_option (final_entry p k) (look od1 k)"
    using overlays_run [OF loaded_catalog [OF r1 p v cat]] r2 by auto
  show "addressed_entries od"
    by (rule addressed_updated [OF conjunct1 [OF l1] o fin]) (simp_all add: final_address)
  show "look od k = None" if "k \<notin> set (map (\<lambda>((i, s), c). storage_key i s) (prof_catalog p))" for k
    using l1 that e(2) fin by auto
  show "\<exists>v. default_value (cat_data_type c) (cat_bit_size c) = Inr v \<and>
      look od (storage_key i s) = Some (final_entry p (storage_key i s) (catalog_entry ((i, s), c) v))"
    if "((i, s), c) \<in> set (prof_catalog p)" for i s c
    using l1 cat that fin by fastforce
qed

text \<open>The dictionary is built whenever the catalog supports the profile and its types have defaults.\<close>

definition defaults_known :: "catalog_objects \<Rightarrow> bool" where
  "defaults_known cat \<longleftrightarrow> list_all (\<lambda>(k, c). case default_value (cat_data_type c) (cat_bit_size c) of Inl _ \<Rightarrow> False | Inr _ \<Rightarrow> True) cat"

lemma load_runs: "defaults_known cat \<Longrightarrow> \<exists>od'. forM load_entry cat od = (Inr (), od')"
proof (induction cat arbitrary: od)
  case (Cons x cat)
  obtain i s c where x: "x = ((i, s), c)" by (cases x) auto
  obtain v where "default_value (cat_data_type c) (cat_bit_size c) = Inr v"
    using Cons.prems x by (auto simp: defaults_known_def split: sum.splits)
  then have "\<exists>od1. load_entry x od = (Inr (), od1)"
    by (auto simp: x pym od_define_def void_def no_changes_def Let_def)
  then obtain od1 where "load_entry x od = (Inr (), od1)" by blast
  then show ?case using Cons.IH [of od1] Cons.prems by (auto simp: defaults_known_def thn_def bnd_Inr)
qed (simp add: ret_def)

lemma configured_exists:
  assumes "plain_profile p" "validate_catalog_support p = Inr ()" "distinct (map fst (prof_catalog p))"
    "defaults_known (prof_catalog p)"
  shows "\<exists>od. ConfiguredObjectDictionary p = Inr od"
proof -
  obtain od1 where r1: "forM load_entry (prof_catalog p) od_empty = (Inr (), od1)" using load_runs [OF assms(4)] by blast
  obtain od where "overlays p od1 = (Inr (), od)" using overlays_run [OF loaded_catalog [OF r1 assms(1-3)]] by blast
  then show ?thesis using r1 assms(2)
    by (simp add: ConfiguredObjectDictionary_def configured_init_overlays load_catalog_def lift_run thn_def bnd_Inr)
qed

section \<open>What an entry ends up with\<close>

definition at_key :: "('a \<Rightarrow> odkey) \<Rightarrow> 'a list \<Rightarrow> odkey \<Rightarrow> 'a option" where
  "at_key key xs k = map_of (map (\<lambda>x. (key x, x)) xs) k"

abbreviation tx_at :: "DeviceProfile \<Rightarrow> odkey \<Rightarrow> ObjectDictionaryEntry option" where
  "tx_at p \<equiv> at_key pdo_key (real_pdo (prof_tx p))"

abbreviation rx_at :: "DeviceProfile \<Rightarrow> odkey \<Rightarrow> ObjectDictionaryEntry option" where
  "rx_at p \<equiv> at_key pdo_key (real_pdo (prof_rx p))"

abbreviation preset_at :: "DeviceProfile \<Rightarrow> odkey \<Rightarrow> ConfiguredValue option" where
  "preset_at p \<equiv> at_key cfg_key (case prof_config p of None \<Rightarrow> [] | Some cs \<Rightarrow> cs)"

abbreviation role_of :: "DeviceProfile \<Rightarrow> odkey \<Rightarrow> RoleEntry option" where
  "role_of p \<equiv> at_key role_key (prof_roles p)"

text \<open>The value: the default of the process data entry, else the preset, else the catalog's.\<close>

definition final_value :: "DeviceProfile \<Rightarrow> odkey \<Rightarrow> odval \<Rightarrow> odval" where
  "final_value p k v =
     (case tx_at p k of Some x \<Rightarrow> VInt (ode_default x)
      | None \<Rightarrow> (case rx_at p k of Some x \<Rightarrow> VInt (ode_default x)
      | None \<Rightarrow> (case preset_at p k of Some c \<Rightarrow> cfg_value c | None \<Rightarrow> v)))"

definition final_type :: "DeviceProfile \<Rightarrow> odkey \<Rightarrow> string \<Rightarrow> string" where
  "final_type p k t =
     supplied_str (map_option ode_data_type (tx_at p k))
    (supplied_str (map_option ode_data_type (rx_at p k))
    (supplied_str (map_option role_data_type (role_of p k)) t))"

definition named :: "string option \<Rightarrow> string option \<Rightarrow> string option" where
  "named c old = (case c of None \<Rightarrow> old | Some r \<Rightarrow> if r = '''' then old else Some r)"

definition final_role :: "DeviceProfile \<Rightarrow> odkey \<Rightarrow> string option" where
  "final_role p k =
     named (Option.bind (tx_at p k) ode_field)
    (named (Option.bind (rx_at p k) ode_field)
    (named (map_option role_role (role_of p k)) None))"

lemmas final_defs = final_entry_def updated_def at_key_def overlaid_def replace_def_def role_changes_def
  pdo_changes_def cfg_upd_def no_changes_def

lemma final_entry_value: "ent_value (final_entry p k e) = final_value p k (ent_value e)"
  by (simp add: final_value_def final_defs split: option.splits)

lemma final_entry_type: "def_data_type (ent_definition (final_entry p k e)) = final_type p k (def_data_type (ent_definition e))"
  by (simp add: final_type_def supplied_str_def final_defs split: option.splits)

lemma final_entry_role:
  "def_role (ent_definition e) = None \<Longrightarrow> def_role (ent_definition (final_entry p k e)) = final_role p k"
  by (auto simp: final_role_def named_def final_defs split: option.splits)

lemma final_entry_pdo:
  assumes "\<not> def_rxpdo (ent_definition e)" "\<not> def_txpdo (ent_definition e)"
    "def_rxpdo (ent_definition (final_entry p k e)) \<or> def_txpdo (ent_definition (final_entry p k e))"
  shows "def_default (ent_definition (final_entry p k e)) = final_value p k (ent_value e)"
  using assms by (simp add: final_value_def final_defs split: option.splits)

section \<open>The dictionary fits the servo\<close>

lemma filter_single:
  assumes "distinct (map fst es)" "map_of es k = Some e" "\<And>x. x \<in> set es \<Longrightarrow> P x \<longleftrightarrow> fst x = k"
  shows "filter P es = [(k, e)]"
  using assms
proof (induction es)
  case (Cons x es)
  show ?case
  proof (cases "fst x = k")
    case True
    then have "x = (k, e)" using Cons.prems(2) by (cases x) auto
    moreover have "\<not> P y" if "y \<in> set es" for y
    proof -
      have "fst y \<noteq> k" using that Cons.prems(1) True by (metis distinct.simps(2) image_eqI list.set_map list.simps(9))
      then show ?thesis using Cons.prems(3) [of y] that by simp
    qed
    ultimately show ?thesis using Cons.prems(3) [of x] True by (simp add: filter_False)
  next
    case False
    then show ?thesis using Cons by (cases x) auto
  qed
qed simp

lemma unique_role:
  assumes "addressed_entries od" "look od (storage_key i s) = Some e"
    and r: "\<And>k e. look od k = Some e \<Longrightarrow> def_role (ent_definition e) = Some r \<longleftrightarrow> k = storage_key i s"
  shows "role_at od r i s"
proof -
  have a: "storage_key i s = storage_key (def_index (ent_definition e)) (def_subindex (ent_definition e))"
    and d: "distinct (map fst (entries od))"
    using assms(1,2) by (auto simp: addressed_entries_def okeys_def)
  have "filter (\<lambda>x. def_role (ent_definition (snd x)) = Some r) (entries od) = [(storage_key i s, e)]"
    using d assms(2) r by (intro filter_single) (auto simp: look_def)
  then show ?thesis using a by (simp add: role_at_def definitions_def filter_map comp_def)
qed

definition command_keys :: "(int \<times> int) list" where
  "command_keys = [(0x2000, 1), (0x2005, 1), (0x2005, 2), (0x2005, 4), (0x2005, 5)]"

definition profile_addresses :: "DeviceProfile \<Rightarrow> (int \<times> int) list" where
  "profile_addresses p = map (\<lambda>r. (role_index r, role_subindex r)) (prof_roles p) @
     map (\<lambda>e. (ode_index e, ode_subindex e)) (real_pdo (prof_rx p) @ real_pdo (prof_tx p))"

text \<open>Values of the presets and the process data that surely fit.\<close>

definition surely_fits :: "int \<Rightarrow> int \<Rightarrow> odval \<Rightarrow> bool" where
  "surely_fits i s v = (case v of VInt n \<Rightarrow> \<bar>n\<bar> \<le> 2 ^ 32
     | VFloat f \<Rightarrow> (i, s) = (0x2183, 0x0C) \<and> f \<in> set [flit (- (1 / 5)), flit (- 200)] | _ \<Rightarrow> False)"

definition key_checked :: "DeviceProfile \<Rightarrow> int \<times> int \<Rightarrow> bool" where
  "key_checked p = (\<lambda>(i, s). let k = storage_key i s in
     (i, s) \<in> set (profile_addresses p) \<and> i \<noteq> 0 \<and>
     (if tx_at p k = None \<and> rx_at p k = None \<and> preset_at p k = None then (i, s) \<in> set command_keys
      else surely_fits i s (final_value p k (VInt 0))) \<and>
     final_type p k '''' \<noteq> '''' \<and> type_fits (i, s) (final_type p k ''''))"

definition role_checked :: "DeviceProfile \<Rightarrow> string \<times> int \<times> int \<Rightarrow> bool" where
  "role_checked p = (\<lambda>(r, i, s). final_role p (storage_key i s) = Some r \<and> (i, s) \<in> set (profile_addresses p) \<and> i \<noteq> 0 \<and>
     list_all (\<lambda>x. role_role x = r \<longrightarrow> (role_index x, role_subindex x) = (i, s)) (prof_roles p) \<and>
     list_all (\<lambda>x. ode_field x = Some r \<longrightarrow> (ode_index x, ode_subindex x) = (i, s)) (real_pdo (prof_rx p) @ real_pdo (prof_tx p)))"

definition preset_checked :: "DeviceProfile \<Rightarrow> ConfiguredValue \<Rightarrow> bool" where
  "preset_checked p c \<longleftrightarrow> (cfg_index c, cfg_subindex c) \<in> set (profile_addresses p) \<and> cfg_index c \<noteq> 0 \<and>
     surely_fits (cfg_index c) (cfg_subindex c) (cfg_value c)"

definition servo_profile :: "DeviceProfile \<Rightarrow> bool" where
  "servo_profile p \<longleftrightarrow> plain_profile p \<and> list_all (key_checked p) servo_keys \<and>
     list_all (role_checked p) servo_roles \<and>
     list_all (preset_checked p) (case prof_config p of None \<Rightarrow> [] | Some cs \<Rightarrow> cs) \<and> list_all rx_fits (prof_rx p)"

text \<open>The catalog defaults of the command objects are the number 0.\<close>

definition numeric_commands :: "catalog_objects \<Rightarrow> bool" where
  "numeric_commands cat \<longleftrightarrow> list_all (\<lambda>k. case map_of cat k of None \<Rightarrow> False
     | Some c \<Rightarrow> default_value (cat_data_type c) (cat_bit_size c) = Inr (VInt 0)) command_keys"

lemma int_fits_any:
  assumes "\<bar>m\<bar> \<le> 2 ^ 32"
  shows "fits_type i s (VInt m)"
proof -
  have "of_int \<bar>m\<bar> \<le> (of_int (2 ^ 32) :: rat)" using assms by (simp only: of_int_le_iff)
  then have n: "nmag 32 (VInt m)" by (simp add: nmag_def)
  then have "nmag 240 (VInt m)" "nmag 140 (VInt m)" "nmag 128 (VInt m)" by (auto intro: nmag_mono [of 32])
  then show ?thesis using assms unfolding fits_type_def limit_kind_def by auto
qed

lemma flit_mag: "\<bar>x\<bar> \<le> 2 powi k \<Longrightarrow> -1074 \<le> k \<Longrightarrow> k \<le> 1023 \<Longrightarrow> mag k (flit x)"
  by (simp add: flit_def mag_round64)

lemma surely_fits_type: "surely_fits i s v \<Longrightarrow> fits_type i s v"
proof (cases v)
  case (VInt n)
  assume "surely_fits i s v"
  then show ?thesis using VInt int_fits_any [of n i s] by (simp add: surely_fits_def)
next
  case (VFloat f)
  assume v: "surely_fits i s v"
  have b: "\<bar>- (1 / 5) :: rat\<bar> \<le> 2 powi 8" "\<bar>- 200 :: rat\<bar> \<le> 2 powi 8" by code_simp+
  have "mag 8 (flit (- (1 / 5)))" "mag 8 (flit (- 200))" by (rule flit_mag [OF b(1)] flit_mag [OF b(2)]; simp)+
  then have "mag 128 (flit (- (1 / 5)))" "mag 128 (flit (- 200))" by (auto intro: mag_mono)
  then have "mag 128 f" using v VFloat unfolding surely_fits_def by auto
  then show ?thesis using v VFloat by (auto simp: surely_fits_def limit_kind_def mag_xmag)
qed (simp_all add: surely_fits_def)

lemma at_key_address:
  "at_key key xs k = Some x \<Longrightarrow> x \<in> set xs \<and> key x = k"
  by (auto simp: at_key_def dest!: map_of_SomeD)

lemma named_some: "named c old = Some r \<Longrightarrow> c = Some r \<or> old = Some r"
  by (auto simp: named_def split: option.splits if_splits)

lemma checked_role_key:
  assumes "role_checked p (r, i, s)" "final_role p k = Some r"
  shows "k = storage_key i s"
proof -
  have "(\<exists>x. tx_at p k = Some x \<and> ode_field x = Some r) \<or> (\<exists>x. rx_at p k = Some x \<and> ode_field x = Some r) \<or>
    (\<exists>x. role_of p k = Some x \<and> role_role x = r)"
    using assms(2) by (auto simp: final_role_def bind_eq_Some_conv dest!: named_some)
  then consider (pdo) x where "x \<in> set (real_pdo (prof_rx p) @ real_pdo (prof_tx p))" "pdo_key x = k" "ode_field x = Some r"
    | (role) x where "x \<in> set (prof_roles p)" "role_key x = k" "role_role x = r"
  proof (elim disjE exE conjE)
    fix x assume x: "tx_at p k = Some x" "ode_field x = Some r"
    show thesis using at_key_address [OF x(1)] x(2) by (intro pdo) auto
  next
    fix x assume x: "rx_at p k = Some x" "ode_field x = Some r"
    show thesis using at_key_address [OF x(1)] x(2) by (intro pdo) auto
  next
    fix x assume x: "role_of p k = Some x" "role_role x = r"
    show thesis using at_key_address [OF x(1)] x(2) by (intro role) auto
  qed
  then show ?thesis
    using assms(1) unfolding role_checked_def list_all_iff by cases (fastforce simp: pdo_key_def role_key_def)+
qed

lemma configured_address:
  assumes "ConfiguredObjectDictionary p = Inr od" "plain_profile p" "distinct (map fst (prof_catalog p))"
    and k: "(i, s) \<in> set (profile_addresses p)" "i \<noteq> 0"
  shows "\<exists>c v. map_of (prof_catalog p) (i, s) = Some c \<and> default_value (cat_data_type c) (cat_bit_size c) = Inr v \<and>
    look od (storage_key i s) = Some (final_entry p (storage_key i s) (catalog_entry ((i, s), c) v))"
proof -
  have v: "validate_catalog_support p = Inr ()"
    using assms(1) by (auto simp: ConfiguredObjectDictionary_def configured_init_def lift_run
        split: prod.splits sum.splits dest!: thn_Inr)
  have "(i, s) \<in> set (map fst (prof_catalog p))"
    using k validated_keys [OF v] by (auto simp: profile_addresses_def)
  then obtain c where c: "map_of (prof_catalog p) (i, s) = Some c"
    by (metis map_of_eq_None_iff not_None_eq set_map)
  from configured_entries(3) [OF assms(1-3) map_of_SomeD [OF c]] show ?thesis using c by auto
qed

lemma final_value_irrelevant:
  "\<not> (tx_at p k = None \<and> rx_at p k = None \<and> preset_at p k = None) \<Longrightarrow> final_value p k v = final_value p k w"
  by (auto simp: final_value_def split: option.splits)

lemma final_type_irrelevant: "final_type p k '''' \<noteq> '''' \<Longrightarrow> final_type p k t = final_type p k ''''"
  by (auto simp: final_type_def supplied_str_def split: option.splits if_splits)

lemma command_words: "list_all (\<lambda>k. k \<in> set word_keys) command_keys"
  by code_simp

lemma configured_typed:
  assumes od: "ConfiguredObjectDictionary p = Inr od" and p: "servo_profile p"
    and cat: "distinct (map fst (prof_catalog p))" "numeric_commands (prof_catalog p)"
  shows "typed p od"
proof -
  have pl: "plain_profile p" and keys: "\<And>k. k \<in> set servo_keys \<Longrightarrow> key_checked p k"
    and roles: "\<And>x. x \<in> set servo_roles \<Longrightarrow> role_checked p x"
    and pre: "list_all (preset_checked p) (case prof_config p of None \<Rightarrow> [] | Some cs \<Rightarrow> cs)"
    and rx: "list_all rx_fits (prof_rx p)"
    using p by (auto simp: servo_profile_def list_all_iff)
  note at = configured_address [OF od pl cat(1)]
  have key: "value_fits od (i, s) \<and> pdo_default_fits od (i, s) \<and> def_fits od (i, s)" if k: "(i, s) \<in> set servo_keys" for i s
  proof -
    let ?k = "storage_key i s"
    have c: "key_checked p (i, s)" using keys k by blast
    then obtain c v where e: "map_of (prof_catalog p) (i, s) = Some c"
      "default_value (cat_data_type c) (cat_bit_size c) = Inr v"
      "look od ?k = Some (final_entry p ?k (catalog_entry ((i, s), c) v))"
      using at [of i s] by (auto simp: key_checked_def Let_def)
    have f: "fits_type i s (final_value p ?k v)"
    proof (cases "tx_at p ?k = None \<and> rx_at p ?k = None \<and> preset_at p ?k = None")
      case True
      then have "(i, s) \<in> set command_keys" using c by (simp add: key_checked_def Let_def)
      then have "v = VInt 0" and "(i, s) \<in> set word_keys"
        using cat(2) e command_words unfolding numeric_commands_def list_all_iff by fastforce+
      then show ?thesis using True fits_word [of i s] by (simp add: final_value_def)
    next
      case False
      then have "surely_fits i s (final_value p ?k (VInt 0))" using c by (simp only: key_checked_def Let_def split if_False)
      then have "fits_type i s (final_value p ?k (VInt 0))" by (rule surely_fits_type)
      then show ?thesis using final_value_irrelevant [OF False, of v "VInt 0"] by simp
    qed
    have "value_fits od (i, s)" using e(3) f
      by (simp add: value_fits_def od_val_def look_def final_entry_value catalog_entry_def)
    moreover have "pdo_default_fits od (i, s)" using e(3) f final_entry_pdo [of "catalog_entry ((i, s), c) v" p ?k]
      by (simp add: pdo_default_fits_def look_def catalog_entry_def Let_def)
    moreover have "type_fits (i, s) (final_type p ?k (cat_data_type c))"
      using c unfolding key_checked_def Let_def split by (metis final_type_irrelevant)
    then have "def_fits od (i, s)" using e(3)
      by (simp add: def_fits_def look_def final_entry_type catalog_entry_def)
    ultimately show ?thesis by blast
  qed
  have role: "role_at od r i s" if "(r, i, s) \<in> set servo_roles" for r i s
  proof -
    have c: "role_checked p (r, i, s)" using roles that by blast
    then obtain e where e: "look od (storage_key i s) = Some e" using at [of i s] by (auto simp: role_checked_def)
    show ?thesis
    proof (rule unique_role [OF configured_entries(1) [OF od pl cat(1)] e])
      fix k e' assume k: "look od k = Some e'"
      then have "k \<in> set (map (\<lambda>((i, s), c). storage_key i s) (prof_catalog p))"
        using configured_entries(2) [OF od pl cat(1), of k] by fastforce
      then obtain j t c where j: "((j, t), c) \<in> set (prof_catalog p)" "k = storage_key j t" by auto
      then obtain v where "e' = final_entry p k (catalog_entry ((j, t), c) v)"
        using configured_entries(3) [OF od pl cat(1) j(1)] k by auto
      then have "def_role (ent_definition e') = final_role p k"
        by (simp add: final_entry_role catalog_entry_def)
      then show "def_role (ent_definition e') = Some r \<longleftrightarrow> k = storage_key i s"
        using checked_role_key [OF c, of k] c unfolding role_checked_def by auto
    qed
  qed
  have "config_fits od c" if "preset_checked p c" for c
    using that at [of "cfg_index c" "cfg_subindex c"]
    by (auto simp: config_fits_def preset_checked_def od_val_def look_def intro: surely_fits_type)
  then show ?thesis
    using key role pre rx by (auto simp: typed_def list_all_iff split: option.splits)
qed

section \<open>The CMMT profile\<close>

text \<open>The parameters of an axis mode (\<open>CmmtAsDescription.__init__\<close>).\<close>

definition cmmt_parameters :: "string \<Rightarrow> ConfiguredValue list res" where
  "cmmt_parameters mode =
     (if mode = ''linear'' then Inr linear_mm else if mode = ''rotary'' then Inr rotary_deg else Inl ValueError)"

definition cmmt_profile :: "catalog_objects \<Rightarrow> ConfiguredValue list \<Rightarrow> DeviceProfile res" where
  "cmmt_profile cat parameters =
     mk_profile cat parameters pdo_rx pdo_tx standard_roles extension_roles role_order persistent_role_names"

lemma linear_plain: "case cmmt_profile [] linear_mm of Inl _ \<Rightarrow> False | Inr p \<Rightarrow> plain_profile p"
  by code_simp

lemma linear_roles: "case cmmt_profile [] linear_mm of Inl _ \<Rightarrow> False | Inr p \<Rightarrow> list_all (role_checked p) servo_roles"
  by code_simp

lemma linear_rx: "case cmmt_profile [] linear_mm of Inl _ \<Rightarrow> False | Inr p \<Rightarrow> list_all rx_fits (prof_rx p)"
  by code_simp

lemma linear_presets: "case cmmt_profile [] linear_mm of Inl _ \<Rightarrow> False | Inr p \<Rightarrow> list_all (preset_checked p) (case prof_config p of None \<Rightarrow> [] | Some cs \<Rightarrow> cs)"
  by code_simp

lemma linear_keys: "case cmmt_profile [] linear_mm of Inl _ \<Rightarrow> False | Inr p \<Rightarrow> list_all (key_checked p) servo_keys"
  by code_simp

lemmas linear_profile = linear_plain linear_roles linear_rx linear_presets linear_keys

lemma rotary_plain: "case cmmt_profile [] rotary_deg of Inl _ \<Rightarrow> False | Inr p \<Rightarrow> plain_profile p"
  by code_simp

lemma rotary_roles: "case cmmt_profile [] rotary_deg of Inl _ \<Rightarrow> False | Inr p \<Rightarrow> list_all (role_checked p) servo_roles"
  by code_simp

lemma rotary_rx: "case cmmt_profile [] rotary_deg of Inl _ \<Rightarrow> False | Inr p \<Rightarrow> list_all rx_fits (prof_rx p)"
  by code_simp

lemma rotary_presets: "case cmmt_profile [] rotary_deg of Inl _ \<Rightarrow> False | Inr p \<Rightarrow> list_all (preset_checked p) (case prof_config p of None \<Rightarrow> [] | Some cs \<Rightarrow> cs)"
  by code_simp

lemma rotary_keys: "case cmmt_profile [] rotary_deg of Inl _ \<Rightarrow> False | Inr p \<Rightarrow> list_all (key_checked p) servo_keys"
  by code_simp

lemmas rotary_profile = rotary_plain rotary_roles rotary_rx rotary_presets rotary_keys

lemma catalog_selectors:
  "prof_roles (p\<lparr>prof_catalog := cat\<rparr>) = prof_roles p" "prof_rx (p\<lparr>prof_catalog := cat\<rparr>) = prof_rx p"
  "prof_tx (p\<lparr>prof_catalog := cat\<rparr>) = prof_tx p" "prof_config (p\<lparr>prof_catalog := cat\<rparr>) = prof_config p"
  by simp_all

lemma checks_ignore_catalog:
  "plain_profile (p\<lparr>prof_catalog := cat\<rparr>) = plain_profile p"
  "key_checked (p\<lparr>prof_catalog := cat\<rparr>) = key_checked p"
  "role_checked (p\<lparr>prof_catalog := cat\<rparr>) = role_checked p"
  "preset_checked (p\<lparr>prof_catalog := cat\<rparr>) = preset_checked p"
proof -
  note sel = catalog_selectors [where p = p and cat = cat]
  have *: "final_value (p\<lparr>prof_catalog := cat\<rparr>) = final_value p" "final_type (p\<lparr>prof_catalog := cat\<rparr>) = final_type p"
    "final_role (p\<lparr>prof_catalog := cat\<rparr>) = final_role p" "profile_addresses (p\<lparr>prof_catalog := cat\<rparr>) = profile_addresses p"
    by (simp_all only: fun_eq_iff final_value_def final_type_def final_role_def profile_addresses_def sel simp_thms)
  show "plain_profile (p\<lparr>prof_catalog := cat\<rparr>) = plain_profile p"
    by (simp only: plain_profile_def sel)
  show "key_checked (p\<lparr>prof_catalog := cat\<rparr>) = key_checked p"
    by (simp only: key_checked_def * sel)
  show "role_checked (p\<lparr>prof_catalog := cat\<rparr>) = role_checked p"
    by (simp only: role_checked_def * sel)
  show "preset_checked (p\<lparr>prof_catalog := cat\<rparr>) = preset_checked p"
    by (simp only: fun_eq_iff preset_checked_def * sel simp_thms)
qed

lemma servo_profile_catalog: "servo_profile (p\<lparr>prof_catalog := cat\<rparr>) = servo_profile p"
  by (simp only: servo_profile_def checks_ignore_catalog catalog_selectors)

lemma cmmt_profile_catalog:
  "cmmt_profile cat v = map_sum id (\<lambda>p. p\<lparr>prof_catalog := cat\<rparr>) (cmmt_profile [] v)"
  by (auto simp: cmmt_profile_def mk_profile_def ebind_def Let_def split: sum.splits)

lemma cmmt_profile_serves:
  assumes "cmmt_parameters mode = Inr v"
  shows "\<exists>p. cmmt_profile cat v = Inr p \<and> servo_profile p \<and> prof_catalog p = cat"
proof -
  have "v = linear_mm \<or> v = rotary_deg" using assms by (auto simp: cmmt_parameters_def split: if_splits)
  then obtain p where "cmmt_profile [] v = Inr p" "servo_profile p"
    using linear_profile rotary_profile unfolding servo_profile_def by (elim disjE) (auto split: sum.splits)
  then show ?thesis by (simp add: cmmt_profile_catalog [of cat] servo_profile_catalog)
qed

lemma start_dt_ok: "dt_ok (flit (1 / 100))"
proof -
  have "mag 0 (flit (1 / 100))" by (rule flit_mag) simp_all
  moreover have "2 powi (-30) \<le> fval (flit (1 / 100))" by code_simp
  ultimately show ?thesis by (simp add: dt_ok_def mag_def)
qed

text \<open>A drive started on a catalog that supports the profile works: it satisfies the servo's invariant.\<close>

lemma fkr_init_ok:
  assumes "fkr_init p = Inr s" "servo_profile p" "distinct (map fst (prof_catalog p))" "numeric_commands (prof_catalog p)"
  shows "sv s" "device_profile s = p"
proof -
  obtain od where od: "ConfiguredObjectDictionary p = Inr od"
    using assms(1) by (auto simp: fkr_init_def servo_init_def ebind_Inr_iff)
  have t: "typed p od" by (rule configured_typed [OF od assms(2-4)])
  have "(''target_position'', 0x607A, 0) \<in> set servo_roles" by code_simp
  then obtain d where d: "definition_by_role ''target_position'' od = (Inr d, od)" "def_index d = 0x607A" "def_subindex d = 0"
    using role_at_lookup [OF typed_role [OF t]] by blast
  have "((0x607A :: int), (0 :: int)) \<in> set servo_keys" by code_simp
  then obtain v where v: "od_val od 0x607A 0 = Some v" "nmag 240 v" using typed_val [OF t, of "0x607A" 0] by auto
  have "fst (read_role ''target_position'' od) = Inr v"
    using d v(1) by (simp add: read_role_def bnd_def od_read_some)
  moreover have "float_of_int 5 = Inr (Fin 5)" by code_simp
  then have "mag 60 (Fin 5)" using float_of_int_mag [of 5 60] by auto
  ultimately show "sv s" "device_profile s = p"
    using assms(1) od t v(2) start_dt_ok
    by (auto simp: fkr_init_def servo_init_def ebind_Inr_iff sv_def)
qed

text \<open>What the catalog of a working drive provides; the F-KR adapter then starts.\<close>

definition supports :: "DeviceProfile \<Rightarrow> bool" where
  "supports p \<longleftrightarrow> validate_catalog_support p = Inr () \<and> distinct (map fst (prof_catalog p)) \<and>
     defaults_known (prof_catalog p) \<and> numeric_commands (prof_catalog p)"

lemma typed_read_role:
  assumes "typed p od" "(r, i, s) \<in> set servo_roles" "(i, s) \<in> set servo_keys"
  shows "\<exists>v. fst (read_role r od) = Inr v \<and> fits_type i s v"
proof -
  obtain d where d: "definition_by_role r od = (Inr d, od)" "def_index d = i" "def_subindex d = s"
    using role_at_lookup [OF typed_role [OF assms(1,2)]] by blast
  obtain v where "od_val od i s = Some v" "fits_type i s v" using typed_val [OF assms(1,3)] by blast
  then show ?thesis using d by (simp add: read_role_def bnd_def od_read_some)
qed

lemma fkr_starts:
  assumes "servo_profile p" "supports p"
  shows "\<exists>s. fkr_init p = Inr s"
proof -
  obtain od where od: "ConfiguredObjectDictionary p = Inr od"
    using configured_exists [of p] assms by (auto simp: supports_def servo_profile_def)
  have t: "typed p od" using configured_typed [OF od assms(1)] assms(2) by (simp add: supports_def)
  have k: "list_all (\<lambda>(r, i, s). (r, i, s) \<in> set servo_roles \<and> (i, s) \<in> set word_keys \<and> (i, s) \<in> set servo_keys)
      [(''mode_of_operation'', 0x6060, 0), (''device_reset_command'', 0x2000, 1), (''parameter_save_command'', 0x2005, 1)]"
    "(''target_position'', 0x607A, 0) \<in> set servo_roles" "((0x607A :: int), (0 :: int)) \<in> set servo_keys"
    by code_simp+
  have i: "\<exists>n. ebind (fst (read_role r od)) py_int = Inr n"
    if "(r, i, s) \<in> set servo_roles" "(i, s) \<in> set word_keys" "(i, s) \<in> set servo_keys" for r i s
    using typed_read_role [OF t that(1,3)] that(2) by (auto simp: fits_word ebind_Inr_iff)
  obtain a b c where "ebind (fst (read_role ''mode_of_operation'' od)) py_int = Inr a"
    "ebind (fst (read_role ''device_reset_command'' od)) py_int = Inr b"
    "ebind (fst (read_role ''parameter_save_command'' od)) py_int = Inr c"
    using i [of "''mode_of_operation''" "0x6060" 0] i [of "''device_reset_command''" "0x2000" 1]
      i [of "''parameter_save_command''" "0x2005" 1] k(1) unfolding list.pred_inject prod.case by blast
  moreover obtain v where "fst (read_role ''target_position'' od) = Inr v" using typed_read_role [OF t k(2,3)] by blast
  ultimately show ?thesis using od by (simp add: fkr_init_def servo_init_def)
qed

text \<open>
  C26. In the configured dictionary every address of the profile holds the default of its transmit
  entry, else that of its receive entry, else the value of the preset, else the default of its
  catalog type.
\<close>

theorem configured_value:
  assumes "ConfiguredObjectDictionary p = Inr od" "plain_profile p" "distinct (map fst (prof_catalog p))"
    and "(i, s) \<in> set (profile_addresses p)" "i \<noteq> 0"
  shows "\<exists>c v. map_of (prof_catalog p) (i, s) = Some c \<and> default_value (cat_data_type c) (cat_bit_size c) = Inr v \<and>
    od_val od i s = Some (final_value p (storage_key i s) v)"
  using configured_address [OF assms]
  by (auto simp: od_val_def look_def final_entry_value catalog_entry_def)

end
