(* ===== verification/Specimen.thy ===== *)
theory Specimen
  imports Configured
begin

text \<open>
  A concrete drive for the witnesses: the linear CMMT profile on the smallest catalog that
  supports it, with one object for each role and each process data entry.
\<close>

definition specimen_entry :: "string \<Rightarrow> CatalogEntry" where
  "specimen_entry t = \<lparr>cat_name = ''object'', cat_data_type = t,
     cat_bit_size = (case expected_data_type_bits t of Inr b \<Rightarrow> b | Inl _ \<Rightarrow> 0), cat_access = ''rw''\<rparr>"

definition specimen_catalog :: catalog_objects where
  "specimen_catalog =
     map (\<lambda>r. ((role_index r, role_subindex r), specimen_entry (role_data_type r))) (standard_roles @ extension_roles) @
     map (\<lambda>e. ((ode_index e, ode_subindex e), specimen_entry (ode_data_type e)))
       (filter (\<lambda>e. ode_index e \<noteq> 0) (pdo_rx @ pdo_tx))"

definition specimen_profile :: DeviceProfile where
  "specimen_profile = (case cmmt_profile specimen_catalog linear_mm of Inr p \<Rightarrow> p | Inl _ \<Rightarrow> undefined)"

definition specimen :: servo where
  "specimen = (case fkr_init specimen_profile of Inr s \<Rightarrow> s | Inl _ \<Rightarrow> undefined)"

lemma specimen_catalog_ok: "distinct (map fst specimen_catalog)" "numeric_commands specimen_catalog" "defaults_known specimen_catalog"
  by code_simp+

lemma specimen_validates:
  "case cmmt_profile specimen_catalog linear_mm of Inl _ \<Rightarrow> False | Inr p \<Rightarrow> validate_catalog_support p = Inr ()"
  by code_simp

lemma specimen_profile_ok: "cmmt_profile specimen_catalog linear_mm = Inr specimen_profile"
  "servo_profile specimen_profile" "prof_catalog specimen_profile = specimen_catalog" "supports specimen_profile"
proof -
  obtain p where p: "cmmt_profile specimen_catalog linear_mm = Inr p" "servo_profile p" "prof_catalog p = specimen_catalog"
    using cmmt_profile_serves [of "''linear''"] by (auto simp: cmmt_parameters_def)
  then have "specimen_profile = p" by (simp add: specimen_profile_def)
  with p show "cmmt_profile specimen_catalog linear_mm = Inr specimen_profile"
    "servo_profile specimen_profile" "prof_catalog specimen_profile = specimen_catalog" "supports specimen_profile"
    using specimen_validates specimen_catalog_ok by (simp_all add: supports_def)
qed

lemma specimen_ok: "fkr_init specimen_profile = Inr specimen" "sv specimen" "device_profile specimen = specimen_profile"
proof -
  show "fkr_init specimen_profile = Inr specimen"
    using fkr_starts [OF specimen_profile_ok(2,4)] by (auto simp: specimen_def)
  then show "sv specimen" "device_profile specimen = specimen_profile"
    using fkr_init_ok specimen_profile_ok(2,3) specimen_catalog_ok by metis+
qed

end
