(* ===== verification/Drive.thy ===== *)
theory Drive
  imports Configured
begin

text \<open>
  The F-KR CMMT drive as its master sees it: started from the CMMT profile, then any
  sequence of SDO downloads, process data and cycles. Refused accesses raise and leave the
  drive where it was brought; cycles never raise.
\<close>

datatype fkr_action = DownloadSdo int int bytes | WriteOutputs bytes | RunStep pyfloat

primrec fkr_act :: "fkr_action \<Rightarrow> unit servo_m" where
  "fkr_act (DownloadSdo i k payload) = fkr_write_sdo i k payload"
| "fkr_act (WriteOutputs payload) = fkr_apply_outputs payload"
| "fkr_act (RunStep dt) = fkr_step dt"

fun fkr_run :: "fkr_action list \<Rightarrow> servo \<Rightarrow> servo" where
  "fkr_run [] s = s"
| "fkr_run (a # as) s = fkr_run as (snd (fkr_act a s))"

definition admissible :: "fkr_action \<Rightarrow> bool" where
  "admissible a = (case a of RunStep dt \<Rightarrow> dt_ok dt | _ \<Rightarrow> True)"

lemma fkr_act_keeps: "admissible a \<Longrightarrow> sv s \<Longrightarrow> sv (snd (fkr_act a s))"
  using fkr.write_sdo_ok [of s] fkr.apply_outputs_ok [of s] fkr.step_total [of s]
  by (cases a) (auto simp: admissible_def fkr_ops_def)

lemma fkr_run_keeps: "list_all admissible as \<Longrightarrow> sv s \<Longrightarrow> sv (fkr_run as s)"
  by (induction as arbitrary: s) (auto intro: fkr_act_keeps)

text \<open>
  C1. An F-KR drive that is started from the CMMT profile on any catalog that supports the profile
  starts, and then, after any sequence of SDO downloads, process data (accepted or refused) and
  cycles of between 2^-30 and 1 second, the next cycle returns: no float overflow, division by
  zero, missing entry or wrong value kind ever raises in the servo.
\<close>

theorem fkr_never_raises:
  assumes "cmmt_parameters mode = Inr v" "cmmt_profile cat v = Inr p" "supports p"
  shows "\<exists>s. fkr_init p = Inr s \<and>
    (\<forall>as dt. list_all admissible as \<and> dt_ok dt \<longrightarrow> fst (fkr_step dt (fkr_run as s)) = Inr ())"
proof -
  have p: "servo_profile p" using cmmt_profile_serves [OF assms(1), of cat] assms(2) by auto
  obtain s where s: "fkr_init p = Inr s" using fkr_starts [OF p assms(3)] by blast
  then have "sv s" using fkr_init_ok(1) [OF s p] assms(3) by (simp add: supports_def)
  then have "fst (fkr_step dt (fkr_run as s)) = Inr ()" if "list_all admissible as" "dt_ok dt" for as dt
    using fkr.step_total [OF fkr_run_keeps [OF that(1)] that(2), of s] by (simp add: fkr_ops_def)
  with s show ?thesis by blast
qed

end
