(* ===== verification/Fault.thy ===== *)
theory Fault
  imports PyText PyFloat "HOL-Library.Sublist"
begin

unbundle bit_operations_syntax

text \<open>
  The axis guard (diagnostics/fault.py): diagnostics, and the state machine that stands
  between the master and a faulted model. \<open>time.time()\<close> and \<open>uuid4()\<close> are readings of
  the environment: the argument \<open>env\<close> gives the value of each reading of one request,
  and the printed JSON lines are the list \<open>af_log\<close>.
\<close>

section \<open>Diagnostics\<close>

record environment =
  wall :: "nat \<Rightarrow> pyfloat"
  uuid :: "nat \<Rightarrow> string"
  monotonic :: pyfloat

text \<open>The detail of a diagnostic is a text of the program or the text of an exception.\<close>

datatype detail = Text string | Exc pyexc

record diag_context =
  ctx_last_valid_at :: "pyfloat option"
  ctx_feedback_valid :: bool
  ctx_restart_required :: bool
  ctx_execution_failure :: "detail option"

record diagnostic =
  dg_id :: string
  dg_code :: string
  dg_level :: string
  dg_latching :: bool
  dg_axis :: int
  dg_occurred_at :: pyfloat
  dg_acknowledged_at :: "pyfloat option"
  dg_resolved_at :: "pyfloat option"
  dg_detail :: detail
  dg_context :: "diag_context option"

type_synonym log_line = "string \<times> diagnostic"

definition new_diagnostic ::
  "environment \<Rightarrow> nat \<Rightarrow> string \<Rightarrow> int \<Rightarrow> detail \<Rightarrow> bool \<Rightarrow> string \<Rightarrow> diag_context option \<Rightarrow> diagnostic" where
  "new_diagnostic env k code axis det latching level context =
     \<lparr>dg_id = uuid env k, dg_code = code, dg_level = level, dg_latching = latching, dg_axis = axis,
      dg_occurred_at = wall env k, dg_acknowledged_at = None, dg_resolved_at = None,
      dg_detail = det, dg_context = context\<rparr>"

text \<open>\<open>acknowledge\<close> and \<open>resolve\<close> stamp a diagnostic once; the log line is written with the stamp.\<close>

definition acknowledge :: "pyfloat \<Rightarrow> diagnostic \<Rightarrow> diagnostic \<times> log_line list" where
  "acknowledge now d =
     (if dg_acknowledged_at d = None
      then let d' = d\<lparr>dg_acknowledged_at := Some now\<rparr> in (d', [(''acknowledged'', d')])
      else (d, []))"

definition resolve :: "pyfloat \<Rightarrow> diagnostic \<Rightarrow> diagnostic \<times> log_line list" where
  "resolve now d =
     (if dg_resolved_at d = None
      then let d' = d\<lparr>dg_resolved_at := Some now\<rparr> in (d', [(''resolved'', d')])
      else (d, []))"

section \<open>The guard\<close>

datatype phase = Normal | Faulted | VerifyReset | Shutdown | SwitchOn | Enable

record AxisFault =
  af_axis :: int
  last :: bytes
  fault :: "diagnostic option"
  warning :: "diagnostic option"
  restart_required :: bool
  phase :: phase
  previous_cw :: int
  last_valid_at :: "pyfloat option"
  feedback_valid :: bool
  af_log :: "log_line list"

definition axis_fault_init :: "int \<Rightarrow> bytes \<Rightarrow> AxisFault" where
  "axis_fault_init axis initial =
     \<lparr>af_axis = axis, last = initial, fault = None, warning = None, restart_required = False,
      phase = Normal, previous_cw = 0, last_valid_at = None, feedback_valid = True, af_log = []\<rparr>"

definition say :: "log_line list \<Rightarrow> AxisFault \<Rightarrow> AxisFault" where
  "say ls g = g\<lparr>af_log := af_log g @ ls\<rparr>"

definition escalate :: "detail \<Rightarrow> diagnostic \<Rightarrow> diagnostic" where
  "escalate det d = d\<lparr>dg_context := Some (case dg_context d of
       Some c \<Rightarrow> c\<lparr>ctx_execution_failure := Some det, ctx_restart_required := True, ctx_feedback_valid := False\<rparr>
     | None \<Rightarrow> \<lparr>ctx_last_valid_at = None, ctx_feedback_valid = False, ctx_restart_required = True,
         ctx_execution_failure = Some det\<rparr>)\<rparr>"

definition detect :: "environment \<Rightarrow> nat \<Rightarrow> string \<Rightarrow> detail \<Rightarrow> bool \<Rightarrow> AxisFault \<Rightarrow> AxisFault" where
  "detect env k code det restart g0 =
     (let g1 = (if code \<noteq> ''AXIS_DRIVE_FAULT'' \<or> restart then g0\<lparr>feedback_valid := False\<rparr> else g0);
          g2 = (case fault g1 of
              None \<Rightarrow>
                let d = new_diagnostic env k code (af_axis g1) det True ''fault''
                     (Some \<lparr>ctx_last_valid_at = last_valid_at g1,
                        ctx_feedback_valid = (code = ''AXIS_DRIVE_FAULT'' \<and> \<not> restart),
                        ctx_restart_required = restart, ctx_execution_failure = None\<rparr>)
                in say [(''detected'', d)] (g1\<lparr>fault := Some d\<rparr>)
            | Some d \<Rightarrow>
                if restart \<and> \<not> restart_required g1
                then let d' = escalate det d in say [(''escalated'', d')] (g1\<lparr>fault := Some d'\<rparr>)
                else g1)
      in g2\<lparr>restart_required := restart_required g2 \<or> restart, phase := Faulted\<rparr>)"

definition control_word :: "bytes \<Rightarrow> int" where
  "control_word payload = le_uint (take 2 payload)"

text \<open>The payload with its control word replaced: \<open>b'..' + payload[2:]\<close>.\<close>

definition with_word :: "bytes \<Rightarrow> bytes \<Rightarrow> bytes" where
  "with_word word payload = word @ drop 2 payload"

definition handshake :: "phase \<Rightarrow> (AxisFault, bytes option \<times> bool) pym \<Rightarrow> (AxisFault, bytes option \<times> bool) pym" where
  "handshake next k = thn (modify (\<lambda>g. g\<lparr>phase := next\<rparr>)) k"

definition prepare :: "environment \<Rightarrow> nat \<Rightarrow> bytes \<Rightarrow> (AxisFault, bytes option \<times> bool) pym" where
  "prepare env k payload =
     (let cw = control_word payload in
      bnd (gets (\<lambda>g. cw AND 0x80 \<noteq> 0 \<and> previous_cw g AND 0x80 = 0)) (\<lambda>reset.
      thn (modify (\<lambda>g. g\<lparr>previous_cw := cw\<rparr>))
     (bnd (gets phase) (\<lambda>ph.
      bnd (gets restart_required) (\<lambda>restart.
      case ph of
        Normal \<Rightarrow> ret (Some payload, False)
      | VerifyReset \<Rightarrow>
          if cw AND 0x80 \<noteq> 0 then ret (None, False) else ret (Some (with_word [0, 0] payload), True)
      | Faulted \<Rightarrow>
          if restart \<or> \<not> reset then
            (if restart then ret (None, False)
             else bnd (gets fault) (\<lambda>f. case f of
                 None \<Rightarrow> raise AttributeError
               | Some d \<Rightarrow> if dg_code d = ''AXIS_DRIVE_FAULT'' then ret (Some (with_word [0, 0] payload), False)
                           else ret (None, False)))
          else bnd (gets fault) (\<lambda>f. case f of
              None \<Rightarrow> raise AttributeError
            | Some d \<Rightarrow> (let (d', ls) = acknowledge (wall env k) d in
                thn (modify (\<lambda>g. say ls (g\<lparr>fault := Some d'\<rparr>)))
                    (ret (Some (with_word [0x80, 0] payload), True))))
      | Shutdown \<Rightarrow>
          if cw AND 0x8f = 6 then handshake SwitchOn (ret (Some payload, False)) else ret (None, False)
      | SwitchOn \<Rightarrow>
          if cw AND 0x8f = 7 then handshake Enable (ret (Some payload, False)) else ret (None, False)
      | Enable \<Rightarrow>
          if cw AND 0x8f = 15 \<and> cw AND 0x10 = 0 then
            (if length payload \<le> 2 then raise IndexError
             else if payload ! 2 = 1 then handshake Normal (ret (Some payload, False)) else ret (None, False))
          else ret (None, False))))))"

definition accept_reset :: "environment \<Rightarrow> nat \<Rightarrow> AxisFault \<Rightarrow> AxisFault" where
  "accept_reset env k g =
     (case fault g of
        None \<Rightarrow> g
      | Some d \<Rightarrow>
          if phase g = VerifyReset
          then say (snd (resolve (wall env k) d)) (g\<lparr>fault := None, phase := Shutdown\<rparr>)
          else g\<lparr>phase := VerifyReset\<rparr>)"

definition accept_warning :: "environment \<Rightarrow> nat \<Rightarrow> int \<Rightarrow> AxisFault \<Rightarrow> AxisFault" where
  "accept_warning env k sw g =
     (case warning g of
        None \<Rightarrow>
          if sw AND 0x80 \<noteq> 0
          then let w = new_diagnostic env k ''AXIS_DRIVE_WARNING'' (af_axis g) (Text ''Model reports warning'') False ''alarm'' None
               in say [(''detected'', w)] (g\<lparr>warning := Some w\<rparr>)
          else g
      | Some w \<Rightarrow>
          if sw AND 0x80 = 0 then say (snd (resolve (wall env k) w)) (g\<lparr>warning := None\<rparr>) else g)"

definition accept :: "environment \<Rightarrow> nat \<Rightarrow> bytes \<Rightarrow> bool \<Rightarrow> (AxisFault, unit) pym" where
  "accept env k output resetting =
     bnd (gets (\<lambda>g. length output \<noteq> length (last g))) (\<lambda>mismatch.
     if mismatch then raise ValueError
     else
       let sw = control_word output in
       thn (modify (\<lambda>g. g\<lparr>last := output, last_valid_at := Some (wall env k), feedback_valid := True\<rparr>))
      (thn (modify (\<lambda>g. if sw AND 8 \<noteq> 0 then detect env (k + 1) ''AXIS_DRIVE_FAULT'' (Text ''Model reports drive Fault'') False g
                        else if resetting then accept_reset env (k + 1) g else g))
           (modify (accept_warning env (k + 2) sw))))"

record feedback =
  fb_data :: string
  fb_fault :: "diagnostic option"
  fb_restart_required :: bool
  fb_feedback_valid :: bool
  fb_last_valid_at :: "pyfloat option"

definition response_data :: "AxisFault \<Rightarrow> bytes" where
  "response_data g =
     (case fault g of
        None \<Rightarrow> last g
      | Some _ \<Rightarrow> with_word (le_bytes 2 ((control_word (last g) AND NOT 0x106f) OR 8)) (last g))"

definition response :: "AxisFault \<Rightarrow> feedback" where
  "response g = \<lparr>fb_data = hex (response_data g), fb_fault = fault g, fb_restart_required = restart_required g,
     fb_feedback_valid = feedback_valid g, fb_last_valid_at = last_valid_at g\<rparr>"


section \<open>The invariant\<close>

definition guard_ok :: "AxisFault \<Rightarrow> bool" where
  "guard_ok g \<longleftrightarrow> (phase g \<in> {Faulted, VerifyReset} \<longleftrightarrow> fault g \<noteq> None) \<and>
     (restart_required g \<longrightarrow> phase g = Faulted)"

lemma guard_ok_init: "guard_ok (axis_fault_init a b)"
  by (simp add: guard_ok_def axis_fault_init_def)

lemma say_simps [simp]:
  "fault (say ls g) = fault g" "phase (say ls g) = phase g" "restart_required (say ls g) = restart_required g"
  "last (say ls g) = last g" "warning (say ls g) = warning g" "previous_cw (say ls g) = previous_cw g"
  "af_axis (say ls g) = af_axis g"
  by (simp_all add: say_def)

lemma detect_fields:
  "phase (detect env k code det restart g) = Faulted"
  "restart_required (detect env k code det restart g) = (restart_required g \<or> restart)"
  "fault (detect env k code det restart g) \<noteq> None"
  "last (detect env k code det restart g) = last g"
  "previous_cw (detect env k code det restart g) = previous_cw g"
  by (auto simp: detect_def Let_def split: option.splits)

text \<open>A first fault keeps its identity: a later one escalates it and never replaces it.\<close>

text \<open>
  C30. A later failure never replaces the identity, the code or the time of the fault that is
  already recorded.
\<close>

theorem detect_keeps_first:
  "fault g = Some d \<Longrightarrow> \<exists>d'. fault (detect env k code det restart g) = Some d' \<and>
     dg_id d' = dg_id d \<and> dg_code d' = dg_code d \<and> dg_occurred_at d' = dg_occurred_at d"
  by (auto simp: detect_def Let_def escalate_def)

lemma guard_ok_detect: "guard_ok (detect env k code det restart g)"
  using detect_fields(3) [of env k code det restart g] by (simp add: guard_ok_def detect_fields)

lemma warning_fields [simp]:
  "phase (accept_warning env k sw g) = phase g" "fault (accept_warning env k sw g) = fault g"
  "restart_required (accept_warning env k sw g) = restart_required g" "last (accept_warning env k sw g) = last g"
  by (auto simp: accept_warning_def Let_def split: option.splits)

text \<open>What \<open>prepare\<close> forwards outside normal operation: nothing, a disabling word, or the next handshake word.\<close>

definition forwards :: "phase \<Rightarrow> bytes \<Rightarrow> bytes \<Rightarrow> bool" where
  "forwards ph payload p \<longleftrightarrow> drop 2 p = drop 2 payload \<and>
     (case ph of
        Normal \<Rightarrow> p = payload
      | Faulted \<Rightarrow> control_word p = 0 \<or> control_word p = 0x80
      | VerifyReset \<Rightarrow> control_word p = 0
      | Shutdown \<Rightarrow> p = payload \<and> control_word p AND 0x8f = 6
      | SwitchOn \<Rightarrow> p = payload \<and> control_word p AND 0x8f = 7
      | Enable \<Rightarrow> p = payload \<and> control_word p AND 0x8f = 15 \<and> control_word p AND 0x10 = 0 \<and> p ! 2 = 1)"

lemma with_word_simps [simp]:
  "control_word (with_word [0, 0] p) = 0" "control_word (with_word [0x80, 0] p) = 0x80"
  "drop 2 (with_word [a, b] p) = drop 2 p"
  by (simp_all add: control_word_def with_word_def)

text \<open>One call of \<open>prepare\<close>: the result, the new phase and what stays.\<close>

definition next_phase :: "phase \<Rightarrow> bytes \<Rightarrow> phase" where
  "next_phase ph payload =
     (let cw = control_word payload in
      case ph of
        Shutdown \<Rightarrow> if cw AND 0x8f = 6 then SwitchOn else Shutdown
      | SwitchOn \<Rightarrow> if cw AND 0x8f = 7 then Enable else SwitchOn
      | Enable \<Rightarrow> if cw AND 0x8f = 15 \<and> cw AND 0x10 = 0 \<and> payload ! 2 = 1 then Normal else Enable
      | _ \<Rightarrow> ph)"

lemma prepare_spec:
  assumes "guard_ok g" "2 < length payload"
  obtains r b h where "prepare env k payload g = (Inr (r, b), h)"
    "guard_ok h" "restart_required h = restart_required g" "last h = last g"
    "previous_cw h = control_word payload" "phase h = next_phase (phase g) payload"
    "fault h = None \<longleftrightarrow> fault g = None"
    "\<forall>p. r = Some p \<longrightarrow> forwards (phase g) payload p"
    "restart_required g \<longrightarrow> r = None"
    "b \<longrightarrow> r \<noteq> None \<and> (phase g = VerifyReset \<and> control_word payload AND 0x80 = 0 \<or>
       phase g = Faulted \<and> control_word payload AND 0x80 \<noteq> 0 \<and> previous_cw g AND 0x80 = 0)"
    "r = None \<longrightarrow> next_phase (phase g) payload = phase g"
proof -
  obtain r b h where run: "prepare env k payload g = (r, h)" by fastforce
  show thesis
  proof (cases "phase g")
    case Normal
    then show thesis using run assms that
      by (auto simp: prepare_def pym Let_def guard_ok_def next_phase_def forwards_def)
  next
    case Faulted
    then obtain d where "fault g = Some d" using assms(1) by (auto simp: guard_ok_def)
    then show thesis using run assms that [of None False] that Faulted
      by (auto simp: prepare_def pym Let_def guard_ok_def next_phase_def forwards_def acknowledge_def
          split: if_splits)
  next
    case VerifyReset
    then show thesis using run assms that
      by (auto simp: prepare_def pym Let_def guard_ok_def next_phase_def forwards_def split: if_splits)
  next
    case Shutdown
    then show thesis using run assms that
      by (auto simp: prepare_def handshake_def pym Let_def guard_ok_def next_phase_def forwards_def split: if_splits)
  next
    case SwitchOn
    then show thesis using run assms that
      by (auto simp: prepare_def handshake_def pym Let_def guard_ok_def next_phase_def forwards_def split: if_splits)
  next
    case Enable
    then show thesis using run assms that
      by (auto simp: prepare_def handshake_def pym Let_def guard_ok_def next_phase_def forwards_def split: if_splits)
  qed
qed


lemma guard_ok_accept_reset: "guard_ok g \<Longrightarrow> \<not> restart_required g \<Longrightarrow> guard_ok (accept_reset env k g)"
  by (auto simp: accept_reset_def guard_ok_def split: option.splits)

lemma accept_spec:
  assumes "guard_ok g" "resetting \<Longrightarrow> \<not> restart_required g" "length output = length (last g)"
  obtains h where "accept env k output resetting g = (Inr (), h)" "guard_ok h"
    "restart_required h = restart_required g" "last h = output"
    "phase h = (if control_word output AND 8 \<noteq> 0 then Faulted
       else if resetting \<and> phase g = Faulted then VerifyReset
       else if resetting \<and> phase g = VerifyReset then Shutdown else phase g)"
    "previous_cw h = previous_cw g"
proof -
  define sw where "sw = control_word output"
  define g1 where "g1 = g\<lparr>last := output, last_valid_at := Some (wall env k), feedback_valid := True\<rparr>"
  define g2 where "g2 = (if sw AND 8 \<noteq> 0 then detect env (k + 1) ''AXIS_DRIVE_FAULT'' (Text ''Model reports drive Fault'') False g1
    else if resetting then accept_reset env (k + 1) g1 else g1)"
  have run: "accept env k output resetting g = (Inr (), accept_warning env (k + 2) sw g2)"
    using assms(3) by (simp add: accept_def pym Let_def sw_def g1_def g2_def)
  have w: "previous_cw (accept_warning env (k + 2) sw g2) = previous_cw g2"
    by (auto simp: accept_warning_def Let_def split: option.splits)
  have "guard_ok (accept_warning env (k + 2) sw g2) = guard_ok g2" by (simp add: guard_ok_def)
  moreover have "guard_ok g1" using assms(1) by (simp add: guard_ok_def g1_def)
  ultimately have "guard_ok (accept_warning env (k + 2) sw g2)"
    using assms(2) guard_ok_accept_reset [of g1] by (simp add: g2_def guard_ok_detect g1_def)
  moreover have "restart_required g2 = restart_required g" "last g2 = output" "previous_cw g2 = previous_cw g"
    by (auto simp: g2_def g1_def detect_fields accept_reset_def split: option.splits)
  moreover have "phase g2 = (if sw AND 8 \<noteq> 0 then Faulted
       else if resetting \<and> phase g = Faulted then VerifyReset
       else if resetting \<and> phase g = VerifyReset then Shutdown else phase g)"
    using assms(1) by (auto simp: g2_def g1_def detect_fields accept_reset_def guard_ok_def split: option.splits)
  ultimately show thesis using that [OF run] w by (simp add: sw_def)
qed

text \<open>The bits that the projection replaces: those of the drive state, and the set-point acknowledge.\<close>

lemma projected_bits:
  "bit (take_bit 16 ((w AND NOT 0x106f) OR 8) :: int) n \<longleftrightarrow> n < 16 \<and> (n = 3 \<or> n \<notin> {0, 1, 2, 5, 6, 12} \<and> bit w n)"
proof -
  have m: "(0x106f :: int) = 2 ^ 0 OR 2 ^ 1 OR 2 ^ 2 OR 2 ^ 3 OR 2 ^ 5 OR 2 ^ 6 OR 2 ^ 12" "(8 :: int) = 2 ^ 3" by simp_all
  show ?thesis unfolding m by (simp only: bit_take_bit_iff bit_or_iff bit_and_iff bit_not_iff bit_exp_iff possible_bit_int) auto
qed

lemma response_bytes:
  assumes "fault g \<noteq> None" "2 \<le> length (last g)"
  obtains b0 b1 where "response_data g = b0 # b1 # drop 2 (last g)"
    "\<And>n. bit (control_word (response_data g)) n \<longleftrightarrow> n < 16 \<and> (n = 3 \<or> n \<notin> {0, 1, 2, 5, 6, 12} \<and> bit (control_word (last g)) n)"
proof -
  define w where "w = (control_word (last g) AND NOT 0x106f) OR 8"
  have d: "response_data g = with_word (le_bytes 2 w) (last g)"
    using assms(1) by (auto simp: response_data_def w_def)
  have "le_uint (le_bytes 2 w) = w mod 2 ^ 16" by (simp add: le_uint_le_bytes)
  then have c: "control_word (response_data g) = take_bit 16 w"
    unfolding d by (simp add: control_word_def with_word_def take_bit_eq_mod)
  have "length (le_bytes 2 w) = 2" by simp
  then obtain b0 b1 where "le_bytes 2 w = [b0, b1]" by (auto simp: numeral_2_eq_2 length_Suc_conv)
  then show thesis using that [of b0 b1] projected_bits [of "control_word (last g)"] unfolding c
    by (simp add: d with_word_def w_def)
qed

text \<open>
  C29. The feedback of an axis is its last valid output when no fault is recorded; while one is,
  every byte behind the status word is unchanged, and of the status word bit 3 is set, the bits 0,
  1, 2, 5 and 6 of the drive state and the set-point acknowledge (12) are cleared, and every other
  bit is that of the last output.
\<close>

theorem response_word:
  assumes "2 \<le> length (last g)"
  shows "fromhex (fb_data (response g)) = Inr (response_data g) \<and> length (response_data g) = length (last g) \<and>
    drop 2 (response_data g) = drop 2 (last g) \<and>
    (\<forall>n. bit (control_word (response_data g)) n \<longleftrightarrow>
       (if fault g = None then bit (control_word (last g)) n
        else n < 16 \<and> (n = 3 \<or> n \<notin> {0, 1, 2, 5, 6, 12} \<and> bit (control_word (last g)) n)))"
proof (cases "fault g = None")
  case True
  then show ?thesis by (simp add: response_def response_data_def)
next
  case False
  obtain b0 b1 where b: "response_data g = b0 # b1 # drop 2 (last g)"
    "\<And>n. bit (control_word (response_data g)) n \<longleftrightarrow> n < 16 \<and> (n = 3 \<or> n \<notin> {0, 1, 2, 5, 6, 12} \<and> bit (control_word (last g)) n)"
    using response_bytes [OF False assms] by metis
  have "length (response_data g) = length (last g)" "drop 2 (response_data g) = drop 2 (last g)"
    using b(1) assms by simp_all
  moreover have "fromhex (fb_data (response g)) = Inr (response_data g)" by (simp add: response_def)
  ultimately show ?thesis by (simp only: b(2) False if_False simp_thms)
qed


section \<open>Recovery\<close>

text \<open>
  One cycle of the guard as the axis runs it: the model answers a forwarded payload with an
  output, refuses it, or fails. Nothing happens to the model when nothing is forwarded.
\<close>

datatype outcome = Output bytes | Rejected | Crashed pyexc

fun guard_cycle :: "environment \<Rightarrow> bytes \<Rightarrow> outcome \<Rightarrow> AxisFault \<Rightarrow> AxisFault" where
  "guard_cycle env payload out g =
     (case prepare env 0 payload g of
        (Inr (Some p, resetting), h) \<Rightarrow>
          (case out of
             Output bs \<Rightarrow> (case accept env 1 bs resetting h of
                 (Inr _, h') \<Rightarrow> h'
               | (Inl e, h') \<Rightarrow> detect env 4 ''AXIS_MODEL_OUTPUT_INVALID'' (Exc e) True h')
           | Rejected \<Rightarrow> detect env 4 ''AXIS_ADAPTER_FAULT'' (Exc DeviceRejectedException) False h
           | Crashed e \<Rightarrow> detect env 4 ''AXIS_MODEL_EXECUTION_FAILED'' (Exc e) True h)
      | (Inr (None, _), h) \<Rightarrow> h
      | (Inl e, h) \<Rightarrow> detect env 4 ''AXIS_MODEL_EXECUTION_FAILED'' (Exc e) True h)"

fun guard_run :: "AxisFault \<Rightarrow> (environment \<times> bytes \<times> outcome) list \<Rightarrow> AxisFault" where
  "guard_run g [] = g"
| "guard_run g ((env, payload, out) # cs) = guard_run (guard_cycle env payload out g) cs"

text \<open>The edges of the recovery: what moves the guard to each phase.\<close>

inductive recovery :: "phase \<Rightarrow> bytes \<Rightarrow> phase \<Rightarrow> bool" where
  reset: "control_word p AND 0x80 \<noteq> 0 \<Longrightarrow> recovery Faulted p VerifyReset"
| verified: "control_word p AND 0x80 = 0 \<Longrightarrow> recovery VerifyReset p Shutdown"
| shutdown: "control_word p AND 0x8f = 6 \<Longrightarrow> recovery Shutdown p SwitchOn"
| switch_on: "control_word p AND 0x8f = 7 \<Longrightarrow> recovery SwitchOn p Enable"
| enable: "control_word p AND 0x8f = 15 \<Longrightarrow> control_word p AND 0x10 = 0 \<Longrightarrow> p ! 2 = 1 \<Longrightarrow> recovery Enable p Normal"

inductive_simps recovery_from [simp]:
  "recovery Normal p ph" "recovery Faulted p ph" "recovery VerifyReset p ph" "recovery Shutdown p ph"
  "recovery SwitchOn p ph" "recovery Enable p ph"

lemma next_phase_recovery: "next_phase ph p = ph \<or> recovery ph p (next_phase ph p)"
  by (cases ph) (auto simp: next_phase_def Let_def)

lemma guard_cycle_spec:
  fixes env out
  assumes g: "guard_ok g" and l: "2 < length payload"
  defines "h \<equiv> guard_cycle env payload out g"
  shows "guard_ok h" "restart_required g \<Longrightarrow> restart_required h"
    "phase h = phase g \<or> phase h = Faulted \<or> recovery (phase g) payload (phase h)"
proof -
  obtain r b h1 where p: "prepare env 0 payload g = (Inr (r, b), h1)" "guard_ok h1"
    "restart_required h1 = restart_required g" "phase h1 = next_phase (phase g) payload"
    "restart_required g \<longrightarrow> r = None"
    "b \<longrightarrow> r \<noteq> None \<and> (phase g = VerifyReset \<and> control_word payload AND 0x80 = 0 \<or>
       phase g = Faulted \<and> control_word payload AND 0x80 \<noteq> 0 \<and> previous_cw g AND 0x80 = 0)"
    "r = None \<longrightarrow> next_phase (phase g) payload = phase g"
    using prepare_spec [OF g l, of env 0] by metis
  note rec = next_phase_recovery [of "phase g" payload]
  have "guard_ok h \<and> (restart_required g \<longrightarrow> restart_required h) \<and>
      (phase h = phase g \<or> phase h = Faulted \<or> recovery (phase g) payload (phase h))"
  proof (cases r)
    case None
    then show ?thesis using p unfolding h_def by simp
  next
    case (Some q)
    then have nr: "\<not> restart_required h1" using p by simp
    show ?thesis
    proof (cases out)
      case (Output bs)
      show ?thesis
      proof (cases "length bs = length (last h1)")
        case True
        obtain h2 where h2: "accept env 1 bs b h1 = (Inr (), h2)" "guard_ok h2" "restart_required h2 = restart_required h1"
          "phase h2 = (if control_word bs AND 8 \<noteq> 0 then Faulted
             else if b \<and> phase h1 = Faulted then VerifyReset
             else if b \<and> phase h1 = VerifyReset then Shutdown else phase h1)"
          by (rule accept_spec [OF p(2) nr True, where resetting = b and env = env and k = 1]) (rule that; assumption)
        then have "h = h2" using p Some Output unfolding h_def by simp
        moreover have "b \<Longrightarrow> phase h1 = phase g" using p(4,6) by (auto simp: next_phase_def Let_def)
        ultimately show ?thesis using h2 p nr rec by (cases b) auto
      next
        case False
        then have "accept env 1 bs b h1 = (Inl ValueError, h1)" by (simp add: accept_def pym)
        then show ?thesis using p Some Output unfolding h_def by (simp add: guard_ok_detect detect_fields)
      qed
    qed (use p Some in \<open>simp_all add: h_def guard_ok_detect detect_fields\<close>)
  qed
  then show "guard_ok h" "restart_required g \<Longrightarrow> restart_required h"
    "phase h = phase g \<or> phase h = Faulted \<or> recovery (phase g) payload (phase h)" by auto
qed

text \<open>The rungs that are left from a phase to normal operation.\<close>

definition rungs :: "phase \<Rightarrow> (bytes \<Rightarrow> bool) list" where
  "rungs ph =
     (let all = [\<lambda>p. recovery Faulted p VerifyReset, \<lambda>p. recovery VerifyReset p Shutdown,
            \<lambda>p. recovery Shutdown p SwitchOn, \<lambda>p. recovery SwitchOn p Enable, \<lambda>p. recovery Enable p Normal]
      in drop (case ph of Faulted \<Rightarrow> 0 | VerifyReset \<Rightarrow> 1 | Shutdown \<Rightarrow> 2 | SwitchOn \<Rightarrow> 3 | Enable \<Rightarrow> 4 | Normal \<Rightarrow> 5) all)"

definition climbs :: "(bytes \<Rightarrow> bool) list \<Rightarrow> bytes list \<Rightarrow> bool" where
  "climbs rs ps \<longleftrightarrow> (\<exists>qs. subseq qs ps \<and> list_all2 (\<lambda>r q. r q) rs qs)"

lemma climbs_Cons: "climbs rs ps \<Longrightarrow> climbs rs (p # ps)"
  by (auto simp: climbs_def)

lemma climbs_step: "climbs rs ps \<Longrightarrow> r p \<Longrightarrow> climbs (r # rs) (p # ps)"
  unfolding climbs_def by (metis list_all2_Cons subseq_Cons2)

lemma climbs_tl:
  assumes "climbs (r # rs) ps"
  shows "climbs rs ps"
proof -
  obtain q qs where "subseq (q # qs) ps" "list_all2 (\<lambda>r q. r q) rs qs"
    using assms by (auto simp: climbs_def list_all2_Cons1)
  then show ?thesis unfolding climbs_def by (metis subseq_Cons')
qed

lemma climbs_drop: "climbs rs ps \<Longrightarrow> climbs (drop n rs) ps"
  by (induction n arbitrary: rs) (auto simp: drop_Suc neq_Nil_conv tl_def dest: climbs_tl split: list.splits)

lemma recovery_rungs: "recovery ph p ph' \<Longrightarrow> \<exists>r. r p \<and> rungs ph = r # rungs ph'"
  by (cases ph) (auto simp: rungs_def Let_def)

text \<open>
  C3. A faulted axis that is back in the normal phase has received, in this order and among other
  payloads, a fault reset, a word with the reset bit low, shutdown, switch on, and enable without
  a new set-point in profile position mode; the part of the ladder still needed depends only on
  the phase.
\<close>

theorem recovery_climb:
  assumes "guard_ok g" "\<forall>(env, payload, out) \<in> set cs. 2 < length payload"
    and "phase (guard_run g cs) = Normal"
  shows "climbs (rungs (phase g)) (map (\<lambda>(env, payload, out). payload) cs)"
  using assms
proof (induction cs arbitrary: g)
  case Nil
  then show ?case by (simp add: rungs_def climbs_def Let_def)
next
  case (Cons c cs)
  obtain env payload out where c: "c = (env, payload, out)" by (cases c) auto
  define h where "h = guard_cycle env payload out g"
  have l: "2 < length payload" using Cons.prems(2) c by auto
  note spec = guard_cycle_spec [OF Cons.prems(1) l, where env = env and out = out, folded h_def]
  have ih: "climbs (rungs (phase h)) (map (\<lambda>(env, payload, out). payload) cs)"
    using Cons.IH [OF spec(1)] Cons.prems(2,3) c h_def by auto
  consider "phase h = phase g" | "phase h = Faulted" | "recovery (phase g) payload (phase h)" using spec(3) by blast
  then show ?case
  proof cases
    case 1
    then show ?thesis using ih c by (auto intro: climbs_Cons)
  next
    case 2
    then have "climbs (rungs (phase g)) (map (\<lambda>(env, payload, out). payload) cs)"
      using climbs_drop [OF ih, of "case phase g of Faulted \<Rightarrow> 0 | VerifyReset \<Rightarrow> 1 | Shutdown \<Rightarrow> 2 | SwitchOn \<Rightarrow> 3 | Enable \<Rightarrow> 4 | Normal \<Rightarrow> 5"]
      by (simp add: rungs_def Let_def)
    then show ?thesis using c by (auto intro: climbs_Cons)
  next
    case 3
    then obtain r where "r payload" "rungs (phase g) = r # rungs (phase h)" using recovery_rungs by blast
    then show ?thesis using climbs_step [OF ih] c by simp
  qed
qed

end
