(* ===== verification/Axis.thy ===== *)
theory Axis
  imports Adapter Fault "HOL-Library.Product_Lexorder"
begin

text \<open>
  One axis of the runtime (runtime/axis.py): the object, its construction, its description
  and its persistent parameters. The adapter is a state \<open>'s\<close> with its operations; the
  snapshot file of the axis is the field \<open>ax_file\<close>. Hash functions are parameters.
\<close>

section \<open>The object\<close>

record device =
  slave_index :: int
  dev_id :: string
  dev_type :: string
  model_type :: string
  model_mode :: string
  artifact :: "string option"
  parameter_set :: string

record identity =
  id_vendor :: int
  id_product :: int
  id_revision :: int

record od_entry =
  en_index :: int
  en_subindex :: int
  en_name :: string
  en_type :: string
  en_bits :: int
  en_access :: string
  en_initial :: string

text \<open>
  A parameter snapshot as its JSON file holds it. A file that is no JSON object with the
  four fields of a snapshot, or whose values are no strings, is \<open>Malformed\<close>.
\<close>

record snapshot =
  snap_schema_version :: int
  snap_type :: string
  snap_model_type :: string
  snap_mode :: string
  snap_values :: "(string \<times> string) list"

record snapshot_file =
  file_data :: snapshot
  file_checksum :: string

datatype stored = Malformed | Stored snapshot_file

record 's axis =
  ax_device :: device
  ax_identity :: identity
  ax_profile :: DeviceProfile
  ax_adapter :: 's
  ax_rx_size :: int
  ax_tx_size :: int
  ax_entries :: "((int \<times> int) \<times> od_entry) list"
  last_cycle :: "pyfloat option"
  cycles :: int
  ax_source_hash :: string
  fault_state :: AxisFault
  save_diagnostic :: "diagnostic option"
  ax_store :: bool
  ax_lock :: bool
  ax_file :: "stored option"
  ax_backup :: "stored option"
  ax_log :: "log_line list"

type_synonym ('s, 'a) axis_m = "('s axis, 'a) pym"

definition ad :: "('s, 'a) pym \<Rightarrow> ('s, 'a) axis_m" where
  "ad m = on_part ax_adapter (\<lambda>s a. a\<lparr>ax_adapter := s\<rparr>) m"

definition guarded :: "(AxisFault, 'a) pym \<Rightarrow> ('s, 'a) axis_m" where
  "guarded m = on_part fault_state (\<lambda>g a. a\<lparr>fault_state := g\<rparr>) m"

section \<open>Construction\<close>

definition TYPES :: "(string \<times> string) list" where
  "TYPES = [(''uint8'', ''USINT''), (''int8'', ''SINT''), (''uint16'', ''UINT''), (''int16'', ''INT''),
     (''uint32'', ''UDINT''), (''int32'', ''DINT''), (''float32'', ''REAL'')]"

definition required_addresses :: "DeviceProfile \<Rightarrow> (int \<times> int) list" where
  "required_addresses p = sort (remdups
     (map (\<lambda>e. (ode_index e, ode_subindex e)) (filter (\<lambda>e. ode_index e \<noteq> 0) (prof_rx p @ prof_tx p)) @
      map (\<lambda>r. (role_index r, role_subindex r)) (prof_roles p)))"

definition axis_entry :: "'s adapter_ops \<Rightarrow> int \<times> int \<Rightarrow> ('s, (int \<times> int) \<times> od_entry) pym" where
  "axis_entry ops = (\<lambda>(index, subindex).
     bnd (ad_od_definition ops index subindex) (\<lambda>d.
     let dtype = normalize_od_data_type (def_data_type d) in
     case map_of TYPES dtype of
       None \<Rightarrow> raise ValueError
     | Some t \<Rightarrow>
         if def_bit_size d \<notin> {8, 16, 32} then raise ValueError
         else bnd (ad_read_sdo ops index subindex (nat (def_bit_size d div 8))) (\<lambda>raw.
           ret ((index, subindex),
             \<lparr>en_index = index, en_subindex = subindex, en_name = def_name d, en_type = t,
              en_bits = def_bit_size d, en_access = lower (def_access d), en_initial = hex raw\<rparr>))))"

fun mapM :: "('a \<Rightarrow> ('s, 'b) pym) \<Rightarrow> 'a list \<Rightarrow> ('s, 'b list) pym" where
  "mapM f [] = ret []"
| "mapM f (x # xs) = bnd (f x) (\<lambda>y. bnd (mapM f xs) (\<lambda>ys. ret (y # ys)))"

text \<open>\<open>Model(device)\<close> on a created adapter \<open>s\<close>.\<close>

definition model_init ::
  "'s adapter_ops \<Rightarrow> device \<Rightarrow> identity \<Rightarrow> string \<Rightarrow> DeviceProfile \<Rightarrow> 's \<Rightarrow> 's axis res" where
  "model_init ops dev idn source_hash p s =
     ebind (pdo_size (prof_rx p)) (\<lambda>rx_size.
     ebind (pdo_size (prof_tx p)) (\<lambda>tx_size.
     case mapM (axis_entry ops) (required_addresses p) s of
       (Inl e, _) \<Rightarrow> Inl e
     | (Inr es, s1) \<Rightarrow>
         (case ad_read_inputs ops s1 of
            (Inl e, _) \<Rightarrow> Inl e
          | (Inr inputs, s2) \<Rightarrow>
              Inr \<lparr>ax_device = dev, ax_identity = idn, ax_profile = p, ax_adapter = s2,
                ax_rx_size = rx_size, ax_tx_size = tx_size, ax_entries = es, last_cycle = None, cycles = 0,
                ax_source_hash = source_hash, fault_state = axis_fault_init (slave_index dev) inputs,
                save_diagnostic = None, ax_store = False, ax_lock = False, ax_file = None, ax_backup = None, ax_log = []\<rparr>)))"

section \<open>Description\<close>

record pdo_field =
  pf_index :: int
  pf_subindex :: int
  pf_bits :: int
  pf_name :: string
  pf_type :: string

record contract =
  ct_preset :: string
  ct_source_hash :: string
  ct_identity :: identity
  ct_rx_size :: int
  ct_tx_size :: int
  ct_entries :: "od_entry list"
  ct_rx :: "pdo_field list"
  ct_tx :: "pdo_field list"

definition preset_name :: "device \<Rightarrow> string" where
  "preset_name dev = (if model_mode dev = ''linear'' then ''linear_mm'' else ''rotary_deg'')"

definition describe_field :: "((int \<times> int) \<times> od_entry) list \<Rightarrow> ObjectDictionaryEntry \<Rightarrow> pdo_field res" where
  "describe_field es e =
     ebind (bit_length e) (\<lambda>bits.
     ebind (if ode_index e \<noteq> 0
            then (case map_of es (ode_index e, ode_subindex e) of None \<Rightarrow> Inl KeyError | Some x \<Rightarrow> Inr (en_type x))
            else Inr ''USINT'') (\<lambda>t.
     Inr \<lparr>pf_index = ode_index e, pf_subindex = ode_subindex e, pf_bits = bits, pf_name = ode_name e, pf_type = t\<rparr>))"

text \<open>\<open>describe\<close> without the hash of the description, which is \<open>sha256\<close> of its JSON text.\<close>

definition describe :: "'s axis \<Rightarrow> contract res" where
  "describe a =
     ebind (emap (describe_field (ax_entries a)) (prof_rx (ax_profile a))) (\<lambda>rx.
     ebind (emap (describe_field (ax_entries a)) (prof_tx (ax_profile a))) (\<lambda>tx.
     Inr \<lparr>ct_preset = preset_name (ax_device a), ct_source_hash = ax_source_hash a, ct_identity = ax_identity a,
       ct_rx_size = ax_rx_size a, ct_tx_size = ax_tx_size a, ct_entries = map snd (ax_entries a),
       ct_rx = rx, ct_tx = tx\<rparr>))"

section \<open>Persistent parameters\<close>

text \<open>\<open>f'{index:04x}:{subindex:02x}'\<close> of a 16-bit index and an 8-bit subindex.\<close>

fun hex_digits :: "nat \<Rightarrow> nat \<Rightarrow> string" where
  "hex_digits 0 n = ''''"
| "hex_digits (Suc w) n = hex_digits w (n div 16) @ [hex_digit (n mod 16)]"

definition parameter_key :: "int \<Rightarrow> int \<Rightarrow> string" where
  "parameter_key index subindex = hex_digits 4 (nat index) @ '':'' @ hex_digits 2 (nat subindex)"

definition parameter_value :: "'s adapter_ops \<Rightarrow> int \<times> int \<Rightarrow> ('s, string \<times> string) pym" where
  "parameter_value ops = (\<lambda>(index, subindex).
     bnd (ad_od_definition ops index subindex) (\<lambda>d.
     bnd (ad_read_sdo ops index subindex (nat (def_bit_size d div 8))) (\<lambda>raw.
     ret (parameter_key index subindex, hex raw))))"

definition parameter_values :: "'s adapter_ops \<Rightarrow> ('s, (string \<times> string) list) pym" where
  "parameter_values ops =
     bnd (gets (ad_persistent_roles ops)) (\<lambda>rs.
     bnd (mapM (parameter_value ops) rs) (\<lambda>kvs.
     ret (foldl (\<lambda>d (k, v). AList.update k v d) [] kvs)))"

end
