(* ===== verification/ParameterStore.thy ===== *)
theory ParameterStore
  imports Axis
begin

text \<open>
  The snapshot store (storage/parameter_store.py) and the offline migration of schema 1
  (storage/migrate.py). The file of an axis is a field of the axis; the checksum
  (\<open>sha256\<close> of the sorted JSON text) is the parameter \<open>digest\<close>, and a failure of the
  operating system while the file is replaced is the argument \<open>io\<close>: the exception and
  whether the new file was already in place. A migration can fail at each of its file operations
  (record \<open>migrate_io\<close>), and a failing backup may leave any file behind.
\<close>

section \<open>Identity and checksum\<close>

definition schema_version :: "device \<Rightarrow> int" where
  "schema_version dev = (if model_type dev = ''f_kr_cmmt'' then 2 else 1)"

definition same_identity :: "snapshot \<Rightarrow> device \<Rightarrow> bool" where
  "same_identity d dev \<longleftrightarrow> snap_type d = dev_type dev \<and> snap_model_type d = model_type dev \<and> snap_mode d = model_mode dev"

definition make_snapshot :: "device \<Rightarrow> (string \<times> string) list \<Rightarrow> snapshot" where
  "make_snapshot dev values =
     \<lparr>snap_schema_version = schema_version dev, snap_type = dev_type dev, snap_model_type = model_type dev,
      snap_mode = model_mode dev, snap_values = values\<rparr>"

definition make_file :: "(snapshot \<Rightarrow> string) \<Rightarrow> snapshot \<Rightarrow> snapshot_file" where
  "make_file digest d = \<lparr>file_data = d, file_checksum = digest d\<rparr>"

section \<open>Loading\<close>

text \<open>\<open>index, sub = (int(x, 16) for x in key.split(':'))\<close>\<close>

definition parse_key :: "string \<Rightarrow> (int \<times> int) res" where
  "parse_key key =
     (let left = takeWhile (\<lambda>c. c \<noteq> CHR '':'') key; rest = dropWhile (\<lambda>c. c \<noteq> CHR '':'') key in
      case rest of
        [] \<Rightarrow> Inl ValueError
      | _ # right \<Rightarrow>
          if CHR '':'' \<in> set right then Inl ValueError
          else ebind (int_of_str 16 left) (\<lambda>i. ebind (int_of_str 16 right) (\<lambda>s. Inr (i, s))))"

fun nonfinite :: "odval \<Rightarrow> bool" where
  "nonfinite (VFloat f) = (\<not> fin f)"
| "nonfinite _ = False"

definition check_parameter ::
  "'s adapter_ops \<Rightarrow> (string \<times> string) list \<Rightarrow> string \<times> string \<Rightarrow> ('s, (int \<times> int) \<times> odval) pym" where
  "check_parameter ops values = (\<lambda>(key, original).
     case map_of values key of
       None \<Rightarrow> raise KeyError
     | Some raw \<Rightarrow>
         if length raw \<noteq> length original then raise ValueError
         else
           bnd (lift (parse_key key)) (\<lambda>(index, sub).
           bnd (ad_od_definition ops index sub) (\<lambda>d.
           bnd (lift (fromhex raw)) (\<lambda>bs.
           bnd (lift (decode_od_value (def_data_type d) bs)) (\<lambda>v.
           if nonfinite v then raise ValueError
           else bnd (lift (encode_od_value (def_data_type d) v (Some (length raw div 2)))) (\<lambda>_.
             if lower (def_access d) = ''ro'' \<and> raw \<noteq> original then raise ValueError
             else ret ((index, sub), v)))))))"

definition validate_values :: "'s adapter_ops \<Rightarrow> ((int \<times> int) \<times> odval) list \<Rightarrow> ('s, unit) pym" where
  "validate_values ops kvs =
     bnd (gets (ad_validate_parameters ops)) (\<lambda>validate. case validate of None \<Rightarrow> ret () | Some f \<Rightarrow> lift (f kvs))"

definition check_file ::
  "(snapshot \<Rightarrow> string) \<Rightarrow> 's adapter_ops \<Rightarrow> device \<Rightarrow> stored \<Rightarrow> ('s, ((int \<times> int) \<times> odval) list) pym" where
  "check_file digest ops dev f =
     (case f of
        Malformed \<Rightarrow> raise ValueError
      | Stored file \<Rightarrow>
          (let d = file_data file in
           if digest d \<noteq> file_checksum file then raise ValueError
           else if snap_schema_version d \<noteq> schema_version dev \<or> \<not> same_identity d dev then raise ValueError
           else
             bnd (parameter_values ops) (\<lambda>expected.
             if set (map fst (snap_values d)) \<noteq> set (map fst expected) then raise ValueError
             else
               bnd (mapM (check_parameter ops (snap_values d)) expected) (\<lambda>decoded.
               thn (validate_values ops decoded) (ret decoded)))))"

definition install :: "'s adapter_ops \<Rightarrow> ((int \<times> int) \<times> odval) list \<Rightarrow> ('s, unit) pym" where
  "install ops decoded = forM (\<lambda>((index, sub), v). ad_od_write ops index v sub) decoded"

text \<open>Everything is decoded and validated before the first value is written.\<close>

definition load :: "(snapshot \<Rightarrow> string) \<Rightarrow> 's adapter_ops \<Rightarrow> stored option \<Rightarrow> ('s, bool) axis_m" where
  "load digest ops file =
     (case file of
        None \<Rightarrow> ret False
      | Some f \<Rightarrow>
          bnd (gets ax_device) (\<lambda>dev.
          bnd (ad (check_file digest ops dev f)) (\<lambda>decoded.
          thn (ad (install ops decoded)) (ret True))))"

section \<open>Saving\<close>

definition read_persistent :: "'s adapter_ops \<Rightarrow> int \<times> int \<Rightarrow> ('s, (int \<times> int) \<times> odval) pym" where
  "read_persistent ops = (\<lambda>(i, k). bnd (ad_od_read ops i k) (\<lambda>v. ret ((i, k), v)))"

definition save_checks :: "'s adapter_ops \<Rightarrow> ('s, unit) pym" where
  "save_checks ops =
     bnd (gets (ad_validate_parameters ops)) (\<lambda>validate. case validate of
        None \<Rightarrow> ret ()
      | Some f \<Rightarrow>
          bnd (gets (ad_persistent_roles ops)) (\<lambda>rs.
          bnd (mapM (read_persistent ops) rs) (\<lambda>kvs. lift (f kvs))))"

type_synonym io = "(pyexc \<times> bool) option"

definition save :: "(snapshot \<Rightarrow> string) \<Rightarrow> 's adapter_ops \<Rightarrow> io \<Rightarrow> ('s, unit) axis_m" where
  "save digest ops io =
     bnd (gets ax_lock) (\<lambda>locked.
     if \<not> locked then raise RuntimeError
     else
       thn (ad (save_checks ops))
      (bnd (ad (parameter_values ops)) (\<lambda>values.
       bnd (gets ax_device) (\<lambda>dev.
       let new = Stored (make_file digest (make_snapshot dev values)) in
       case io of
         None \<Rightarrow> modify (\<lambda>a. a\<lparr>ax_file := Some new\<rparr>)
       | Some (e, replaced) \<Rightarrow>
           thn (whenm replaced (modify (\<lambda>a. a\<lparr>ax_file := Some new\<rparr>))) (raise e)))))"

section \<open>Migration of schema 1\<close>

definition migrated_snapshot :: "snapshot \<Rightarrow> int \<Rightarrow> snapshot" where
  "migrated_snapshot d v = d\<lparr>snap_values := AList.update ''6081:00'' (hex (le_bytes 4 v)) (snap_values d),
     snap_schema_version := 2\<rparr>"

text \<open>
  The failures of the operating system during a migration: reading the snapshot, writing the staged
  copy, removing its folder, looking at an existing backup, writing the backup (opening, writing,
  flushing and synchronising, with what is then under the name of the backup), and saving.
\<close>

record migrate_io =
  mi_read :: "pyexc option"
  mi_stage :: "pyexc option"
  mi_cleanup :: "pyexc option"
  mi_look :: "pyexc option"
  mi_backup :: "(pyexc \<times> stored option) option"
  mi_save :: io

definition attempt :: "pyexc option \<Rightarrow> ('s, unit) pym" where
  "attempt failure = (case failure of None \<Rightarrow> ret () | Some e \<Rightarrow> raise e)"

text \<open>\<open>with\<close>: the clean-up runs in any case, and its exception replaces an earlier one.\<close>

definition cleaning_up :: "('s, 'a) pym \<Rightarrow> ('s, unit) pym \<Rightarrow> ('s, 'a) pym" where
  "cleaning_up m k = (\<lambda>s. case m s of (r, t) \<Rightarrow> (case k t of (Inl e, u) \<Rightarrow> (Inl e, u) | (Inr _, u) \<Rightarrow> (r, u)))"

definition write_backup :: "migrate_io \<Rightarrow> snapshot_file \<Rightarrow> ('s, unit) axis_m" where
  "write_backup io original =
     (case mi_backup io of
        None \<Rightarrow> modify (\<lambda>a. a\<lparr>ax_backup := Some (Stored original)\<rparr>)
      | Some (e, left) \<Rightarrow> thn (modify (\<lambda>a. a\<lparr>ax_backup := left\<rparr>)) (raise e))"

definition keep_backup :: "migrate_io \<Rightarrow> snapshot_file \<Rightarrow> ('s, unit) axis_m" where
  "keep_backup io original =
     thn (attempt (mi_look io))
    (bnd (gets ax_backup) (\<lambda>backup. case backup of
        Some b \<Rightarrow> if b \<noteq> Stored original then raise ValueError else ret ()
      | None \<Rightarrow> write_backup io original))"

definition migrate_profile_velocity ::
  "(snapshot \<Rightarrow> string) \<Rightarrow> 's adapter_ops \<Rightarrow> migrate_io \<Rightarrow> int \<Rightarrow> ('s, bool) axis_m" where
  "migrate_profile_velocity digest ops io v =
     bnd (gets ax_lock) (\<lambda>locked.
     bnd (gets ax_device) (\<lambda>dev.
     bnd (gets ax_file) (\<lambda>file.
     if \<not> locked then raise RuntimeError
     else if model_type dev \<noteq> ''f_kr_cmmt'' then raise ValueError
     else if \<not> (0 \<le> v \<and> v \<le> 0xffffffff) then raise ValueError
     else thn (attempt (mi_read io)) (case file of
       None \<Rightarrow> raise OSError
     | Some Malformed \<Rightarrow> raise ValueError
     | Some (Stored original) \<Rightarrow>
         (let d = file_data original in
          if snap_schema_version d = 2 then thn (void (load digest ops file)) (ret False)
          else if digest d \<noteq> file_checksum original then raise ValueError
          else if snap_schema_version d \<noteq> 1 then raise ValueError
          else if \<not> same_identity d dev then raise ValueError
          else
            bnd (ad (parameter_values ops)) (\<lambda>current.
            if set (map fst (snap_values d)) \<noteq> set (map fst current) - {''6081:00''} then raise ValueError
            else
              thn (cleaning_up
                    (thn (attempt (mi_stage io)) (void (load digest ops (Some (Stored (make_file digest (migrated_snapshot d v)))))))
                    (attempt (mi_cleanup io)))
             (thn (keep_backup io original)
             (thn (save digest ops (mi_save io)) (ret True)))))))))"

end
