(* ===== verification/Dispatch.thy ===== *)
theory Dispatch
  imports ParameterStore
begin

text \<open>
  The requests of an axis (\<open>Model.dispatch\<close> and \<open>Model._dispatch\<close> of runtime/axis.py)
  and the CMMT-specific SDO write (device_descriptions/cmmt_as/description.py).
\<close>

section \<open>Requests and replies\<close>

text \<open>A request is a JSON object; a field that is not there raises \<open>KeyError\<close> when it is read.\<close>

record request =
  rq_op :: string
  rq_slave_index :: "int option"
  rq_index :: "int option"
  rq_subindex :: "int option"
  rq_data :: "string option"

definition field :: "'a option \<Rightarrow> 'a res" where
  "field f = (case f of None \<Rightarrow> Inl KeyError | Some x \<Rightarrow> Inr x)"

datatype reply =
    Description contract string
  | Data string
  | CycleData string int
  | Guarded feedback "int option"
  | SdoAbort int detail
  | Done

record hashes =
  digest :: "snapshot \<Rightarrow> string"
  contract_hash :: "contract \<Rightarrow> string"

section \<open>SDO writes with the save command\<close>

definition description_write_sdo ::
  "'s adapter_ops \<Rightarrow> int \<Rightarrow> int \<Rightarrow> bytes \<Rightarrow> string \<Rightarrow> ('s, unit) axis_m option \<Rightarrow> ('s, unit) axis_m" where
  "description_write_sdo ops index sub payload access saver =
     bnd (if access \<noteq> ''wo'' then bnd (ad (ad_read_sdo ops index sub (length payload))) (\<lambda>p. ret (Some p))
          else ret None) (\<lambda>previous.
     thn (ad (ad_write_sdo ops index sub payload))
    (case saver of
       None \<Rightarrow> ret ()
     | Some do_save \<Rightarrow>
         if (index, sub) = (0x2005, 1) \<and> payload = [1] then
           thn (catch (bnd (ad (ad_od_read ops 0x2005 3)) (\<lambda>v.
                       if \<not> py_eq v (VInt 1) then raise ValueError else do_save))
                 (\<lambda>e. thn (case previous of None \<Rightarrow> ret () | Some p \<Rightarrow> ad (ad_write_sdo ops index sub p)) (raise e)))
               (forM (\<lambda>(role, v). ad (ad_od_write_role ops role (VInt v))) save_status_roles)
         else ret ()))"

definition save_parameters ::
  "hashes \<Rightarrow> 's adapter_ops \<Rightarrow> environment \<Rightarrow> io \<Rightarrow> ('s, unit) axis_m" where
  "save_parameters hs ops env io =
     thn (catch (save (digest hs) ops io)
           (\<lambda>e. thn (modify (\<lambda>a. case save_diagnostic a of
                       Some _ \<Rightarrow> a
                     | None \<Rightarrow> let d = new_diagnostic env 6 ''PARAMETER_SAVE_FAILED'' (slave_index (ax_device a)) (Exc e) False ''alarm'' None
                               in a\<lparr>save_diagnostic := Some d, ax_log := ax_log a @ [(''detected'', d)]\<rparr>))
                    (raise OSError)))
         (modify (\<lambda>a. case save_diagnostic a of
            None \<Rightarrow> a
          | Some d \<Rightarrow> a\<lparr>save_diagnostic := None, ax_log := ax_log a @ snd (resolve (wall env 7) d)\<rparr>))"

section \<open>The inner dispatcher\<close>

definition entry_of :: "int \<Rightarrow> int \<Rightarrow> ('s, od_entry) axis_m" where
  "entry_of index sub = bnd (gets ax_entries) (\<lambda>es. lift (field (map_of es (index, sub))))"

definition dispatch_read :: "'s adapter_ops \<Rightarrow> request \<Rightarrow> ('s, reply) axis_m" where
  "dispatch_read ops rq =
     bnd (lift (field (rq_index rq))) (\<lambda>index.
     bnd (lift (field (rq_subindex rq))) (\<lambda>sub.
     bnd (entry_of index sub) (\<lambda>e.
     if en_access e = ''wo'' then raise ValueError
     else bnd (ad (ad_read_sdo ops index sub (nat (en_bits e div 8)))) (\<lambda>raw. ret (Data (hex raw))))))"

definition dispatch_write ::
  "hashes \<Rightarrow> 's adapter_ops \<Rightarrow> environment \<Rightarrow> io \<Rightarrow> request \<Rightarrow> ('s, reply) axis_m" where
  "dispatch_write hs ops env io rq =
     bnd (lift (field (rq_index rq))) (\<lambda>index.
     bnd (lift (field (rq_subindex rq))) (\<lambda>sub.
     bnd (entry_of index sub) (\<lambda>e.
     bnd (lift (ebind (field (rq_data rq)) fromhex)) (\<lambda>payload.
     if int (length payload) \<noteq> en_bits e div 8 then raise ValueError
     else
       bnd (gets ax_store) (\<lambda>store.
       thn (description_write_sdo ops index sub payload (en_access e)
              (if store then Some (save_parameters hs ops env io) else None))
           (ret Done))))))"

text \<open>The length of a cycle: 10 ms after a pause, otherwise the time since the last cycle.\<close>

definition cycle_dt :: "environment \<Rightarrow> pyfloat option \<Rightarrow> pyfloat" where
  "cycle_dt env prev = (case prev of None \<Rightarrow> flit (1 / 100) | Some t \<Rightarrow> fsub (monotonic env) t)"

definition dispatch_cycle :: "'s adapter_ops \<Rightarrow> environment \<Rightarrow> request \<Rightarrow> ('s, reply) axis_m" where
  "dispatch_cycle ops env rq =
     bnd (lift (ebind (field (rq_data rq)) fromhex)) (\<lambda>payload.
     bnd (gets ax_rx_size) (\<lambda>n.
     if int (length payload) \<noteq> n then raise ValueError
     else
       bnd (gets last_cycle) (\<lambda>prev.
       let dt = cycle_dt env prev in
       if flt (flit (1 / 10)) dt then raise RuntimeError
       else
         thn (modify (\<lambda>a. a\<lparr>last_cycle := Some (monotonic env)\<rparr>))
        (bnd (ad (thn (ad_apply_outputs ops payload) (thn (ad_step ops dt) (ad_read_inputs ops)))) (\<lambda>raw.
         thn (modify (\<lambda>a. a\<lparr>cycles := cycles a + 1\<rparr>))
        (bnd (gets cycles) (\<lambda>n. ret (CycleData (hex raw) n))))))))"

definition dispatch_idle :: "'s adapter_ops \<Rightarrow> ('s, reply) axis_m" where
  "dispatch_idle ops =
     thn (modify (\<lambda>a. a\<lparr>last_cycle := None\<rparr>))
    (bnd (ad (ad_read_inputs ops)) (\<lambda>raw. ret (Data (hex raw))))"

definition inner_dispatch ::
  "hashes \<Rightarrow> 's adapter_ops \<Rightarrow> environment \<Rightarrow> io \<Rightarrow> request \<Rightarrow> ('s, reply) axis_m" where
  "inner_dispatch hs ops env io rq =
     (if rq_op rq = ''describe'' then
        bnd (gets describe) (\<lambda>r. bnd (lift r) (\<lambda>c. ret (Description c (contract_hash hs c))))
      else if rq_op rq = ''read'' then dispatch_read ops rq
      else if rq_op rq = ''write'' then dispatch_write hs ops env io rq
      else if rq_op rq = ''cycle'' then dispatch_cycle ops env rq
      else if rq_op rq = ''idle'' then dispatch_idle ops
      else raise ValueError)"

section \<open>The guarded dispatcher\<close>

fun reply_data :: "reply \<Rightarrow> string res" where
  "reply_data (Data d) = Inr d"
| "reply_data (CycleData d _) = Inr d"
| "reply_data _ = Inl KeyError"

definition fail :: "environment \<Rightarrow> string \<Rightarrow> pyexc \<Rightarrow> bool \<Rightarrow> ('s, unit) axis_m" where
  "fail env code e restart = modify (\<lambda>a. a\<lparr>fault_state := detect env 4 code (Exc e) restart (fault_state a)\<rparr>)"

definition forget_cycle :: "('s, unit) axis_m" where
  "forget_cycle = modify (\<lambda>a. a\<lparr>last_cycle := None\<rparr>)"

text \<open>The body of the \<open>try\<close>: an early \<open>return\<close>, or the result that the guard accepted.\<close>

datatype flow = Return reply | Result reply

definition guard_reply :: "('s, reply) axis_m" where
  "guard_reply = gets (\<lambda>a. Guarded (response (fault_state a)) None)"

text \<open>Before the reset pulse of a refused output the model, which may still be enabled, is disabled.\<close>

definition disable_before_reset :: "'s adapter_ops \<Rightarrow> bytes \<Rightarrow> ('s, unit) axis_m" where
  "disable_before_reset ops payload =
     bnd (gets (\<lambda>a. fault (fault_state a))) (\<lambda>f.
     case f of
       None \<Rightarrow> raise AttributeError
     | Some d \<Rightarrow>
         whenm (dg_code d = ''AXIS_ADAPTER_FAULT'')
           (ad (thn (ad_apply_outputs ops (with_word [0, 0] payload)) (ad_step ops (flit (2 / 1000))))))"

definition accept_result :: "environment \<Rightarrow> bool \<Rightarrow> reply \<Rightarrow> ('s, unit) axis_m" where
  "accept_result env resetting result =
     catch (bnd (lift (ebind (reply_data result) fromhex)) (\<lambda>out. guarded (accept env 1 out resetting)))
       (\<lambda>e. if is_ValueError e \<or> e = TypeError \<or> is_KeyError e
            then thn (fail env ''AXIS_MODEL_OUTPUT_INVALID'' e True) forget_cycle else raise e)"

definition exchange ::
  "hashes \<Rightarrow> 's adapter_ops \<Rightarrow> environment \<Rightarrow> io \<Rightarrow> request \<Rightarrow> bool \<Rightarrow> ('s, flow) axis_m" where
  "exchange hs ops env io rq resetting =
     bnd (inner_dispatch hs ops env io rq) (\<lambda>result.
     thn (accept_result env resetting result) (ret (Result result)))"

definition guarded_cycle ::
  "hashes \<Rightarrow> 's adapter_ops \<Rightarrow> environment \<Rightarrow> io \<Rightarrow> request \<Rightarrow> ('s, flow) axis_m" where
  "guarded_cycle hs ops env io rq =
     bnd (lift (ebind (field (rq_data rq)) fromhex)) (\<lambda>payload.
     bnd (gets ax_rx_size) (\<lambda>n.
     if int (length payload) \<noteq> n then raise DeviceRejectedException
     else
       bnd (guarded (prepare env 0 payload)) (\<lambda>(forwarded, resetting).
       case forwarded of
         None \<Rightarrow> thn forget_cycle (bnd guard_reply (\<lambda>r. ret (Return r)))
       | Some p \<Rightarrow>
           thn (whenm resetting (thn forget_cycle (disable_before_reset ops p)))
               (exchange hs ops env io (rq\<lparr>rq_data := Some (hex p)\<rparr>) resetting))))"

definition guarded_idle ::
  "hashes \<Rightarrow> 's adapter_ops \<Rightarrow> environment \<Rightarrow> io \<Rightarrow> request \<Rightarrow> ('s, flow) axis_m" where
  "guarded_idle hs ops env io rq =
     bnd (gets (\<lambda>a. phase (fault_state a))) (\<lambda>ph.
     if ph \<noteq> Normal then thn forget_cycle (bnd guard_reply (\<lambda>r. ret (Return r)))
     else exchange hs ops env io rq False)"

text \<open>\<open>None\<close> is the variable \<open>result\<close> that no assignment reached.\<close>

definition finish :: "reply option \<Rightarrow> ('s, reply) axis_m" where
  "finish result =
     bnd (gets fault_state) (\<lambda>g.
     if phase g = Normal \<and> fault g = None
     then (case result of None \<Rightarrow> raise NameError | Some r \<Rightarrow> ret r)
     else bnd (gets cycles) (\<lambda>n. ret (Guarded (response g) (Some n))))"

definition dispatch_motion ::
  "hashes \<Rightarrow> 's adapter_ops \<Rightarrow> environment \<Rightarrow> io \<Rightarrow> request \<Rightarrow> ('s, reply) axis_m" where
  "dispatch_motion hs ops env io rq =
     bnd (catch
            (bnd (if rq_op rq = ''cycle'' then guarded_cycle hs ops env io rq else guarded_idle hs ops env io rq)
                 (\<lambda>f. ret (Some f)))
            (\<lambda>e. thn (if e = DeviceRejectedException then fail env ''AXIS_ADAPTER_FAULT'' e False
                      else fail env ''AXIS_MODEL_EXECUTION_FAILED'' e True)
                (thn forget_cycle (ret None)))) (\<lambda>f.
     case f of
       Some (Return r) \<Rightarrow> ret r
     | Some (Result r) \<Rightarrow> finish (Some r)
     | None \<Rightarrow> finish None)"

definition dispatch_access ::
  "hashes \<Rightarrow> 's adapter_ops \<Rightarrow> environment \<Rightarrow> io \<Rightarrow> request \<Rightarrow> ('s, reply) axis_m" where
  "dispatch_access hs ops env io rq =
     catch (inner_dispatch hs ops env io rq)
       (\<lambda>e. if e = OSError then
              (if rq_op rq = ''write'' \<and> (rq_index rq, rq_subindex rq) = (Some 0x2005, Some 1) then raise e
               else thn (fail env ''AXIS_MODEL_EXECUTION_FAILED'' e True)
                 (ret (SdoAbort 0x08000000 (Text ''Model access failed; manual restart required''))))
            else if is_KeyError e \<or> is_ValueError e then raise e
            else thn (fail env ''AXIS_MODEL_EXECUTION_FAILED'' e True)
              (ret (SdoAbort 0x08000000 (Text ''Model execution failed; manual restart required''))))"

definition reads_statusword :: "request \<Rightarrow> bool res" where
  "reads_statusword rq =
     (if rq_op rq = ''read'' then
        ebind (field (rq_index rq)) (\<lambda>i. if i = 0x6041
          then ebind (field (rq_subindex rq)) (\<lambda>s. Inr (s = 0)) else Inr False)
      else Inr False)"

definition dispatch :: "hashes \<Rightarrow> 's adapter_ops \<Rightarrow> environment \<Rightarrow> io \<Rightarrow> request \<Rightarrow> ('s, reply) axis_m" where
  "dispatch hs ops env io rq =
     bnd (lift (reads_statusword rq)) (\<lambda>statusword.
     bnd (gets fault_state) (\<lambda>g.
     if statusword \<and> phase g \<noteq> Normal then ret (Data (take 4 (fb_data (response g))))
     else if restart_required g \<and> rq_op rq \<in> {''read'', ''write''} then
       ret (SdoAbort 0x08000022 (Text ''Model requires manual Docker restart''))
     else if rq_op rq \<notin> {''cycle'', ''idle''} then dispatch_access hs ops env io rq
     else dispatch_motion hs ops env io rq))"

end
