(* ===== verification/AxisProps.thy ===== *)
theory AxisProps
  imports Dispatch
begin

text \<open>
  Properties of the guarded dispatcher that hold for every adapter: motion requests always
  get an answer, the guard's invariant holds at all times, what reaches the model outside
  normal operation, and the latch of a required restart.
\<close>

section \<open>What leaves the guard alone\<close>

definition frame :: "('s, 'a) axis_m \<Rightarrow> bool" where
  "frame m \<longleftrightarrow> (\<forall>a. fault_state (snd (m a)) = fault_state a \<and> ax_rx_size (snd (m a)) = ax_rx_size a)"

named_theorems frame_intro \<open>computations that leave the guard alone\<close>

lemma frameD: "frame m \<Longrightarrow> m a = (r, b) \<Longrightarrow> fault_state b = fault_state a \<and> ax_rx_size b = ax_rx_size a"
  unfolding frame_def by (metis snd_conv)

lemma frame_leaf [frame_intro]:
  "frame (ret x)" "frame (raise e)" "frame (lift r)" "frame (gets f)" "frame (ad m)"
  by (simp_all add: frame_def pym ad_def split_def)

lemma frame_modify [frame_intro]:
  "(\<And>a. fault_state (f a) = fault_state a \<and> ax_rx_size (f a) = ax_rx_size a) \<Longrightarrow> frame (modify f)"
  by (simp add: frame_def pym)

lemma frame_bnd [frame_intro]: "frame m \<Longrightarrow> (\<And>x. frame (f x)) \<Longrightarrow> frame (bnd m f)"
  by (auto simp: frame_def bnd_def split: prod.splits sum.splits) (metis snd_conv)+

lemma frame_thn [frame_intro]: "frame m \<Longrightarrow> frame k \<Longrightarrow> frame (thn m k)"
  by (simp add: thn_def frame_bnd)

lemma frame_catch [frame_intro]: "frame m \<Longrightarrow> (\<And>e. frame (h e)) \<Longrightarrow> frame (catch m h)"
  by (auto simp: frame_def catch_def split: prod.splits sum.splits) (metis snd_conv)+

lemma frame_if [frame_intro]: "frame m \<Longrightarrow> frame n \<Longrightarrow> frame (if c then m else n)"
  by simp

lemma frame_whenm [frame_intro]: "frame m \<Longrightarrow> frame (whenm c m)"
  by (simp add: whenm_def frame_leaf)

lemma frame_forM [frame_intro]: "(\<And>x. frame (f x)) \<Longrightarrow> frame (forM f xs)"
  by (induction xs) (auto intro: frame_leaf frame_thn)

lemma frame_save: "frame (save d ops io)"
  unfolding save_def Let_def by (intro frame_intro; (cases io)?) (auto intro!: frame_intro)

lemma frame_save_parameters: "frame (save_parameters hs ops env io)"
  unfolding save_parameters_def
  by (intro frame_intro frame_save) (auto simp: Let_def split: option.splits)

lemma frame_description_write:
  "(\<And>m. saver = Some m \<Longrightarrow> frame m) \<Longrightarrow> frame (description_write_sdo ops i k p acc saver)"
  unfolding description_write_sdo_def
  by (cases saver) (auto intro!: frame_intro split: option.splits)

lemma frame_inner_dispatch: "frame (inner_dispatch hs ops env io rq)"
  unfolding inner_dispatch_def dispatch_read_def dispatch_write_def dispatch_cycle_def dispatch_idle_def
    entry_of_def Let_def
  by (intro frame_intro frame_description_write) (auto intro: frame_save_parameters split: if_splits)

section \<open>Motion requests are always answered\<close>

lemma finish_after_fault:
  "phase (fault_state a) = Faulted \<Longrightarrow> finish r a = (Inr (Guarded (response (fault_state a)) (Some (cycles a))), a)"
  by (simp add: finish_def pym)

lemma dispatch_motion_returns: "\<exists>r b. dispatch_motion hs ops env io rq a = (Inr r, b)"
proof -
  define m where "m = (if rq_op rq = ''cycle'' then guarded_cycle hs ops env io rq else guarded_idle hs ops env io rq)"
  obtain x b where x: "m a = (x, b)" by fastforce
  show ?thesis
  proof (cases x)
    case (Inr f)
    have "\<exists>r c. finish (Some q) b = (Inr r, c)" for q by (simp add: finish_def pym)
    then show ?thesis using x Inr
      by (cases f) (simp_all add: dispatch_motion_def m_def [symmetric] bnd_def catch_def ret_def)
  next
    case (Inl e)
    define c where "c = b\<lparr>fault_state := detect env 4
      (if e = DeviceRejectedException then ''AXIS_ADAPTER_FAULT'' else ''AXIS_MODEL_EXECUTION_FAILED'') (Exc e)
      (e \<noteq> DeviceRejectedException) (fault_state b), last_cycle := None\<rparr>"
    have "phase (fault_state c) = Faulted" by (simp add: c_def detect_fields)
    moreover have "dispatch_motion hs ops env io rq a = finish None c"
      using x Inl by (simp add: dispatch_motion_def m_def [symmetric] bnd_def catch_def pym fail_def forget_cycle_def c_def)
    ultimately show ?thesis by (simp add: finish_after_fault)
  qed
qed

lemma motion_dispatch:
  "rq_op rq \<in> {''cycle'', ''idle''} \<Longrightarrow> dispatch hs ops env io rq a = dispatch_motion hs ops env io rq a"
  by (auto simp: dispatch_def reads_statusword_def pym)


section \<open>The invariant of the guard\<close>

definition axis_ok :: "'s axis \<Rightarrow> bool" where
  "axis_ok a \<longleftrightarrow> guard_ok (fault_state a) \<and> 2 < ax_rx_size a"

abbreviation restarting :: "'s axis \<Rightarrow> bool" where
  "restarting a \<equiv> restart_required (fault_state a)"

definition advances :: "'s axis \<Rightarrow> 's axis \<Rightarrow> bool" where
  "advances a b \<longleftrightarrow> axis_ok b \<and> (restarting a \<longrightarrow> restarting b)"

lemma advances_trans: "advances a b \<Longrightarrow> advances b c \<Longrightarrow> advances a c"
  by (simp add: advances_def)

lemma advances_frame: "axis_ok a \<Longrightarrow> frame m \<Longrightarrow> advances a (snd (m a))"
  by (simp add: frame_def advances_def axis_ok_def)

lemma advances_fail: "axis_ok a \<Longrightarrow> advances a (snd (fail env code e restart a))"
  by (simp add: fail_def pym advances_def axis_ok_def guard_ok_detect detect_fields)

lemma advances_bnd:
  assumes "advances a (snd (m a))" "\<And>x b. m a = (Inr x, b) \<Longrightarrow> advances b (snd (f x b))"
  shows "advances a (snd (bnd m f a))"
proof (cases "m a")
  case (Pair r b)
  then show ?thesis using assms advances_trans [of a b] by (cases r) (auto simp: bnd_def)
qed

lemma advances_catch:
  assumes "advances a (snd (m a))" "\<And>e b. m a = (Inl e, b) \<Longrightarrow> advances b (snd (h e b))"
  shows "advances a (snd (catch m h a))"
proof (cases "m a")
  case (Pair r b)
  then show ?thesis using assms advances_trans [of a b] by (cases r) (auto simp: catch_def)
qed

lemma advances_guarded_accept:
  assumes "axis_ok a" "resetting \<Longrightarrow> \<not> restarting a"
  shows "advances a (snd (guarded (accept env k out resetting) a))"
proof (cases "length out = length (last (fault_state a))")
  case True
  have g: "guard_ok (fault_state a)" using assms(1) by (simp add: axis_ok_def)
  obtain h where "accept env k out resetting (fault_state a) = (Inr (), h)" "guard_ok h"
    "restart_required h = restart_required (fault_state a)"
    by (rule accept_spec [OF g assms(2) True, where env = env and k = k]) (auto intro: that)
  then show ?thesis using assms(1) by (simp add: guarded_def pym advances_def axis_ok_def)
next
  case False
  then show ?thesis using assms(1) by (simp add: guarded_def accept_def pym advances_def axis_ok_def)
qed

lemma forget_cycle_frame [frame_intro]: "frame forget_cycle"
  unfolding forget_cycle_def by (intro frame_intro) simp

lemma advances_refl: "axis_ok a \<Longrightarrow> advances a a"
  by (simp add: advances_def)

lemma advances_ok: "advances a b \<Longrightarrow> axis_ok b"
  by (simp add: advances_def)

lemma advances_thn:
  "advances a (snd (m a)) \<Longrightarrow> (\<And>b. m a = (Inr (), b) \<Longrightarrow> advances b (snd (k b))) \<Longrightarrow> advances a (snd (thn m k a))"
  unfolding thn_def by (rule advances_bnd) auto

lemma advances_fail_thn:
  assumes "axis_ok a" "frame k"
  shows "advances a (snd (thn (fail env code e restart) k a))"
proof (rule advances_thn)
  show f: "advances a (snd (fail env code e restart a))" by (rule advances_fail [OF assms(1)])
  fix b assume "fail env code e restart a = (Inr (), b)"
  then show "advances b (snd (k b))" using f by (intro advances_frame [OF _ assms(2)]) (simp add: advances_ok)
qed

lemma advances_accept_result:
  assumes "axis_ok a" "resetting \<Longrightarrow> \<not> restarting a"
  shows "advances a (snd (accept_result env resetting result a))"
  unfolding accept_result_def
proof (rule advances_catch)
  show m: "advances a (snd (bnd (lift (ebind (reply_data result) fromhex)) (\<lambda>out. guarded (accept env 1 out resetting)) a))"
    using assms advances_guarded_accept [of a resetting env 1]
    by (intro advances_bnd) (auto simp: pym advances_refl)
  fix e b assume "bnd (lift (ebind (reply_data result) fromhex)) (\<lambda>out. guarded (accept env 1 out resetting)) a = (Inl e, b)"
  then have b: "axis_ok b" using m by (simp add: advances_def)
  then show "advances b (snd ((if is_ValueError e \<or> e = TypeError \<or> is_KeyError e
      then thn (fail env ''AXIS_MODEL_OUTPUT_INVALID'' e True) forget_cycle else raise e) b))"
    by (simp add: advances_fail_thn frame_intro raise_run advances_refl)
qed


lemma advances_exchange:
  assumes "axis_ok a" "\<not> restarting a"
  shows "advances a (snd (exchange hs ops env io rq resetting a))"
  unfolding exchange_def
proof (rule advances_bnd)
  show "advances a (snd (inner_dispatch hs ops env io rq a))"
    by (rule advances_frame [OF assms(1) frame_inner_dispatch])
  fix result b assume "inner_dispatch hs ops env io rq a = (Inr result, b)"
  then have b: "axis_ok b" "\<not> restarting b"
    using frameD [OF frame_inner_dispatch] assms by (force simp: axis_ok_def)+
  show "advances b (snd (thn (accept_result env resetting result) (ret (Result result)) b))"
    using advances_accept_result [OF b(1), of resetting env result] b(2)
    by (intro advances_thn) (auto simp: ret_def advances_def)
qed

lemma frame_guard_reply [frame_intro]: "frame guard_reply"
  unfolding guard_reply_def by (intro frame_intro)

lemma advances_guarded_idle: "axis_ok a \<Longrightarrow> advances a (snd (guarded_idle hs ops env io rq a))"
proof (cases "phase (fault_state a) = Normal")
  case True
  assume a: "axis_ok a"
  then have "\<not> restarting a" using True by (auto simp: axis_ok_def guard_ok_def)
  then show ?thesis using True a advances_exchange by (simp add: guarded_idle_def pym)
next
  case False
  assume a: "axis_ok a"
  have "advances a (snd (thn forget_cycle (bnd guard_reply (\<lambda>r. ret (Return r))) a))"
    by (rule advances_frame [OF a]) (intro frame_intro)
  then show ?thesis using False by (simp add: guarded_idle_def pym)
qed

lemma frame_disable [frame_intro]: "frame (disable_before_reset ops p)"
  unfolding disable_before_reset_def by (auto intro!: frame_intro split: option.splits)

lemma advances_prepare:
  assumes "axis_ok a" "int (length payload) = ax_rx_size a"
  obtains r c b where "guarded (prepare env 0 payload) a = (Inr (r, c), b)" "advances a b"
    "ax_rx_size b = ax_rx_size a" "restarting b = restarting a" "restarting a \<longrightarrow> r = None"
    "\<forall>p. r = Some p \<longrightarrow> forwards (phase (fault_state a)) payload p" "ax_adapter b = ax_adapter a"
    "fault (fault_state b) = None \<longleftrightarrow> fault (fault_state a) = None"
    "c \<longrightarrow> phase (fault_state a) \<in> {Faulted, VerifyReset}"
proof -
  have g: "guard_ok (fault_state a)" "2 < length payload" using assms by (auto simp: axis_ok_def)
  obtain r c h where "prepare env 0 payload (fault_state a) = (Inr (r, c), h)" "guard_ok h"
    "restart_required h = restarting a" "restarting a \<longrightarrow> r = None"
    "\<forall>p. r = Some p \<longrightarrow> forwards (phase (fault_state a)) payload p" "fault h = None \<longleftrightarrow> fault (fault_state a) = None"
    "c \<longrightarrow> r \<noteq> None \<and> (phase (fault_state a) = VerifyReset \<and> control_word payload AND 0x80 = 0 \<or>
       phase (fault_state a) = Faulted \<and> control_word payload AND 0x80 \<noteq> 0 \<and> previous_cw (fault_state a) AND 0x80 = 0)"
    by (rule prepare_spec [OF g, where env = env and k = 0]) (rule that; assumption)
  then show thesis using that [of r c "a\<lparr>fault_state := h\<rparr>"] assms(1)
    by (auto simp: guarded_def pym advances_def axis_ok_def)
qed

lemma advances_guarded_cycle:
  assumes "axis_ok a"
  shows "advances a (snd (guarded_cycle hs ops env io rq a))"
proof (cases "\<exists>payload. ebind (field (rq_data rq)) fromhex = Inr payload \<and> int (length payload) = ax_rx_size a")
  case False
  then show ?thesis using assms
    by (cases "ebind (field (rq_data rq)) fromhex") (auto simp: guarded_cycle_def pym advances_refl)
next
  case True
  then obtain payload where p: "ebind (field (rq_data rq)) fromhex = Inr payload" "int (length payload) = ax_rx_size a" by blast
  obtain r c b where b: "guarded (prepare env 0 payload) a = (Inr (r, c), b)" "advances a b"
    "restarting b = restarting a" "restarting a \<longrightarrow> r = None"
    by (rule advances_prepare [OF assms p(2), where env = env]) (rule that; assumption)
  have ok: "axis_ok b" using b(2) by (simp add: advances_def)
  show ?thesis
  proof (cases r)
    case None
    have "advances b (snd (thn forget_cycle (bnd guard_reply (\<lambda>r. ret (Return r))) b))"
      by (rule advances_frame [OF ok]) (intro frame_intro)
    then show ?thesis using p b None advances_trans [OF b(2)] by (simp add: guarded_cycle_def pym bnd_Inr)
  next
    case (Some q)
    let ?pre = "whenm c (thn forget_cycle (disable_before_reset ops q))"
    have pre: "frame ?pre" by (intro frame_intro)
    have "advances b (snd (thn ?pre (exchange hs ops env io (rq\<lparr>rq_data := Some (hex q)\<rparr>) c) b))"
    proof (rule advances_thn)
      show "advances b (snd (?pre b))" by (rule advances_frame [OF ok pre])
      fix d assume "?pre b = (Inr (), d)"
      then have "axis_ok d" "\<not> restarting d" using frameD [OF pre] ok b(3,4) Some by (force simp: axis_ok_def)+
      then show "advances d (snd (exchange hs ops env io (rq\<lparr>rq_data := Some (hex q)\<rparr>) c d))" by (rule advances_exchange)
    qed
    then show ?thesis using p b(1) Some advances_trans [OF b(2)] by (simp add: guarded_cycle_def pym bnd_Inr)
  qed
qed


lemma frame_finish [frame_intro]: "frame (finish r)"
  unfolding finish_def by (auto intro!: frame_intro split: option.splits)

lemma advances_dispatch_motion: "axis_ok a \<Longrightarrow> advances a (snd (dispatch_motion hs ops env io rq a))"
proof -
  assume a: "axis_ok a"
  define m where "m = (if rq_op rq = ''cycle'' then guarded_cycle hs ops env io rq else guarded_idle hs ops env io rq)"
  have m: "advances a (snd (m a))" by (simp add: m_def advances_guarded_cycle [OF a] advances_guarded_idle [OF a])
  have sm: "advances a (snd (bnd m (\<lambda>f. ret (Some f)) a))"
    using m by (intro advances_bnd) (auto simp: ret_def advances_def)
  show ?thesis
    unfolding dispatch_motion_def m_def [symmetric]
  proof (rule advances_bnd)
    show c: "advances a (snd (catch (bnd m (\<lambda>f. ret (Some f)))
       (\<lambda>e. thn (if e = DeviceRejectedException then fail env ''AXIS_ADAPTER_FAULT'' e False
                 else fail env ''AXIS_MODEL_EXECUTION_FAILED'' e True) (thn forget_cycle (ret None))) a))"
    proof (rule advances_catch, rule sm)
      fix e b assume "bnd m (\<lambda>f. ret (Some f)) a = (Inl e, b)"
      then have "axis_ok b" using sm by (simp add: advances_def)
      then show "advances b (snd (thn (if e = DeviceRejectedException then fail env ''AXIS_ADAPTER_FAULT'' e False
                 else fail env ''AXIS_MODEL_EXECUTION_FAILED'' e True) (thn forget_cycle (ret None)) b))"
        by (cases "e = DeviceRejectedException") (simp_all add: advances_fail_thn frame_intro)
    qed
    fix f b assume "catch (bnd m (\<lambda>f. ret (Some f)))
       (\<lambda>e. thn (if e = DeviceRejectedException then fail env ''AXIS_ADAPTER_FAULT'' e False
                 else fail env ''AXIS_MODEL_EXECUTION_FAILED'' e True) (thn forget_cycle (ret None))) a = (Inr f, b)"
    then have b: "axis_ok b" using c by (simp add: advances_def)
    have "frame (case f of None \<Rightarrow> finish None | Some (Return r) \<Rightarrow> ret r | Some (Result r) \<Rightarrow> finish (Some r))"
      by (auto intro!: frame_intro split: option.splits flow.splits)
    from advances_frame [OF b this] show "advances b (snd ((case f of None \<Rightarrow> finish None | Some (Return r) \<Rightarrow> ret r
        | Some (Result r) \<Rightarrow> finish (Some r)) b))" .
  qed
qed

lemma advances_dispatch_access: "axis_ok a \<Longrightarrow> advances a (snd (dispatch_access hs ops env io rq a))"
  unfolding dispatch_access_def
proof (rule advances_catch)
  assume a: "axis_ok a"
  show i: "advances a (snd (inner_dispatch hs ops env io rq a))" by (rule advances_frame [OF a frame_inner_dispatch])
  fix e b assume "inner_dispatch hs ops env io rq a = (Inl e, b)"
  then have "axis_ok b" using i by (simp add: advances_def)
  then show "advances b (snd ((if e = OSError then
              (if rq_op rq = ''write'' \<and> (rq_index rq, rq_subindex rq) = (Some 0x2005, Some 1) then raise e
               else thn (fail env ''AXIS_MODEL_EXECUTION_FAILED'' e True)
                 (ret (SdoAbort 0x08000000 (Text ''Model access failed; manual restart required''))))
            else if is_KeyError e \<or> is_ValueError e then raise e
            else thn (fail env ''AXIS_MODEL_EXECUTION_FAILED'' e True)
              (ret (SdoAbort 0x08000000 (Text ''Model execution failed; manual restart required'')))) b))"
    by (simp add: advances_fail_thn frame_intro raise_run advances_refl)
qed

text \<open>
  C6. Every request, of any operation and with any outcome, keeps the guard of the axis well
  formed (a fault is recorded exactly in the phases that need one) and never clears a required
  restart.
\<close>

theorem dispatch_advances:
  assumes "axis_ok a"
  shows "advances a (snd (dispatch hs ops env io rq a))"
  using assms advances_dispatch_access [OF assms] advances_dispatch_motion [OF assms]
  by (cases "reads_statusword rq") (auto simp: dispatch_def pym advances_refl)

section \<open>The latch of a required restart\<close>

text \<open>Once a restart is required no request reaches the adapter.\<close>

lemma latched_cycle:
  assumes "axis_ok a" "restarting a"
  shows "ax_adapter (snd (guarded_cycle hs ops env io rq a)) = ax_adapter a"
proof (cases "\<exists>payload. ebind (field (rq_data rq)) fromhex = Inr payload \<and> int (length payload) = ax_rx_size a")
  case False
  then show ?thesis using assms
    by (cases "ebind (field (rq_data rq)) fromhex") (auto simp: guarded_cycle_def pym)
next
  case True
  then obtain payload where p: "ebind (field (rq_data rq)) fromhex = Inr payload" "int (length payload) = ax_rx_size a" by blast
  obtain c b where "guarded (prepare env 0 payload) a = (Inr (None, c), b)" "ax_adapter b = ax_adapter a"
    using advances_prepare [OF assms(1) p(2), of env] assms(2) by metis
  then show ?thesis using p by (simp add: guarded_cycle_def pym bnd_Inr forget_cycle_def guard_reply_def)
qed

lemma latched_motion:
  assumes "axis_ok a" "restarting a"
  shows "ax_adapter (snd (dispatch_motion hs ops env io rq a)) = ax_adapter a"
proof -
  define m where "m = (if rq_op rq = ''cycle'' then guarded_cycle hs ops env io rq else guarded_idle hs ops env io rq)"
  have "phase (fault_state a) \<noteq> Normal" using assms by (auto simp: axis_ok_def guard_ok_def)
  then have "ax_adapter (snd (m a)) = ax_adapter a"
    using latched_cycle [OF assms] by (simp add: m_def guarded_idle_def pym forget_cycle_def guard_reply_def)
  moreover have f: "ax_adapter (snd (finish r b)) = ax_adapter b" for r b
    by (simp add: finish_def pym split: option.splits)
  ultimately show ?thesis
    unfolding dispatch_motion_def m_def [symmetric]
    by (cases "m a"; cases "fst (m a)")
      (auto simp: bnd_def catch_def pym fail_def forget_cycle_def f split: flow.splits)
qed

text \<open>
  C4. Once an execution failure requires a restart, no read, write, cycle or idle request touches
  the adapter any more.
\<close>

theorem latched_dispatch:
  assumes "axis_ok a" "restarting a" "rq_op rq \<in> {''read'', ''write'', ''cycle'', ''idle''}"
  shows "ax_adapter (snd (dispatch hs ops env io rq a)) = ax_adapter a"
proof (cases "rq_op rq \<in> {''cycle'', ''idle''}")
  case True
  then show ?thesis using latched_motion [OF assms(1,2)] by (simp add: motion_dispatch)
next
  case False
  then have "rq_op rq \<in> {''read'', ''write''}" using assms(3) by simp
  then show ?thesis using assms(2) by (cases "reads_statusword rq") (auto simp: dispatch_def pym)
qed


section \<open>What reaches the model outside normal operation\<close>

text \<open>An adapter that also records the outputs applied to it.\<close>

definition inside :: "('s, 'a) pym \<Rightarrow> ('s \<times> bytes list, 'a) pym" where
  "inside m = on_part fst (\<lambda>s p. (s, snd p)) m"

definition spy :: "'s adapter_ops \<Rightarrow> ('s \<times> bytes list) adapter_ops" where
  "spy ops =
     \<lparr>ad_read_sdo = (\<lambda>i k n. inside (ad_read_sdo ops i k n)),
      ad_write_sdo = (\<lambda>i k p. inside (ad_write_sdo ops i k p)),
      ad_apply_outputs = (\<lambda>p. thn (modify (\<lambda>(s, l). (s, l @ [p]))) (inside (ad_apply_outputs ops p))),
      ad_step = (\<lambda>dt. inside (ad_step ops dt)),
      ad_read_inputs = inside (ad_read_inputs ops),
      ad_od_definition = (\<lambda>i k. inside (ad_od_definition ops i k)),
      ad_od_read = (\<lambda>i k. inside (ad_od_read ops i k)),
      ad_od_write = (\<lambda>i v k. inside (ad_od_write ops i v k)),
      ad_od_write_role = (\<lambda>r v. inside (ad_od_write_role ops r v)),
      ad_persistent_roles = (\<lambda>s. ad_persistent_roles ops (fst s)),
      ad_validate_parameters = (\<lambda>s. ad_validate_parameters ops (fst s))\<rparr>"

definition applied :: "('s \<times> bytes list) axis \<Rightarrow> bytes list" where
  "applied a = snd (ax_adapter a)"

text \<open>\<open>adds P m\<close>: the outputs that \<open>m\<close> applies satisfy \<open>P\<close>.\<close>

definition adds :: "(bytes \<Rightarrow> bool) \<Rightarrow> ('s \<times> bytes list, 'a) axis_m \<Rightarrow> bool" where
  "adds P m \<longleftrightarrow> (\<forall>a. \<exists>ps. applied (snd (m a)) = applied a @ ps \<and> list_all P ps)"

named_theorems adds_intro \<open>rules for recorded outputs\<close>

lemma addsE: "adds P m \<Longrightarrow> \<exists>ps. applied (snd (m a)) = applied a @ ps \<and> list_all P ps"
  by (simp add: adds_def)

lemma adds_same: "(\<And>a. applied (snd (m a)) = applied a) \<Longrightarrow> adds P m"
  unfolding adds_def by (intro allI exI [of _ "[]"]) simp

lemma adds_leaf [adds_intro]: "adds P (ret x)" "adds P (raise e)" "adds P (lift r)" "adds P (gets f)"
  by (rule adds_same, simp add: pym)+

lemma adds_modify [adds_intro]: "(\<And>a. ax_adapter (f a) = ax_adapter a) \<Longrightarrow> adds P (modify f)"
  by (rule adds_same) (simp add: pym applied_def)

lemma adds_seq:
  assumes "applied b = applied a @ ps" "list_all P ps" "\<exists>qs. applied c = applied b @ qs \<and> list_all P qs"
  shows "\<exists>ps. applied c = applied a @ ps \<and> list_all P ps"
  using assms by (metis append_assoc list_all_append)

lemma adds_bnd [adds_intro]:
  assumes "adds P m" "\<And>x. adds P (f x)"
  shows "adds P (bnd m f)"
  unfolding adds_def
proof
  fix a
  obtain r b where m: "m a = (r, b)" by fastforce
  obtain ps where ps: "applied b = applied a @ ps" "list_all P ps" using addsE [OF assms(1), of a] m by auto
  show "\<exists>ps. applied (snd (bnd m f a)) = applied a @ ps \<and> list_all P ps"
  proof (cases r)
    case (Inr x)
    then show ?thesis using m adds_seq [OF ps addsE [OF assms(2)]] by (simp add: bnd_def)
  qed (use m ps in \<open>simp add: bnd_def\<close>)
qed

lemma adds_catch [adds_intro]:
  assumes "adds P m" "\<And>e. adds P (h e)"
  shows "adds P (catch m h)"
  unfolding adds_def
proof
  fix a
  obtain r b where m: "m a = (r, b)" by fastforce
  obtain ps where ps: "applied b = applied a @ ps" "list_all P ps" using addsE [OF assms(1), of a] m by auto
  show "\<exists>ps. applied (snd (catch m h a)) = applied a @ ps \<and> list_all P ps"
  proof (cases r)
    case (Inl e)
    then show ?thesis using m adds_seq [OF ps addsE [OF assms(2)]] by (simp add: catch_def)
  qed (use m ps in \<open>simp add: catch_def\<close>)
qed

lemma adds_thn [adds_intro]: "adds P m \<Longrightarrow> adds P k \<Longrightarrow> adds P (thn m k)"
  by (simp add: thn_def adds_bnd)

lemma adds_if [adds_intro]: "(c \<Longrightarrow> adds P m) \<Longrightarrow> (\<not> c \<Longrightarrow> adds P n) \<Longrightarrow> adds P (if c then m else n)"
  by simp

lemma adds_whenm [adds_intro]: "(c \<Longrightarrow> adds P m) \<Longrightarrow> adds P (whenm c m)"
  by (auto simp: whenm_def intro: adds_leaf)

lemma adds_guarded [adds_intro]: "adds P (guarded m)"
  by (rule adds_same) (simp add: guarded_def pym applied_def split_def)

lemma adds_ad_inside [adds_intro]: "adds P (ad (inside m))"
  by (rule adds_same) (simp add: ad_def inside_def pym applied_def split_def)

lemma adds_apply:
  assumes "P p"
  shows "adds P (ad (thn (ad_apply_outputs (spy ops) p) (inside m)))"
proof -
  have *: "snd (snd (thn (ad_apply_outputs (spy ops) p) (inside m) s)) = snd s @ [p]" for s
    by (auto simp: spy_def pym bnd_def inside_def split_def split: prod.splits sum.splits)
  show ?thesis
    unfolding adds_def
    using assms by (intro allI exI [of _ "[p]"]) (simp add: ad_def on_part_def applied_def split_def *)
qed

lemma inside_thn: "thn (inside m) (inside k) = inside (thn m k)"
  by (rule ext) (auto simp: inside_def thn_def bnd_def on_part_def split: prod.splits sum.splits)


text \<open>The control words that a model may see in each phase of the guard.\<close>

definition quiet :: "phase \<Rightarrow> bytes \<Rightarrow> bool" where
  "quiet ph p \<longleftrightarrow>
     (case ph of
        Normal \<Rightarrow> True
      | Faulted \<Rightarrow> control_word p = 0 \<or> control_word p = 0x80
      | VerifyReset \<Rightarrow> control_word p = 0
      | Shutdown \<Rightarrow> control_word p AND 0x8f = 6
      | SwitchOn \<Rightarrow> control_word p AND 0x8f = 7
      | Enable \<Rightarrow> control_word p AND 0x8f = 15 \<and> control_word p AND 0x10 = 0 \<and> p ! 2 = 1)"

lemma forwards_quiet: "forwards ph payload p \<Longrightarrow> quiet ph p"
  by (cases ph) (auto simp: forwards_def quiet_def)

lemma adds_fail [adds_intro]: "adds P (fail env code e restart)" "adds P forget_cycle" "adds P guard_reply"
  unfolding fail_def forget_cycle_def guard_reply_def by (intro adds_intro; simp)+

lemma adds_finish [adds_intro]: "adds P (finish r)"
  unfolding finish_def by (auto intro!: adds_intro split: option.splits)

lemma adds_accept_result [adds_intro]: "adds P (accept_result env resetting result)"
  unfolding accept_result_def by (intro adds_intro)

lemma spy_step: "ad_step (spy ops) dt = inside (ad_step ops dt)" "ad_read_inputs (spy ops) = inside (ad_read_inputs ops)"
  by (simp_all add: spy_def)

lemma lift_bnd: "bnd (lift (Inr x)) f = f x"
  by (rule ext) (simp add: pym)

lemma adds_cycle:
  assumes "P p" "rq_op rq = ''cycle''" "rq_data rq = Some (hex p)"
  shows "adds P (exchange hs (spy ops) env io rq resetting)"
  using assms
  by (auto simp: exchange_def inner_dispatch_def dispatch_cycle_def field_def Let_def spy_step inside_thn lift_bnd
      intro!: adds_intro adds_apply)

lemma adds_disable:
  "P (with_word [0, 0] p) \<Longrightarrow> adds P (disable_before_reset (spy ops) p)"
  by (auto simp: disable_before_reset_def spy_step intro!: adds_intro adds_apply split: option.splits)

lemma quiet_cycle:
  assumes "axis_ok a" "rq_op rq = ''cycle''" "phase (fault_state a) \<noteq> Normal"
  shows "\<exists>ps. applied (snd (guarded_cycle hs (spy ops) env io rq a)) = applied a @ ps \<and>
    list_all (quiet (phase (fault_state a))) ps"
proof (cases "\<exists>payload. ebind (field (rq_data rq)) fromhex = Inr payload \<and> int (length payload) = ax_rx_size a")
  case False
  then show ?thesis
    by (cases "ebind (field (rq_data rq)) fromhex") (auto simp: guarded_cycle_def pym)
next
  case True
  then obtain payload where p: "ebind (field (rq_data rq)) fromhex = Inr payload" "int (length payload) = ax_rx_size a" by blast
  let ?P = "quiet (phase (fault_state a))"
  obtain r c b where b: "guarded (prepare env 0 payload) a = (Inr (r, c), b)" "ax_adapter b = ax_adapter a"
    "\<forall>q. r = Some q \<longrightarrow> forwards (phase (fault_state a)) payload q" "c \<longrightarrow> phase (fault_state a) \<in> {Faulted, VerifyReset}"
    by (rule advances_prepare [OF assms(1) p(2), where env = env]) (rule that; assumption)
  show ?thesis
  proof (cases r)
    case None
    then show ?thesis using p b by (simp add: guarded_cycle_def pym bnd_Inr forget_cycle_def guard_reply_def applied_def)
  next
    case (Some q)
    have q: "?P q" using b(3) Some forwards_quiet by blast
    have "adds ?P (thn (whenm c (thn forget_cycle (disable_before_reset (spy ops) q)))
        (exchange hs (spy ops) env io (rq\<lparr>rq_data := Some (hex q)\<rparr>) c))"
      using b(4) assms(2) q by (auto intro!: adds_intro adds_disable adds_cycle simp: quiet_def)
    from addsE [OF this, of b] show ?thesis
      using p b(1,2) Some by (simp add: guarded_cycle_def pym bnd_Inr applied_def)
  qed
qed

text \<open>
  C2. While an axis is not in the normal phase, a cycle request never lets the control word of the
  master through unchecked: every output that reaches the adapter, whatever the adapter does, is
  the disabling word or the reset pulse, or exactly the next step of the shutdown, switch-on,
  enable ladder.
\<close>

theorem quiet_dispatch:
  assumes "axis_ok a" "rq_op rq = ''cycle''" "phase (fault_state a) \<noteq> Normal"
  shows "\<exists>ps. applied (snd (dispatch hs (spy ops) env io rq a)) = applied a @ ps \<and>
    list_all (quiet (phase (fault_state a))) ps"
proof -
  obtain x b where x: "guarded_cycle hs (spy ops) env io rq a = (x, b)" by fastforce
  obtain ps where ps: "applied b = applied a @ ps" "list_all (quiet (phase (fault_state a))) ps"
    using quiet_cycle [OF assms, of hs ops env io] x by auto
  have f: "ax_adapter (snd (finish r c)) = ax_adapter c" for r c
    by (simp add: finish_def pym split: option.splits)
  have "applied (snd (dispatch_motion hs (spy ops) env io rq a)) = applied b"
    using x assms(2)
    by (cases x) (auto simp: dispatch_motion_def bnd_def catch_def pym fail_def forget_cycle_def f applied_def split: flow.splits)
  then show ?thesis using ps assms(2) by (simp add: motion_dispatch)
qed

text \<open>
  C7. A cycle or idle request is always answered: whatever the adapter raises, the dispatcher
  returns a reply and no exception, also when no result was assigned.
\<close>

theorem motion_request_answered:
  "\<exists>r b. dispatch_motion hs ops env io rq a = (Inr r, b)"
  by (rule dispatch_motion_returns)

section \<open>The guard of a dispatched request\<close>

text \<open>
  The dispatcher drives the guard as \<open>guard_cycle\<close> describes it: \<open>model_outcome\<close> is what the adapter
  answers to the payload that the guard forwards, read off the run of the inner dispatcher.
\<close>

definition outcome_of :: "reply res \<Rightarrow> outcome" where
  "outcome_of r = (case r of
      Inl e \<Rightarrow> if e = DeviceRejectedException then Rejected else Crashed e
    | Inr reply \<Rightarrow> (case ebind (reply_data reply) fromhex of Inl e \<Rightarrow> Crashed e | Inr bs \<Rightarrow> Output bs))"

definition model_outcome :: "'s adapter_ops \<Rightarrow> environment \<Rightarrow> request \<Rightarrow> bytes \<Rightarrow> 's axis \<Rightarrow> outcome" where
  "model_outcome ops env rq payload a =
     (case prepare env 0 payload (fault_state a) of
        (Inr (Some p, resetting), g) \<Rightarrow>
          outcome_of (fst (thn (whenm resetting (thn forget_cycle (disable_before_reset ops p)))
            (dispatch_cycle ops env (rq\<lparr>rq_data := Some (hex p)\<rparr>)) (a\<lparr>fault_state := g\<rparr>)))
      | _ \<Rightarrow> Rejected)"

definition cycle_payload :: "request \<Rightarrow> 's axis \<Rightarrow> bytes option" where
  "cycle_payload rq a =
     (if rq_op rq = ''cycle'' then
        (case ebind (field (rq_data rq)) fromhex of
           Inl _ \<Rightarrow> None
         | Inr p \<Rightarrow> if int (length p) = ax_rx_size a then Some p else None)
      else None)"

lemma finish_guard: "fault_state (snd (finish r a)) = fault_state a"
  using frameD [OF frame_finish] by (metis prod.collapse)

lemma motion_guard:
  fixes hs ops env io rq a
  defines "m \<equiv> if rq_op rq = ''cycle'' then guarded_cycle hs ops env io rq else guarded_idle hs ops env io rq"
  shows "fault_state (snd (dispatch_motion hs ops env io rq a)) =
    (case m a of
       (Inr _, b) \<Rightarrow> fault_state b
     | (Inl e, b) \<Rightarrow> detect env 4 (if e = DeviceRejectedException then ''AXIS_ADAPTER_FAULT'' else ''AXIS_MODEL_EXECUTION_FAILED'')
         (Exc e) (e \<noteq> DeviceRejectedException) (fault_state b))"
  unfolding dispatch_motion_def m_def [symmetric]
  by (cases "m a"; cases "fst (m a)")
    (auto simp: bnd_def catch_def pym fail_def forget_cycle_def finish_guard split: flow.splits)

lemma cycle_reply:
  "dispatch_cycle ops env rq a = (Inr r, b) \<Longrightarrow> \<exists>raw n. r = CycleData (hex raw) n"
  by (auto simp: dispatch_cycle_def pym bnd_def Let_def ad_def split: prod.splits sum.splits if_splits)

lemma accept_result_guard:
  "reply_data r = Inr (hex out) \<Longrightarrow>
   fst (accept_result env resetting r a) = Inr () \<and>
   fault_state (snd (accept_result env resetting r a)) =
     (case accept env 1 out resetting (fault_state a) of
        (Inr _, h) \<Rightarrow> h
      | (Inl e, h) \<Rightarrow> detect env 4 ''AXIS_MODEL_OUTPUT_INVALID'' (Exc e) True h)"
  by (cases "length out = length (last (fault_state a))")
    (simp_all add: accept_result_def accept_def guarded_def pym bnd_def catch_def fail_def forget_cycle_def Let_def)

lemma inner_cycle: "rq_op rq = ''cycle'' \<Longrightarrow> inner_dispatch hs ops env io rq = dispatch_cycle ops env rq"
  by (simp add: inner_dispatch_def)

lemma frame_cycle: "frame (dispatch_cycle ops env rq)"
  unfolding dispatch_cycle_def Let_def by (intro frame_intro; simp)

lemma cycle_guard:
  assumes "axis_ok a" "cycle_payload rq a = Some payload"
  shows "fault_state (snd (dispatch_motion hs ops env io rq a)) =
    guard_cycle env payload (model_outcome ops env rq payload a) (fault_state a)"
proof -
  have rq: "rq_op rq = ''cycle''" "ebind (field (rq_data rq)) fromhex = Inr payload" "int (length payload) = ax_rx_size a"
    using assms(2) by (auto simp: cycle_payload_def split: if_splits sum.splits)
  have g: "guard_ok (fault_state a)" "2 < length payload" using assms(1) rq(3) by (auto simp: axis_ok_def)
  obtain r c h where h: "prepare env 0 payload (fault_state a) = (Inr (r, c), h)"
    by (rule prepare_spec [OF g, where env = env and k = 0]) (rule that)
  then have p: "guarded (prepare env 0 payload) a = (Inr (r, c), a\<lparr>fault_state := h\<rparr>)" by (simp add: guarded_def on_part_def)
  show ?thesis
  proof (cases r)
    case None
    then have "\<exists>x. guarded_cycle hs ops env io rq a = (Inr x, a\<lparr>fault_state := h, last_cycle := None\<rparr>)"
      using rq p by (simp add: guarded_cycle_def pym bnd_Inr forget_cycle_def guard_reply_def)
    then show ?thesis using rq(1) h None by (auto simp: motion_guard)
  next
    case (Some q)
    let ?b = "a\<lparr>fault_state := h\<rparr>" and ?rq = "rq\<lparr>rq_data := Some (hex q)\<rparr>"
    let ?pre = "whenm c (thn forget_cycle (disable_before_reset ops q))"
    let ?m = "thn ?pre (dispatch_cycle ops env ?rq)"
    have fm: "frame ?m" by (intro frame_intro frame_cycle)
    have run: "guarded_cycle hs ops env io rq a =
        bnd ?m (\<lambda>result. thn (accept_result env c result) (ret (Result result))) ?b"
      using rq p Some by (simp add: guarded_cycle_def exchange_def inner_cycle pym bnd_Inr thn_def bnd_def split: prod.splits sum.splits)
    have out: "model_outcome ops env rq payload a = outcome_of (fst (?m ?b))" using h Some by (simp add: model_outcome_def)
    show ?thesis
    proof (cases "?m ?b")
      case (Pair x b')
      have f: "fault_state b' = h" using frameD [OF fm Pair] by simp
      show ?thesis
      proof (cases x)
        case (Inl e)
        then show ?thesis using run Pair f h Some out rq(1) by (simp add: motion_guard bnd_def outcome_of_def)
      next
        case (Inr res)
        obtain raw n where res: "res = CycleData (hex raw) n"
          using Pair Inr cycle_reply [of ops env ?rq] by (fastforce simp: thn_def bnd_def split: prod.splits sum.splits)
        have o: "model_outcome ops env rq payload a = Output raw" using out Pair Inr res by (simp add: outcome_of_def)
        note acc = accept_result_guard [of res raw env c b']
        show ?thesis using run Pair Inr acc res f h Some o rq(1)
          by (cases "accept_result env c res b'") (auto simp: motion_guard bnd_def thn_def ret_def)
      qed
    qed
  qed
qed

text \<open>Every other request leaves the phase or records a failure.\<close>

abbreviation phase_of :: "'s axis \<Rightarrow> phase" where
  "phase_of a \<equiv> phase (fault_state a)"

lemma accept_phase: "phase (snd (accept env k out False g)) \<in> {phase g, Faulted}"
  by (auto simp: accept_def pym bnd_def Let_def detect_fields)

lemma exchange_phase: "phase_of (snd (exchange hs ops env io rq False a)) \<in> {phase_of a, Faulted}"
proof (cases "inner_dispatch hs ops env io rq a")
  case (Pair x b)
  have f: "fault_state b = fault_state a" using frameD [OF frame_inner_dispatch Pair] by simp
  have r: "phase_of (snd (accept_result env False res b)) \<in> {phase_of b, Faulted}" for res
  proof (cases "ebind (reply_data res) fromhex")
    case (Inl e)
    then show ?thesis by (simp add: accept_result_def pym bnd_def fail_def forget_cycle_def detect_fields)
  next
    case (Inr out)
    then show ?thesis using accept_phase [of env 1 out "fault_state b"]
      by (cases "accept env 1 out False (fault_state b)"; cases "fst (accept env 1 out False (fault_state b))")
        (auto simp: accept_result_def guarded_def pym bnd_def catch_def fail_def forget_cycle_def detect_fields)
  qed
  show ?thesis
  proof (cases x)
    case (Inl e)
    then show ?thesis using Pair f by (simp add: exchange_def bnd_def)
  next
    case (Inr res)
    then show ?thesis using Pair f r [of res]
      by (cases "accept_result env False res b"; cases "fst (accept_result env False res b)")
        (auto simp: exchange_def bnd_def thn_def ret_def)
  qed
qed

lemma motion_phase:
  assumes "cycle_payload rq a = None"
  shows "phase_of (snd (dispatch_motion hs ops env io rq a)) \<in> {phase_of a, Faulted}"
proof (cases "rq_op rq = ''cycle''")
  case True
  then have "\<exists>e. guarded_cycle hs ops env io rq a = (Inl e, a)"
    using assms by (auto simp: cycle_payload_def guarded_cycle_def pym bnd_def split: sum.splits if_splits)
  then show ?thesis using True by (auto simp: motion_guard detect_fields)
next
  case False
  have "phase_of (snd (guarded_idle hs ops env io rq a)) \<in> {phase_of a, Faulted}"
    using exchange_phase [of hs ops env io rq a]
    by (auto simp: guarded_idle_def pym bnd_def forget_cycle_def guard_reply_def)
  then show ?thesis using False
    by (cases "guarded_idle hs ops env io rq a"; cases "fst (guarded_idle hs ops env io rq a)") (auto simp: motion_guard detect_fields)
qed

lemma access_phase: "phase_of (snd (dispatch_access hs ops env io rq a)) \<in> {phase_of a, Faulted}"
proof (cases "inner_dispatch hs ops env io rq a")
  case (Pair x b)
  have "fault_state b = fault_state a" using frameD [OF frame_inner_dispatch Pair] by simp
  then show ?thesis using Pair by (cases x) (auto simp: dispatch_access_def catch_def pym bnd_def fail_def detect_fields)
qed

text \<open>
  C5. For every adapter, the dispatcher moves the guard of an axis as the guard cycle of the
  recovery ladder describes it: a cycle request with a payload of the right size leaves exactly
  the guard that preparing the payload and then accepting the output, recording the refusal or
  latching the failure of the model gives; every other request leaves the phase as it is or
  records a fault.
\<close>

theorem dispatch_refines_guard:
  assumes "axis_ok a"
  shows "case cycle_payload rq a of
      Some payload \<Rightarrow> fault_state (snd (dispatch hs ops env io rq a)) =
        guard_cycle env payload (model_outcome ops env rq payload a) (fault_state a)
    | None \<Rightarrow> phase_of (snd (dispatch hs ops env io rq a)) \<in> {phase_of a, Faulted}"
proof (cases "cycle_payload rq a")
  case None
  show ?thesis
  proof (cases "rq_op rq \<in> {''cycle'', ''idle''}")
    case True
    then show ?thesis using None motion_phase [OF None, of hs ops env io] by (simp add: motion_dispatch)
  next
    case False
    then show ?thesis using None access_phase [of hs ops env io rq a]
      by (cases "reads_statusword rq") (auto simp: dispatch_def pym bnd_def)
  qed
next
  case (Some payload)
  then have "rq_op rq = ''cycle''" by (simp add: cycle_payload_def split: if_splits)
  then show ?thesis using Some cycle_guard [OF assms Some, of hs ops env io] by (simp add: motion_dispatch)
qed

end
