(* ===== verification/StoreProps.thy ===== *)
theory StoreProps
  imports ParameterStore
begin

text \<open>
  What the parameter store guarantees for every adapter whose dictionary behaves like one
  (locale \<open>store_adapter\<close>): a snapshot is loaded as a whole or not at all, and what was
  saved is what a restarted axis gets.
\<close>

section \<open>Keys of parameters\<close>

lemma hex_digit_facts:
  assumes "n < 16"
  shows "digit_val (hex_digit n) = Some n" "hex_digit n \<notin> set ''_-+:''" "\<not> is_space (hex_digit n)"
    "lower_char (hex_digit n) \<noteq> CHR ''x''"
proof -
  have v: "of_char (hex_digit n) = (if n < 10 then 48 + n else 87 + n)" using assms by (simp add: hex_digit_def)
  have ne: "hex_digit n \<noteq> c" if "of_char c \<notin> {48..57} \<union> {97..102 :: nat}" for c
    using that v assms by (cases "n < 10") auto
  show "hex_digit n \<notin> set ''_-+:''" using ne by auto
  show "digit_val (hex_digit n) = Some n" "\<not> is_space (hex_digit n)"
    using v assms by (auto simp: digit_val_def is_space_def Let_def)
  have "lower_char (hex_digit n) = hex_digit n" using v assms by (simp add: lower_char_def Let_def)
  then show "lower_char (hex_digit n) \<noteq> CHR ''x''" using ne by auto
qed

fun digs :: "nat \<Rightarrow> nat \<Rightarrow> nat list" where
  "digs 0 n = []"
| "digs (Suc w) n = digs w (n div 16) @ [n mod 16]"

lemma hex_digits_digs: "hex_digits w n = map hex_digit (digs w n)"
  by (induction w arbitrary: n) simp_all

lemma digs_less: "d \<in> set (digs w n) \<Longrightarrow> d < 16"
  by (induction w arbitrary: n) auto

lemma length_digs [simp]: "length (digs w n) = w"
  by (induction w arbitrary: n) simp_all

lemma digs_val: "n < 16 ^ w \<Longrightarrow> foldl (\<lambda>a d. 16 * a + int d) 0 (digs w n) = int n"
proof (induction w arbitrary: n)
  case (Suc w)
  then have "n div 16 < 16 ^ w" by (simp add: less_mult_imp_div_less mult.commute)
  moreover have "16 * int (n div 16) + int (n mod 16) = int n" by presburger
  ultimately show ?case using Suc.IH [of "n div 16"] by simp
qed simp

lemma digits_val_digs:
  "list_all (\<lambda>d. d < 16) ds \<Longrightarrow>
   digits_val 16 p acc (map hex_digit ds) =
     (if p \<or> ds \<noteq> [] then Some (foldl (\<lambda>a d. 16 * a + int d) acc ds) else None)"
proof (induction ds arbitrary: p acc)
  case (Cons d ds)
  then have "hex_digit d \<noteq> CHR ''_''" "digit_val (hex_digit d) = Some d" using hex_digit_facts [of d] by auto
  then show ?case using Cons by simp
qed simp

lemma int_of_hex_digits:
  assumes "n < 16 ^ w" "2 \<le> w"
  shows "int_of_str 16 (hex_digits w n) = Inr (int n)"
proof -
  let ?ds = "digs w n"
  have l: "list_all (\<lambda>d. d < 16) ?ds" using digs_less by (auto simp: list_all_iff)
  obtain a b r where ds: "?ds = a # b # r"
    using assms(2) length_digs [of w n] by (cases ?ds; cases "tl ?ds") auto
  have ab: "a < 16" "b < 16" using l ds by simp_all
  have "strip (hex_digits w n) = hex_digits w n"
    using l hex_digit_facts by (intro strip_id) (auto simp: hex_digits_digs list_all_iff)
  moreover have "strip_sign (hex_digits w n) = (False, hex_digits w n)"
    using hex_digit_facts(2) [OF ab(1)] by (simp add: hex_digits_digs ds)
  moreover have "lower (take 2 (hex_digits w n)) \<noteq> ''0x''"
    using hex_digit_facts(4) [OF ab(2)] by (simp add: hex_digits_digs ds lower_def)
  moreover have "digits_val 16 False 0 (hex_digits w n) = Some (int n)"
    using digits_val_digs [OF l, of False 0] digs_val [OF assms(1)] ds by (simp add: hex_digits_digs)
  ultimately show ?thesis by (simp add: int_of_str_def unsigned_val_def)
qed

definition key_range :: "int \<times> int \<Rightarrow> bool" where
  "key_range = (\<lambda>(i, k). 0 \<le> i \<and> i < 0x10000 \<and> 0 \<le> k \<and> k < 0x100)"

lemma parse_parameter_key:
  assumes "key_range (i, k)"
  shows "parse_key (parameter_key i k) = Inr (i, k)"
proof -
  have c: "CHR '':'' \<notin> set (hex_digits w n)" for w n
    using hex_digit_facts(2) digs_less by (fastforce simp: hex_digits_digs)
  have t: "takeWhile (\<lambda>c. c \<noteq> CHR '':'') (hex_digits 4 (nat i) @ CHR '':'' # r) = hex_digits 4 (nat i)"
    "dropWhile (\<lambda>c. c \<noteq> CHR '':'') (hex_digits 4 (nat i) @ CHR '':'' # r) = CHR '':'' # r" for r
    using c [of 4 "nat i"] by (subst takeWhile_append2 dropWhile_append2; fastforce)+
  have "int_of_str 16 (hex_digits 4 (nat i)) = Inr i" "int_of_str 16 (hex_digits 2 (nat k)) = Inr k"
    using assms int_of_hex_digits [of "nat i" 4] int_of_hex_digits [of "nat k" 2] by (auto simp: key_range_def)
  then show ?thesis using t c [of 2 "nat k"] by (simp add: parse_key_def parameter_key_def Let_def del: hex_digits.simps)
qed

lemma parameter_key_inj: "key_range x \<Longrightarrow> key_range y \<Longrightarrow> parameter_key (fst x) (snd x) = parameter_key (fst y) (snd y) \<Longrightarrow> x = y"
  using parse_parameter_key [of "fst x" "snd x"] parse_parameter_key [of "fst y" "snd y"] by (cases x; cases y) auto

section \<open>The dictionary behind the store\<close>

locale store_adapter =
  fixes ops :: "'s adapter_ops"
  assumes definition_pure: "snd (ad_od_definition ops i k s) = s"
    and sdo_pure: "snd (ad_read_sdo ops i k n s) = s"
    and write_defined: "fst (ad_od_definition ops i k s) = Inr d \<Longrightarrow> fst (ad_od_write ops i v k s) = Inr ()"
    and definition_kept: "fst (ad_od_definition ops i' k' (snd (ad_od_write ops i v k s))) = fst (ad_od_definition ops i' k' s)"
    and roles_kept: "ad_persistent_roles ops (snd (ad_od_write ops i v k s)) = ad_persistent_roles ops s"
    and read_written: "fst (ad_od_definition ops i k s) = Inr d \<Longrightarrow>
      fst (ad_od_read ops i' k' (snd (ad_od_write ops i v k s))) = (if (i', k') = (i, k) then Inr v else fst (ad_od_read ops i' k' s))"
    and sdo_encodes: "fst (ad_od_definition ops i k s) = Inr d \<Longrightarrow> fst (ad_od_read ops i k s) = Inr v \<Longrightarrow>
      fst (ad_read_sdo ops i k n s) = encode_od_value (def_data_type d) v (Some n)"

text \<open>Computations that change nothing.\<close>

lemma bnd_still: "snd (m s) = s \<Longrightarrow> bnd m f s = (case fst (m s) of Inl e \<Rightarrow> (Inl e, s) | Inr x \<Rightarrow> f x s)"
  by (cases "m s") (auto simp: bnd_def split: sum.splits)

lemma bnd_lift: "bnd (lift r) f s = (case r of Inl e \<Rightarrow> (Inl e, s) | Inr x \<Rightarrow> f x s)"
  by (cases r) (simp_all add: bnd_def lift_def)

lemma mapM_still: "(\<And>x s. snd (f x s) = s) \<Longrightarrow> snd (mapM f xs s) = s"
proof (induction xs arbitrary: s)
  case (Cons x xs)
  have "snd (mapM f xs s) = s" using Cons by blast
  then show ?case using Cons.prems [of x s] by (simp add: bnd_still ret_def split: sum.splits)
qed (simp add: ret_def)

lemma mapM_results:
  assumes "\<And>x s. snd (f x s) = s" "mapM f xs s = (Inr ys, t)"
  shows "list_all2 (\<lambda>x y. f x s = (Inr y, s)) xs ys"
  using assms(2)
proof (induction xs arbitrary: ys t)
  case (Cons x xs)
  have st: "snd (f x s) = s" "snd (mapM f xs s) = s" using assms(1) mapM_still [of f] by auto
  obtain y zs where r: "fst (f x s) = Inr y" "fst (mapM f xs s) = Inr zs" "ys = y # zs"
    using Cons.prems st by (auto simp: bnd_still ret_def split: sum.splits)
  then have "f x s = (Inr y, s)" "mapM f xs s = (Inr zs, s)" using st by (simp_all add: prod_eq_iff)
  then show ?case using Cons.IH [of zs s] r(3) by simp
qed (simp add: ret_def)

lemma mapM_all:
  assumes "list_all2 (\<lambda>x y. f x s = (Inr y, s)) xs ys"
  shows "mapM f xs s = (Inr ys, s)"
  using assms by (induction rule: list_all2_induct) (simp_all add: ret_def bnd_def)

context store_adapter
begin

lemmas bnd_definition = bnd_still [where m = "ad_od_definition ops i k" for i k, OF definition_pure]

lemmas bnd_sdo = bnd_still [where m = "ad_read_sdo ops i k n" for i k n, OF sdo_pure]

lemma value_pure: "snd (parameter_value ops x s) = s"
  by (cases x) (simp add: parameter_value_def bnd_definition bnd_sdo ret_def split: sum.splits)

lemma values_run:
  "parameter_values ops s = (case fst (mapM (parameter_value ops) (ad_persistent_roles ops s) s) of
     Inl e \<Rightarrow> (Inl e, s) | Inr kvs \<Rightarrow> (Inr (foldl (\<lambda>d (k, v). AList.update k v d) [] kvs), s))"
  using mapM_still [of "parameter_value ops"] value_pure
  by (simp add: parameter_values_def pym bnd_still split: sum.splits)

lemma values_pure: "snd (parameter_values ops s) = s"
  by (simp add: values_run split: sum.splits)

lemma check_pure: "snd (check_parameter ops vs x s) = s"
  by (cases x) (simp add: check_parameter_def bnd_definition bnd_lift ret_def raise_def split: option.splits sum.splits prod.splits)

lemma check_defined:
  assumes "check_parameter ops vs x s = (Inr ((i, k), v), s)"
  shows "\<exists>d. fst (ad_od_definition ops i k s) = Inr d"
  using assms
  by (cases x) (auto simp: check_parameter_def bnd_definition bnd_lift ret_def raise_def
      split: option.splits sum.splits prod.splits if_splits)

section \<open>Loading is all or nothing\<close>

abbreviation defined_in :: "'s \<Rightarrow> (int \<times> int) \<times> odval \<Rightarrow> bool" where
  "defined_in s \<equiv> (\<lambda>((i, k), v). \<exists>d. fst (ad_od_definition ops i k s) = Inr d)"

lemma validate_run:
  "thn (validate_values ops ds) (ret ds) s =
     (case (case ad_validate_parameters ops s of None \<Rightarrow> Inr () | Some f \<Rightarrow> f ds) of Inl e \<Rightarrow> (Inl e, s) | Inr _ \<Rightarrow> (Inr ds, s))"
  by (simp add: validate_values_def thn_def ret_def bnd_def lift_def gets_def split: option.splits sum.splits)

lemma check_file_pure: "snd (check_file dg ops dev f s) = s"
proof -
  have m: "snd (mapM (check_parameter ops vs) xs s) = s" for vs xs by (rule mapM_still) (rule check_pure)
  show ?thesis
    by (simp add: check_file_def raise_def Let_def bnd_still values_pure m validate_run split: stored.splits sum.splits)
qed

lemma check_file_defined:
  assumes "fst (check_file dg ops dev f s) = Inr ds"
  shows "list_all (defined_in s) ds"
proof -
  obtain vs ex where m: "fst (mapM (check_parameter ops vs) ex s) = Inr ds"
  proof -
    have m: "snd (mapM (check_parameter ops vs) xs s) = s" for vs xs by (rule mapM_still) (rule check_pure)
    show ?thesis using assms that
      by (auto simp: check_file_def raise_def Let_def bnd_still values_pure m validate_run
          split: stored.splits sum.splits if_splits)
  qed
  have "list_all2 (\<lambda>x y. check_parameter ops vs x s = (Inr y, s)) ex ds"
    using mapM_results [of "check_parameter ops vs" ex s ds s] m mapM_still [of "check_parameter ops vs" ex s] check_pure
    by (simp add: prod_eq_iff)
  then have "\<exists>x. check_parameter ops vs x s = (Inr y, s)" if "y \<in> set ds" for y
    using that by (simp add: list_all2_conv_all_nth in_set_conv_nth split_paired_Ex del: split_paired_All) (metis prod.collapse)
  then show ?thesis using check_defined [of vs _ s] by (fastforce simp: list_all_iff)
qed

lemma install_run:
  assumes "list_all (defined_in s) ds"
  shows "\<exists>t. install ops ds s = (Inr (), t) \<and>
    (\<forall>i k. fst (ad_od_definition ops i k t) = fst (ad_od_definition ops i k s)) \<and>
    ad_persistent_roles ops t = ad_persistent_roles ops s \<and>
    (\<forall>i k. fst (ad_od_read ops i k t) = (case map_of (rev ds) (i, k) of None \<Rightarrow> fst (ad_od_read ops i k s) | Some v \<Rightarrow> Inr v))"
  using assms
proof (induction ds arbitrary: s)
  case Nil
  then show ?case by (simp add: install_def ret_def)
next
  case (Cons x ds)
  obtain i k v where x: "x = ((i, k), v)" by (cases x) auto
  obtain d where d: "fst (ad_od_definition ops i k s) = Inr d" using Cons.prems x by auto
  define u where "u = snd (ad_od_write ops i v k s)"
  have w: "ad_od_write ops i v k s = (Inr (), u)" using write_defined [OF d, of v] by (simp add: u_def prod_eq_iff)
  have "list_all (defined_in u) ds" using Cons.prems definition_kept [of _ _ i v k s] by (simp add: u_def)
  from Cons.IH [OF this] obtain t where t: "install ops ds u = (Inr (), t)"
    "\<forall>i k. fst (ad_od_definition ops i k t) = fst (ad_od_definition ops i k u)"
    "ad_persistent_roles ops t = ad_persistent_roles ops u"
    "\<forall>i k. fst (ad_od_read ops i k t) = (case map_of (rev ds) (i, k) of None \<Rightarrow> fst (ad_od_read ops i k u) | Some v \<Rightarrow> Inr v)" by blast
  have "install ops (x # ds) s = (Inr (), t)" using w t(1) by (simp add: install_def x thn_def bnd_def)
  then show ?case
    using t(2-4) definition_kept [of _ _ i v k s] roles_kept [of i v k s] read_written [OF d, of _ _ v]
    by (auto simp: u_def x map_add_def split: option.splits)
qed

lemma load_cases:
  "load dg ops file a = (case file of None \<Rightarrow> (Inr False, a)
     | Some f \<Rightarrow> (case fst (check_file dg ops (ax_device a) f (ax_adapter a)) of
         Inl e \<Rightarrow> (Inl e, a)
       | Inr ds \<Rightarrow> (Inr True, a\<lparr>ax_adapter := snd (install ops ds (ax_adapter a))\<rparr>)))"
proof (cases "file")
  case None
  then show ?thesis by (simp add: load_def ret_def)
next
  case (Some f)
  let ?c = "check_file dg ops (ax_device a) f"
  have c: "snd (?c (ax_adapter a)) = ax_adapter a" by (rule check_file_pure)
  show ?thesis
  proof (cases "fst (?c (ax_adapter a))")
    case (Inl e)
    then have "?c (ax_adapter a) = (Inl e, ax_adapter a)" using c by (simp add: prod_eq_iff)
    then show ?thesis using Some by (simp add: load_def ad_def on_part_def pym bnd_def)
  next
    case (Inr ds)
    then have r: "?c (ax_adapter a) = (Inr ds, ax_adapter a)" using c by (simp add: prod_eq_iff)
    obtain t where "install ops ds (ax_adapter a) = (Inr (), t)"
      using install_run [OF check_file_defined [OF Inr]] by blast
    then show ?thesis using Some r by (simp add: load_def ad_def on_part_def pym bnd_def thn_def)
  qed
qed

lemma update_distinct: "distinct (map fst d) \<Longrightarrow> distinct (map fst (foldl (\<lambda>d (k, v). AList.update k v d) d kvs))"
  by (induction kvs arbitrary: d) (auto simp: distinct_update)

lemma nonfinite_refused:
  assumes "save dg ops None a = (Inr (), b)" "fst (parameter_values ops (ax_adapter a)) = Inr vs"
    and "(parameter_key i k, raw) \<in> set vs" "key_range (i, k)" "fst (ad_od_definition ops i k (ax_adapter a)) = Inr d"
    and "fromhex raw = Inr bs" "decode_od_value (def_data_type d) bs = Inr v" "nonfinite v"
    and "ad_validate_parameters ops (ax_adapter a) = None"
  shows "\<exists>e. load dg ops (ax_file b) a = (Inl e, a)"
proof -
  let ?s = "ax_adapter a"
  have pv: "parameter_values ops ?s = (Inr vs, ?s)" using assms(2) values_pure [of ?s] by (simp add: prod_eq_iff)
  have new: "ax_file b = Some (Stored (make_file dg (make_snapshot (ax_device a) vs)))"
    using assms(1,9) pv
    by (auto simp: save_def save_checks_def ad_def on_part_def pym bnd_def thn_def Let_def split: if_splits)
  have dist: "distinct (map fst vs)"
    using assms(2) update_distinct [of "[]"] by (auto simp: values_run split: sum.splits)
  have bad: "fst (check_parameter ops vs (parameter_key i k, raw) ?s) = Inl ValueError"
    using assms(3-8) dist
    by (simp add: check_parameter_def parse_parameter_key bnd_lift bnd_definition raise_def)
  have "fst (check_file dg ops (ax_device a) (Stored (make_file dg (make_snapshot (ax_device a) vs))) ?s) \<noteq> Inr ds" for ds
  proof
    assume c: "fst (check_file dg ops (ax_device a) (Stored (make_file dg (make_snapshot (ax_device a) vs))) ?s) = Inr ds"
    have m: "snd (mapM (check_parameter ops vs) xs ?s) = ?s" for xs by (rule mapM_still) (rule check_pure)
    have "\<exists>ys. fst (mapM (check_parameter ops vs) vs ?s) = Inr ys"
      using c pv m [of vs]
      by (auto simp: check_file_def make_file_def make_snapshot_def bnd_still values_pure validate_run raise_def Let_def
          split: sum.splits if_splits)
    then obtain ys where "mapM (check_parameter ops vs) vs ?s = (Inr ys, ?s)" using m by (metis prod.collapse)
    from mapM_results [OF check_pure this] obtain j where "j < length vs" "vs ! j = (parameter_key i k, raw)"
      "check_parameter ops vs (vs ! j) ?s = (Inr (ys ! j), ?s)"
      using assms(3) unfolding list_all2_conv_all_nth in_set_conv_nth by blast
    then show False using bad by simp
  qed
  then show ?thesis using load_cases [of dg "ax_file b" a] new by (auto split: sum.splits)
qed

lemma load_atomic: "load dg ops file a = (Inl e, b) \<Longrightarrow> b = a"
  by (auto simp: load_cases split: option.splits sum.splits)

end

section \<open>What is saved is what is loaded\<close>

text \<open>A persistent value whose encoding the store accepts: it has the size of its entry, its type represents it, and it is finite.\<close>

definition storable_value :: "'s adapter_ops \<Rightarrow> 's \<Rightarrow> int \<times> int \<Rightarrow> bool" where
  "storable_value ops s = (\<lambda>(i, k).
     case fst (ad_od_definition ops i k s) of
       Inl _ \<Rightarrow> False
     | Inr d \<Rightarrow> (case fst (ad_read_sdo ops i k (nat (def_bit_size d div 8)) s) of
         Inl _ \<Rightarrow> False
       | Inr raw \<Rightarrow> length raw = nat (def_bit_size d div 8) \<and> lossless (def_data_type d) raw \<and>
           (case decode_od_value (def_data_type d) raw of Inl _ \<Rightarrow> False | Inr v \<Rightarrow> \<not> nonfinite v)))"

definition storable :: "'s adapter_ops \<Rightarrow> 's \<Rightarrow> bool" where
  "storable ops s \<longleftrightarrow> distinct (ad_persistent_roles ops s) \<and>
     list_all (\<lambda>x. key_range x \<and> storable_value ops s x) (ad_persistent_roles ops s)"

definition raw_of :: "'s adapter_ops \<Rightarrow> 's \<Rightarrow> int \<times> int \<Rightarrow> bytes" where
  "raw_of ops s = (\<lambda>(i, k).
     case fst (ad_od_definition ops i k s) of
       Inl _ \<Rightarrow> []
     | Inr d \<Rightarrow> (case fst (ad_read_sdo ops i k (nat (def_bit_size d div 8)) s) of Inl _ \<Rightarrow> [] | Inr raw \<Rightarrow> raw))"

definition stored_values :: "(int \<times> int \<Rightarrow> bytes) \<Rightarrow> (int \<times> int) list \<Rightarrow> (string \<times> string) list" where
  "stored_values raw rs = map (\<lambda>x. (parameter_key (fst x) (snd x), hex (raw x))) rs"

text \<open>Two adapters of the same device: they agree on the persistent roles, their definitions and the read-only values.\<close>

definition alike :: "'s adapter_ops \<Rightarrow> 's \<Rightarrow> 's \<Rightarrow> bool" where
  "alike ops a c \<longleftrightarrow> ad_persistent_roles ops c = ad_persistent_roles ops a \<and>
     (\<forall>(i, k) \<in> set (ad_persistent_roles ops a). fst (ad_od_definition ops i k c) = fst (ad_od_definition ops i k a) \<and>
        (\<forall>d. fst (ad_od_definition ops i k a) = Inr d \<and> lower (def_access d) = ''ro'' \<longrightarrow> raw_of ops c (i, k) = raw_of ops a (i, k)))"

definition decoded_of :: "'s adapter_ops \<Rightarrow> 's \<Rightarrow> int \<times> int \<Rightarrow> odval" where
  "decoded_of ops a = (\<lambda>(i, k). case fst (ad_od_definition ops i k a) of Inl _ \<Rightarrow> VInt 0
     | Inr d \<Rightarrow> (case decode_od_value (def_data_type d) (raw_of ops a (i, k)) of Inl _ \<Rightarrow> VInt 0 | Inr v \<Rightarrow> v))"

lemma storable_valueD:
  assumes "storable_value ops s (i, k)"
  obtains d v where "fst (ad_od_definition ops i k s) = Inr d"
    "fst (ad_read_sdo ops i k (nat (def_bit_size d div 8)) s) = Inr (raw_of ops s (i, k))"
    "length (raw_of ops s (i, k)) = nat (def_bit_size d div 8)"
    "decode_od_value (def_data_type d) (raw_of ops s (i, k)) = Inr v" "\<not> nonfinite v"
    "encode_od_value (def_data_type d) v (Some (nat (def_bit_size d div 8))) = Inr (raw_of ops s (i, k))"
proof -
  obtain d raw v where d: "fst (ad_od_definition ops i k s) = Inr d"
    "fst (ad_read_sdo ops i k (nat (def_bit_size d div 8)) s) = Inr raw" "length raw = nat (def_bit_size d div 8)"
    "lossless (def_data_type d) raw" "decode_od_value (def_data_type d) raw = Inr v" "\<not> nonfinite v"
    using assms by (auto simp: storable_value_def split: sum.splits)
  have r: "raw_of ops s (i, k) = raw" using d(1,2) by (simp add: raw_of_def)
  have "encode_od_value (def_data_type d) v (Some (length raw)) = Inr raw"
    by (rule encode_decode [OF d(4)]) (use d(5) in simp)
  then show thesis using that [of d v] d r by simp
qed

lemma foldl_update_distinct:
  "distinct (map fst (acc @ kvs)) \<Longrightarrow> foldl (\<lambda>d (k, v). AList.update k v d) acc kvs = acc @ kvs"
proof (induction kvs arbitrary: acc)
  case (Cons x kvs)
  obtain k v where x: "x = (k, v)" by (cases x)
  have n: "k \<notin> fst ` set acc" using Cons.prems x by auto
  then have "AList.update k v acc = acc @ [(k, v)]" by (induction acc) auto
  then show ?case using Cons.IH [of "acc @ [(k, v)]"] Cons.prems x by simp
qed simp

lemma keys_distinct:
  assumes "distinct rs" "list_all key_range rs"
  shows "distinct (map fst (stored_values raw rs))"
proof -
  have "inj_on (\<lambda>x. parameter_key (fst x) (snd x)) (set rs)"
    using assms(2) parameter_key_inj by (intro inj_onI) (auto simp: list_all_iff)
  then show ?thesis using assms(1) by (simp add: stored_values_def comp_def distinct_map)
qed

lemma stored_lookup:
  assumes "distinct rs" "list_all key_range rs" "x \<in> set rs"
  shows "map_of (stored_values raw rs) (parameter_key (fst x) (snd x)) = Some (hex (raw x))"
  using keys_distinct [OF assms(1,2)] assms(3) by (intro map_of_is_SomeI) (auto simp: stored_values_def)

context store_adapter
begin

lemma values_of:
  assumes "distinct rs" "list_all key_range rs" "ad_persistent_roles ops s = rs"
    and "\<And>x. x \<in> set rs \<Longrightarrow> fst (parameter_value ops x s) = Inr (parameter_key (fst x) (snd x), hex (raw x))"
  shows "parameter_values ops s = (Inr (stored_values raw rs), s)"
proof -
  have "parameter_value ops x s = (Inr (parameter_key (fst x) (snd x), hex (raw x)), s)" if "x \<in> set rs" for x
    using assms(4) [OF that] value_pure [of x s] by (simp add: prod_eq_iff)
  then have "mapM (parameter_value ops) rs s = (Inr (stored_values raw rs), s)"
    by (intro mapM_all) (simp add: stored_values_def list_all2_map2 list_all2_same)
  then show ?thesis
    using foldl_update_distinct [of "[]"] keys_distinct [OF assms(1,2), of raw] assms(3) by (simp add: values_run)
qed

lemma storable_values:
  assumes "storable ops s"
  shows "parameter_values ops s = (Inr (stored_values (raw_of ops s) (ad_persistent_roles ops s)), s)"
proof (rule values_of)
  fix x assume "x \<in> set (ad_persistent_roles ops s)"
  then have v: "storable_value ops s (fst x, snd x)" using assms by (auto simp: storable_def list_all_iff)
  show "fst (parameter_value ops x s) = Inr (parameter_key (fst x) (snd x), hex (raw_of ops s x))"
    by (rule storable_valueD [OF v])
      (cases x, simp add: parameter_value_def bnd_definition bnd_sdo ret_def)
qed (use assms in \<open>auto simp: storable_def list_all_iff\<close>)

lemma check_alike:
  assumes "storable ops a" "storable ops c" "alike ops a c" "x \<in> set (ad_persistent_roles ops a)"
  shows "check_parameter ops (stored_values (raw_of ops a) (ad_persistent_roles ops a))
      (parameter_key (fst x) (snd x), hex (raw_of ops c x)) c = (Inr (x, decoded_of ops a x), c)"
proof -
  obtain i k where x: "x = (i, k)" by (cases x)
  have sa: "storable_value ops a (i, k)" and r: "key_range (i, k)" and rs: "distinct (ad_persistent_roles ops a)"
    "list_all key_range (ad_persistent_roles ops a)"
    using assms(1,4) x by (auto simp: storable_def list_all_iff)
  have sc: "storable_value ops c (i, k)" using assms(2-4) x by (auto simp: storable_def alike_def list_all_iff)
  have al: "fst (ad_od_definition ops i k c) = fst (ad_od_definition ops i k a)"
    "\<And>d. fst (ad_od_definition ops i k a) = Inr d \<Longrightarrow> lower (def_access d) = ''ro'' \<Longrightarrow> raw_of ops c (i, k) = raw_of ops a (i, k)"
    using assms(3,4) x by (auto simp: alike_def)
  obtain d v where d: "fst (ad_od_definition ops i k a) = Inr d" "length (raw_of ops a (i, k)) = nat (def_bit_size d div 8)"
    "decode_od_value (def_data_type d) (raw_of ops a (i, k)) = Inr v" "\<not> nonfinite v"
    "encode_od_value (def_data_type d) v (Some (nat (def_bit_size d div 8))) = Inr (raw_of ops a (i, k))"
    by (rule storable_valueD [OF sa])
  obtain d' where d': "fst (ad_od_definition ops i k c) = Inr d'" "length (raw_of ops c (i, k)) = nat (def_bit_size d' div 8)"
    by (rule storable_valueD [OF sc])
  have "d' = d" using d'(1) d(1) al(1) by simp
  then show ?thesis
    using d d'(2) al stored_lookup [OF rs assms(4), of "raw_of ops a"] parse_parameter_key [OF r]
    by (auto simp: x check_parameter_def bnd_lift bnd_definition ret_def decoded_of_def)
qed

lemma save_run:
  assumes "save dg ops None a = (Inr (), b)" "storable ops (ax_adapter a)" "ad_validate_parameters ops (ax_adapter a) = None"
  shows "ax_file b = Some (Stored (make_file dg (make_snapshot (ax_device a)
    (stored_values (raw_of ops (ax_adapter a)) (ad_persistent_roles ops (ax_adapter a))))))"
  using assms(1,3) storable_values [OF assms(2)]
  by (auto simp: save_def save_checks_def ad_def on_part_def pym bnd_def thn_def Let_def split: if_splits)

lemma save_load:
  assumes "save dg ops None a = (Inr (), b)" and v: "ad_validate_parameters ops (ax_adapter a) = None" "ad_validate_parameters ops (ax_adapter c) = None"
    and s: "storable ops (ax_adapter a)" "storable ops (ax_adapter c)" "alike ops (ax_adapter a) (ax_adapter c)"
    and d: "ax_device c = ax_device a"
  shows "\<exists>e. load dg ops (ax_file b) c = (Inr True, e) \<and>
    fst (parameter_values ops (ax_adapter e)) = fst (parameter_values ops (ax_adapter a))"
proof -
  let ?a = "ax_adapter a" and ?c = "ax_adapter c" and ?rs = "ad_persistent_roles ops (ax_adapter a)"
  let ?ds = "map (\<lambda>x. (x, decoded_of ops ?a x)) ?rs"
  have rs: "ad_persistent_roles ops ?c = ?rs" "distinct ?rs" "list_all key_range ?rs"
    using s by (auto simp: alike_def storable_def list_all_iff)
  have "mapM (check_parameter ops (stored_values (raw_of ops ?a) ?rs)) (stored_values (raw_of ops ?c) ?rs) ?c = (Inr ?ds, ?c)"
    using check_alike [OF s] by (intro mapM_all) (simp add: stored_values_def list_all2_map1 list_all2_map2 list_all2_same)
  then have chk: "fst (check_file dg ops (ax_device c) (Stored (make_file dg (make_snapshot (ax_device a)
      (stored_values (raw_of ops ?a) ?rs)))) ?c) = Inr ?ds"
    using storable_values [OF s(2)] v
    by (simp add: check_file_def make_file_def make_snapshot_def same_identity_def d rs(1) bnd_def validate_run Let_def)
      (simp add: stored_values_def image_image)
  obtain t where t: "install ops ?ds ?c = (Inr (), t)"
    "\<And>i k. fst (ad_od_definition ops i k t) = fst (ad_od_definition ops i k ?c)" "ad_persistent_roles ops t = ?rs"
    "\<And>i k. fst (ad_od_read ops i k t) = (case map_of (rev ?ds) (i, k) of None \<Rightarrow> fst (ad_od_read ops i k ?c) | Some v \<Rightarrow> Inr v)"
    using install_run [OF check_file_defined [OF chk]] rs(1) by auto
  have "parameter_values ops t = (Inr (stored_values (raw_of ops ?a) ?rs), t)"
  proof (rule values_of [OF rs(2,3) t(3)])
    fix x assume x: "x \<in> set ?rs"
    obtain i k where xi: "x = (i, k)" by (cases x)
    have "storable_value ops ?a (i, k)" using s(1) x xi by (auto simp: storable_def list_all_iff)
    then obtain e w where e: "fst (ad_od_definition ops i k ?a) = Inr e" "decode_od_value (def_data_type e) (raw_of ops ?a (i, k)) = Inr w"
      "encode_od_value (def_data_type e) w (Some (nat (def_bit_size e div 8))) = Inr (raw_of ops ?a (i, k))"
      by (rule storable_valueD)
    have et: "fst (ad_od_definition ops i k t) = Inr e" using t(2) [of i k] s(3) x xi e(1) by (auto simp: alike_def)
    have "distinct (map fst (rev ?ds))" "((i, k), w) \<in> set (rev ?ds)"
      using rs(2) x xi e(1,2) by (auto simp: comp_def rev_map decoded_of_def)
    then have "map_of (rev ?ds) (i, k) = Some w" by (rule map_of_is_SomeI)
    then have "fst (ad_od_read ops i k t) = Inr w" using t(4) [of i k] by simp
    from sdo_encodes [OF et this] e(3) et
    show "fst (parameter_value ops x t) = Inr (parameter_key (fst x) (snd x), hex (raw_of ops ?a x))"
      by (simp add: xi parameter_value_def bnd_definition bnd_sdo ret_def)
  qed
  then show ?thesis
    using load_cases [of dg "ax_file b" c] save_run [OF assms(1) s(1) v(1)] chk t(1) storable_values [OF s(1)] by simp
qed

end

section \<open>The F-KR adapter\<close>

text \<open>An adapter that keeps its dictionary in a part of its state keeps the promises of the store.\<close>

locale od_backed =
  fixes ops :: "'s adapter_ops" and get_od :: "'s \<Rightarrow> VirtualOdModel" and put_od :: "VirtualOdModel \<Rightarrow> 's \<Rightarrow> 's"
  assumes get_put: "get_od (put_od od s) = od"
    and put_get: "put_od (get_od s) s = s"
    and definition_op: "ad_od_definition ops i k = on_part get_od put_od (od_definition i k)"
    and read_op: "ad_od_read ops i k = on_part get_od put_od (od_read i k)"
    and write_op: "ad_od_write ops i v k = on_part get_od put_od (od_write i v k)"
    and sdo_op: "ad_read_sdo ops i k n = on_part get_od put_od (bridge_read_sdo i k n)"
    and roles_put: "ad_persistent_roles ops (put_od od s) = ad_persistent_roles ops s"

sublocale od_backed \<subseteq> store_adapter ops
proof
  fix i k i' k' :: int and s d v n
  note run = on_part_def od_definition_def od_def_def get_put put_get
  show "snd (ad_od_definition ops i k s) = s" by (simp add: definition_op run split: option.splits)
  show "snd (ad_read_sdo ops i k n s) = s" by (simp add: sdo_op on_part_def split_def bridge_read_pure put_get)
  have e: "od_val (get_od s) i k \<noteq> None" "od_def (get_od s) i k = Some d" if "fst (ad_od_definition ops i k s) = Inr d"
    using that by (auto simp: definition_op run od_val_def split: option.splits)
  show "fst (ad_od_definition ops i k s) = Inr d \<Longrightarrow> fst (ad_od_write ops i v k s) = Inr ()"
    using e(1) by (simp add: write_op on_part_def od_write_put)
  show "fst (ad_od_definition ops i' k' (snd (ad_od_write ops i v k s))) = fst (ad_od_definition ops i' k' s)"
    by (auto simp: definition_op write_op run od_write_run update_conv' split: option.splits)
  show "ad_persistent_roles ops (snd (ad_od_write ops i v k s)) = ad_persistent_roles ops s"
    by (simp add: write_op on_part_def split_def roles_put)
  show "fst (ad_od_definition ops i k s) = Inr d \<Longrightarrow>
      fst (ad_od_read ops i' k' (snd (ad_od_write ops i v k s))) = (if (i', k') = (i, k) then Inr v else fst (ad_od_read ops i' k' s))"
    using e(1) by (auto simp: read_op write_op on_part_def od_write_put od_read_val get_put split: option.splits)
  show "fst (ad_od_definition ops i k s) = Inr d \<Longrightarrow> fst (ad_od_read ops i k s) = Inr v \<Longrightarrow>
      fst (ad_read_sdo ops i k n s) = encode_od_value (def_data_type d) v (Some n)"
    using e(2)
    by (auto simp: read_op sdo_op on_part_def bridge_read_sdo_def bridge_definition_run bnd_def od_read_val lift_def
        split: option.splits prod.splits)
qed

interpretation fkr_store: od_backed fkr_ops sv_od "\<lambda>od s. s\<lparr>sv_od := od\<rparr>"
  by unfold_locales (simp_all add: fkr_ops_def fkr_read_sdo_def rd_def wr_def od_op_def)

text \<open>
  C10. A snapshot is loaded as a whole or not at all: whatever the file holds, when loading it
  raises, the axis and its dictionary are exactly as before.
\<close>

theorem load_all_or_nothing:
  "load dg fkr_ops snapshot_on_disk a = (Inl e, b) \<Longrightarrow> b = a"
  by (rule fkr_store.load_atomic)

text \<open>
  C9. What an F-KR axis saves is what it gets back, as long as every persistent value of the
  saving and of the loading axis is finite and represented by its type without loss: an axis of
  the same device with the same definitions accepts the saved snapshot and then has the same
  persistent parameter values.
\<close>

theorem save_then_load:
  assumes "save dg fkr_ops None a = (Inr (), b)" "ax_device c = ax_device a"
    and "storable fkr_ops (ax_adapter a)" "storable fkr_ops (ax_adapter c)" "alike fkr_ops (ax_adapter a) (ax_adapter c)"
  shows "\<exists>e. load dg fkr_ops (ax_file b) c = (Inr True, e) \<and>
    fst (parameter_values fkr_ops (ax_adapter e)) = fst (parameter_values fkr_ops (ax_adapter a))"
  by (rule fkr_store.save_load [OF assms(1) _ _ assms(3-5,2)]) (simp_all add: fkr_ops_def)

text \<open>
  A value that is not finite is saved but never loaded again: the axis refuses its own snapshot.
\<close>

lemma nonfinite_snapshot_refused:
  assumes "save dg fkr_ops None a = (Inr (), b)" "fst (parameter_values fkr_ops (ax_adapter a)) = Inr vs"
    and "(parameter_key i k, raw) \<in> set vs" "key_range (i, k)" "fst (ad_od_definition fkr_ops i k (ax_adapter a)) = Inr d"
    and "fromhex raw = Inr bs" "decode_od_value (def_data_type d) bs = Inr v" "nonfinite v"
  shows "\<exists>e. load dg fkr_ops (ax_file b) a = (Inl e, a)"
  by (rule fkr_store.nonfinite_refused [OF assms]) (simp add: fkr_ops_def)

section \<open>Files\<close>

lemma load_keeps:
  "ax_file (snd (load dg ops snapshot_on_disk a)) = ax_file a" "ax_backup (snd (load dg ops snapshot_on_disk a)) = ax_backup a"
  by (auto simp: load_def ad_def pym bnd_def split: option.splits prod.splits sum.splits)

lemma save_keeps_backup: "ax_backup (snd (save dg ops io a)) = ax_backup a"
  by (auto simp: save_def ad_def on_part_def pym bnd_def thn_def Let_def split: option.splits prod.splits sum.splits)

text \<open>\<open>leads P m Q\<close>: from a state with \<open>P\<close>, however \<open>m\<close> ends, the state satisfies \<open>Q\<close>.\<close>

definition leads :: "('s \<Rightarrow> bool) \<Rightarrow> ('s, 'a) pym \<Rightarrow> ('s \<Rightarrow> bool) \<Rightarrow> bool" where
  "leads P m Q \<longleftrightarrow> (\<forall>a. P a \<longrightarrow> Q (snd (m a)))"

lemma leads_bnd: "leads P m R \<Longrightarrow> (\<And>a. R a \<Longrightarrow> Q a) \<Longrightarrow> (\<And>x. leads R (f x) Q) \<Longrightarrow> leads P (bnd m f) Q"
  unfolding leads_def bnd_def by (fastforce split: prod.splits sum.splits)

lemma leads_thn: "leads P m R \<Longrightarrow> (\<And>a. R a \<Longrightarrow> Q a) \<Longrightarrow> leads R k Q \<Longrightarrow> leads P (thn m k) Q"
  unfolding thn_def by (rule leads_bnd)

lemma leads_simple: "(\<And>a. P a \<Longrightarrow> Q a) \<Longrightarrow> leads P (ret x) Q" "(\<And>a. P a \<Longrightarrow> Q a) \<Longrightarrow> leads P (raise e) Q"
  "(\<And>a. P a \<Longrightarrow> Q (f a)) \<Longrightarrow> leads P (modify f) Q"
  by (simp_all add: leads_def ret_def raise_def modify_def)

lemma leads_if: "(c \<Longrightarrow> leads P m Q) \<Longrightarrow> (\<not> c \<Longrightarrow> leads P n Q) \<Longrightarrow> leads P (if c then m else n) Q"
  by simp

lemma leads_gets: "(\<And>x. leads (\<lambda>a. P a \<and> f a = x) (k x) Q) \<Longrightarrow> leads P (bnd (gets f) k) Q"
  by (simp add: leads_def gets_def bnd_def)

lemma leads_void: "leads P m Q \<Longrightarrow> leads P (void m) Q"
  by (auto simp: leads_def void_def bnd_def ret_def split: prod.splits sum.splits)

text \<open>The snapshot is still in its place, or it is in the backup.\<close>

definition keeps_original :: "snapshot_file \<Rightarrow> 's axis \<Rightarrow> bool" where
  "keeps_original original b \<longleftrightarrow> ax_file b = Some (Stored original) \<or> ax_backup b = Some (Stored original)"

abbreviation in_place :: "snapshot_file \<Rightarrow> 's axis \<Rightarrow> bool" where
  "in_place original a \<equiv> ax_file a = Some (Stored original)"

lemma in_place_kept: "in_place original a \<Longrightarrow> keeps_original original a"
  by (simp add: keeps_original_def)

lemma leads_load: "leads (in_place original) (void (load dg ops f)) (in_place original)"
  by (rule leads_void) (simp add: leads_def load_keeps)

lemma leads_values:
  assumes "\<And>x. leads (in_place original) (f x) (keeps_original original)"
  shows "leads (in_place original) (bnd (ad (parameter_values ops)) f) (keeps_original original)"
proof (rule leads_bnd [OF _ in_place_kept assms])
  show "leads (in_place original) (ad (parameter_values ops)) (in_place original)"
    by (auto simp: leads_def ad_def on_part_def split: prod.splits)
qed

lemma leads_attempt: "(\<And>a. P a \<Longrightarrow> Q a) \<Longrightarrow> leads P (attempt f) Q"
  by (simp add: leads_def attempt_def ret_def raise_def split: option.splits)

lemma leads_clean: "leads P m Q \<Longrightarrow> leads Q k R \<Longrightarrow> leads P (cleaning_up m k) R"
  unfolding leads_def cleaning_up_def by (fastforce split: prod.splits sum.splits)

lemma leads_stage:
  "leads (in_place original) (cleaning_up (thn (attempt x) (void (load dg ops f))) (attempt y)) (in_place original)"
  by (rule leads_clean [OF leads_thn [OF leads_attempt [where Q = "in_place original"] _ leads_load] leads_attempt]) simp_all

text \<open>A backup is complete before the snapshot is replaced: when \<open>keep_backup\<close> returns, it holds the original.\<close>

lemma keep_backup_run:
  assumes "keep_backup io original a = (r, b)"
  shows "ax_file b = ax_file a \<and> (r = Inr () \<longrightarrow> ax_backup b = Some (Stored original))"
  using assms
  by (auto simp: keep_backup_def write_backup_def attempt_def pym bnd_def split: option.splits if_splits)

lemma backup_then_save:
  "leads (in_place original) (thn (keep_backup io original) (thn (save dg ops s) (ret x))) (keeps_original original)"
  unfolding leads_def
proof (intro allI impI)
  fix a :: "'a axis" assume a: "in_place original a"
  obtain r b where b: "keep_backup io original a = (r, b)" by fastforce
  show "keeps_original original (snd (thn (keep_backup io original) (thn (save dg ops s) (ret x)) a))"
  proof (cases r)
    case (Inl e)
    then show ?thesis using a b keep_backup_run [OF b] by (simp add: thn_def bnd_def keeps_original_def)
  next
    case (Inr u)
    then have "ax_backup b = Some (Stored original)" using keep_backup_run [OF b] by simp
    then have "ax_backup (snd (save dg ops s b)) = Some (Stored original)" by (simp add: save_keeps_backup)
    then show ?thesis using b Inr by (auto simp: thn_def bnd_def ret_def keeps_original_def split: prod.splits sum.splits)
  qed
qed

text \<open>
  C11. Whatever the outcome of a migration, and whichever of its file operations fails (reading
  the snapshot, staging the new one, removing the staging folder, looking at an old backup,
  opening, writing or synchronising the backup, which may leave anything behind, or replacing the
  snapshot), the original snapshot is afterwards still in its place or complete in the backup.
\<close>

theorem migration_keeps_original:
  assumes "ax_file a = Some (Stored original)"
  shows "keeps_original original (snd (migrate_profile_velocity dg ops io v a))"
proof -
  define body where "body = (let d = file_data original in
    if snap_schema_version d = 2 then thn (void (load dg ops (ax_file a))) (ret False)
    else if dg d \<noteq> file_checksum original then raise ValueError
    else if snap_schema_version d \<noteq> 1 then raise ValueError
    else if \<not> same_identity d (ax_device a) then raise ValueError
    else
      bnd (ad (parameter_values ops)) (\<lambda>current.
      if set (map fst (snap_values d)) \<noteq> set (map fst current) - {''6081:00''} then raise ValueError
      else
        thn (cleaning_up
              (thn (attempt (mi_stage io)) (void (load dg ops (Some (Stored (make_file dg (migrated_snapshot d v)))))))
              (attempt (mi_cleanup io)))
       (thn (keep_backup io original)
       (thn (save dg ops (mi_save io)) (ret True)))))"
  have "leads (in_place original) body (keeps_original original)"
    unfolding body_def Let_def
    by (intro leads_if leads_simple(2) leads_thn [OF leads_load in_place_kept] leads_values leads_simple(1)
        leads_thn [OF leads_stage in_place_kept] backup_then_save in_place_kept)
  then have "leads (in_place original) (thn (attempt (mi_read io)) body) (keeps_original original)"
    by (intro leads_thn [OF leads_attempt [where Q = "in_place original"] in_place_kept])
  moreover have "migrate_profile_velocity dg ops io v a = (if \<not> ax_lock a then raise RuntimeError
      else if model_type (ax_device a) \<noteq> ''f_kr_cmmt'' then raise ValueError
      else if \<not> (0 \<le> v \<and> v \<le> 0xffffffff) then raise ValueError else thn (attempt (mi_read io)) body) a"
    using assms by (simp add: migrate_profile_velocity_def body_def gets_def bnd_def Let_def)
  ultimately show ?thesis using assms in_place_kept [OF assms] by (auto simp: leads_def raise_def)
qed

end
