(* ===== verification/Fleet.thy ===== *)
theory Fleet
  imports AxisProps StoreProps
begin

text \<open>
  The fleet of axes (runtime/fleet.py) and the line protocol in front of it
  (ipc/server.py). The environment and the state of the file system during a request are
  arguments; the JSON text of a line is parsed by the parameter \<open>loads\<close>.
\<close>

section \<open>The fleet\<close>

record 's fleet =
  models :: "'s axis list"

type_synonym ('s, 'a) fleet_m = "('s fleet, 'a) pym"

datatype fleet_reply = FleetDescription "(device \<times> contract \<times> string) list" | AxisReply reply

text \<open>
  Construction: every snapshot is loaded before a missing one is created. \<open>files\<close> holds
  the snapshot file of each axis, \<open>io\<close> the failures while missing ones are saved.
\<close>

definition attach_store :: "stored option \<Rightarrow> 's axis \<Rightarrow> 's axis" where
  "attach_store file a = a\<lparr>ax_store := True, ax_lock := True, ax_file := file\<rparr>"

definition run_axis :: "('s, 'a) axis_m \<Rightarrow> 's axis \<Rightarrow> ('s axis \<times> 'a) res" where
  "run_axis m a = (case m a of (Inl e, _) \<Rightarrow> Inl e | (Inr x, b) \<Rightarrow> Inr (b, x))"

fun load_all :: "hashes \<Rightarrow> 's adapter_ops \<Rightarrow> ('s axis \<times> stored option) list \<Rightarrow> ('s axis \<times> bool) list res" where
  "load_all hs ops [] = Inr []"
| "load_all hs ops ((a, file) # as) =
     ebind (run_axis (load (digest hs) ops file) (attach_store file a)) (\<lambda>loaded.
     ebind (load_all hs ops as) (\<lambda>rest. Inr (loaded # rest)))"

fun save_missing :: "hashes \<Rightarrow> 's adapter_ops \<Rightarrow> io \<Rightarrow> ('s axis \<times> bool) list \<Rightarrow> 's axis list res" where
  "save_missing hs ops io [] = Inr []"
| "save_missing hs ops io ((a, loaded) # as) =
     ebind (if loaded then Inr (a, ()) else run_axis (save (digest hs) ops io) a) (\<lambda>(b, _).
     ebind (save_missing hs ops io as) (\<lambda>bs. Inr (b # bs)))"

definition fleet_init :: "hashes \<Rightarrow> 's adapter_ops \<Rightarrow> io \<Rightarrow> ('s axis \<times> stored option) list \<Rightarrow> 's fleet res" where
  "fleet_init hs ops io axes =
     ebind (load_all hs ops axes) (\<lambda>loaded.
     ebind (save_missing hs ops io loaded) (\<lambda>as. Inr \<lparr>models = as\<rparr>))"

definition fleet_describe :: "hashes \<Rightarrow> 's fleet \<Rightarrow> fleet_reply res" where
  "fleet_describe hs f =
     ebind (emap (\<lambda>a. ebind (describe a) (\<lambda>c. Inr (ax_device a, c, contract_hash hs c))) (models f))
       (\<lambda>ds. Inr (FleetDescription ds))"

definition on_axis :: "nat \<Rightarrow> ('s, 'a) axis_m \<Rightarrow> ('s, 'a) fleet_m" where
  "on_axis k m = on_part (\<lambda>f. models f ! k) (\<lambda>a f. f\<lparr>models := (models f)[k := a]\<rparr>) m"

definition fleet_dispatch ::
  "hashes \<Rightarrow> 's adapter_ops \<Rightarrow> environment \<Rightarrow> io \<Rightarrow> request \<Rightarrow> ('s, fleet_reply) fleet_m" where
  "fleet_dispatch hs ops env io rq =
     (if rq_op rq = ''describe'' then bnd (gets (fleet_describe hs)) lift
      else
        bnd (gets (\<lambda>f. length (models f))) (\<lambda>n.
        case rq_slave_index rq of
          None \<Rightarrow> raise ValueError
        | Some k \<Rightarrow>
            if \<not> (0 \<le> k \<and> k < int n) then raise ValueError
            else bnd (on_axis (nat k) (dispatch hs ops env io rq)) (\<lambda>r. ret (AxisReply r))))"

section \<open>The line protocol\<close>

definition abort_code :: "pyexc \<Rightarrow> int" where
  "abort_code e =
     (if e = DeviceRejectedException then 0x06010000
      else if is_KeyError e then 0x06020000
      else 0x06090030)"

definition dispatch_request ::
  "hashes \<Rightarrow> 's adapter_ops \<Rightarrow> environment \<Rightarrow> io \<Rightarrow> request \<Rightarrow> ('s, fleet_reply) fleet_m" where
  "dispatch_request hs ops env io rq =
     (if rq_op rq \<notin> {''read'', ''write''} then fleet_dispatch hs ops env io rq
      else catch (fleet_dispatch hs ops env io rq)
        (\<lambda>e. if is_KeyError e \<or> is_ValueError e then ret (AxisReply (SdoAbort (abort_code e) (Exc e)))
             else if e = OSError then ret (AxisReply (SdoAbort 0x08000020 (Exc e)))
             else raise e))"

definition MAX_MESSAGE :: nat where
  "MAX_MESSAGE = 1024 * 1024"

text \<open>
  One line as \<open>readline(MAX_MESSAGE + 1)\<close> returns it: an oversized or unterminated line
  ends the session, and so does an exception of the model: no reply is sent for it.
\<close>

definition serve_line ::
  "(bytes \<Rightarrow> request res) \<Rightarrow> hashes \<Rightarrow> 's adapter_ops \<Rightarrow> environment \<times> io \<times> bytes \<Rightarrow> ('s, fleet_reply) fleet_m" where
  "serve_line loads hs ops = (\<lambda>(env, io, raw).
     if length raw > MAX_MESSAGE \<or> raw = [] \<or> List.last raw \<noteq> 0x0A then raise ValueError
     else bnd (lift (loads raw)) (dispatch_request hs ops env io))"

fun serve ::
  "(bytes \<Rightarrow> request res) \<Rightarrow> hashes \<Rightarrow> 's adapter_ops \<Rightarrow> (environment \<times> io \<times> bytes) list \<Rightarrow> 's fleet \<Rightarrow>
   fleet_reply list \<times> pyexc option \<times> 's fleet" where
  "serve loads hs ops [] f = ([], None, f)"
| "serve loads hs ops ((env, io, raw) # lines) f =
     (if raw = [] then ([], None, f)
      else case serve_line loads hs ops (env, io, raw) f of
        (Inl e, g) \<Rightarrow> ([], Some e, g)
      | (Inr r, g) \<Rightarrow> (case serve loads hs ops lines g of (rs, e, h) \<Rightarrow> (r # rs, e, h)))"

section \<open>Routing\<close>

lemma dispatch_access_errors:
  "dispatch_access hs ops env io rq a = (Inl e, b) \<Longrightarrow> is_KeyError e \<or> is_ValueError e \<or> e = OSError"
  by (auto simp: dispatch_access_def catch_def pym fail_def split: prod.splits sum.splits if_splits)

lemma dispatch_errors:
  "dispatch hs ops env io rq a = (Inl e, b) \<Longrightarrow> is_KeyError e \<or> is_ValueError e \<or> e = OSError"
proof (cases "rq_op rq \<in> {''cycle'', ''idle''}")
  case True
  assume "dispatch hs ops env io rq a = (Inl e, b)"
  then show ?thesis using True dispatch_motion_returns [of hs ops env io rq a] by (auto simp: motion_dispatch)
next
  case False
  assume "dispatch hs ops env io rq a = (Inl e, b)"
  moreover have "reads_statusword rq = Inl x \<Longrightarrow> is_KeyError x" for x
    by (auto simp: reads_statusword_def field_def ebind_def split: option.splits if_splits)
  ultimately show ?thesis using False
    by (cases "reads_statusword rq") (auto simp: dispatch_def pym dest: dispatch_access_errors split: if_splits)
qed

lemma on_axis_run:
  "on_axis k m f = (fst (m (models f ! k)), f\<lparr>models := (models f)[k := snd (m (models f ! k))]\<rparr>)"
  by (simp add: on_axis_def on_part_def split_def)

definition addressed :: "request \<Rightarrow> 's fleet \<Rightarrow> nat \<Rightarrow> bool" where
  "addressed rq f k \<longleftrightarrow> rq_slave_index rq = Some (int k) \<and> k < length (models f)"

lemma fleet_dispatch_axis:
  assumes "addressed rq f k" "rq_op rq \<noteq> ''describe''"
  shows "fleet_dispatch hs ops env io rq f =
    (map_sum id AxisReply (fst (dispatch hs ops env io rq (models f ! k))),
     f\<lparr>models := (models f)[k := snd (dispatch hs ops env io rq (models f ! k))]\<rparr>)"
  using assms
  by (cases "fst (dispatch hs ops env io rq (models f ! k))")
    (auto simp: fleet_dispatch_def addressed_def pym bnd_def on_axis_run)

text \<open>
  C8. A read, write, cycle or idle request for an axis of the fleet is answered with exactly the
  reply of that axis; when the axis raises, which only a read or write can, the answer is an SDO
  abort with that exception and the code 0x06010000 for a refusal of the device, 0x06020000 for a
  missing object or field, 0x08000020 for a failure of the operating system and 0x06090030
  otherwise. No exception leaves the request handler, and only the addressed axis changes.
\<close>

theorem request_answered:
  assumes "addressed rq f k" "rq_op rq \<in> {''read'', ''write'', ''cycle'', ''idle''}"
  shows "dispatch_request hs ops env io rq f =
    (Inr (AxisReply (case fst (dispatch hs ops env io rq (models f ! k)) of
         Inr r \<Rightarrow> r
       | Inl e \<Rightarrow> SdoAbort (if e = DeviceRejectedException then 0x06010000 else if is_KeyError e then 0x06020000
                         else if e = OSError then 0x08000020 else 0x06090030) (Exc e))),
     f\<lparr>models := (models f)[k := snd (dispatch hs ops env io rq (models f ! k))]\<rparr>) \<and>
   (isl (fst (dispatch hs ops env io rq (models f ! k))) \<longrightarrow> rq_op rq \<in> {''read'', ''write''})"
proof (cases "dispatch hs ops env io rq (models f ! k)")
  case (Pair x b)
  have d: "fleet_dispatch hs ops env io rq f = (map_sum id AxisReply x, f\<lparr>models := (models f)[k := b]\<rparr>)"
    using fleet_dispatch_axis [OF assms(1), of hs ops env io] assms(2) Pair by auto
  show ?thesis
  proof (cases x)
    case (Inr r)
    then show ?thesis using d Pair by (auto simp: dispatch_request_def catch_def)
  next
    case (Inl e)
    then have e: "is_KeyError e \<or> is_ValueError e \<or> e = OSError" using dispatch_errors Pair by metis
    have "rq_op rq \<in> {''read'', ''write''}"
    proof (rule ccontr)
      assume "rq_op rq \<notin> {''read'', ''write''}"
      then have "rq_op rq \<in> {''cycle'', ''idle''}" using assms(2) by simp
      then show False using Pair Inl dispatch_motion_returns [of hs ops env io rq "models f ! k"] by (auto simp: motion_dispatch)
    qed
    then show ?thesis using d Pair Inl e by (cases e) (auto simp: dispatch_request_def catch_def pym abort_code_def)
  qed
qed

section \<open>Start\<close>

lemma load_found:
  "load dg ops snapshot a = (Inr b, t) \<Longrightarrow> b = (snapshot \<noteq> None) \<and> ax_file t = ax_file a"
proof -
  assume l: "load dg ops snapshot a = (Inr b, t)"
  then have "b = (snapshot \<noteq> None)"
    by (auto simp: load_def pym bnd_def thn_def split: option.splits prod.splits sum.splits)
  then show ?thesis using l load_keeps(1) [of dg ops snapshot a] by simp
qed

lemma save_creates: "save dg ops io a = (Inr x, b) \<Longrightarrow> ax_file b \<noteq> None"
  by (auto simp: save_def ad_def pym bnd_def thn_def Let_def split: option.splits prod.splits sum.splits if_splits)

lemma load_all_files:
  "load_all hs ops axes = Inr ls \<Longrightarrow>
   list_all2 (\<lambda>x l. ax_file (fst l) = snd x \<and> snd l = (snd x \<noteq> None)) axes ls"
proof (induction hs ops axes arbitrary: ls rule: load_all.induct)
  case (2 hs ops a snap as)
  then show ?case
    by (auto simp: ebind_Inr_iff run_axis_def attach_store_def split: prod.splits sum.splits dest!: load_found)
qed simp

lemma save_missing_files:
  "save_missing hs ops io ls = Inr as \<Longrightarrow>
   list_all2 (\<lambda>l a. snd l \<and> ax_file a = ax_file (fst l) \<or> \<not> snd l \<and> (\<exists>file. ax_file a = Some file)) ls as"
proof (induction hs ops io ls arbitrary: as rule: save_missing.induct)
  case (2 hs ops io a loaded ls)
  then show ?case
    by (auto simp: ebind_Inr_iff run_axis_def split: prod.splits sum.splits if_splits dest: save_creates)
qed simp

text \<open>
  C12. A fleet that starts leaves a snapshot for every axis, and a snapshot that was there before
  is unchanged.
\<close>

theorem start_creates_snapshots:
  assumes "fleet_init hs ops io axes = Inr f"
  shows "list_all2 (\<lambda>x a. ax_file a \<noteq> None \<and> (snd x \<noteq> None \<longrightarrow> ax_file a = snd x)) axes (models f)"
proof -
  obtain ls where "load_all hs ops axes = Inr ls" "save_missing hs ops io ls = Inr (models f)"
    using assms by (auto simp: fleet_init_def ebind_Inr_iff)
  then show ?thesis
    by (rule list_all2_trans [OF _ load_all_files save_missing_files, rotated]) auto
qed

end
