(* ===== verification/ServoProps.thy ===== *)
theory ServoProps
  imports ServoTyping
begin

unbundle bit_operations_syntax

text \<open>
  What a cycle of the servo does: the bits of the status word, standstill outside
  \<open>OPERATION_ENABLED\<close>, refusal of targets, homing, and profile motion without overshoot.
\<close>

section \<open>Computations that only read\<close>

definition pure :: "'a servo_m \<Rightarrow> bool" where
  "pure m \<longleftrightarrow> (\<forall>s. snd (m s) = s)"

named_theorems pure_intro \<open>computations that only read\<close>

lemma pureD: "pure m \<Longrightarrow> m s = (r, t) \<Longrightarrow> t = s"
  unfolding pure_def by (metis snd_conv)

lemma pure_leaf [pure_intro]: "pure (ret x)" "pure (raise e)" "pure (lift r)" "pure (gets f)"
  by (simp_all add: pure_def pym)

lemma pure_bnd [pure_intro]: "pure m \<Longrightarrow> (\<And>x. pure (f x)) \<Longrightarrow> pure (bnd m f)"
  by (auto simp: pure_def bnd_def split: prod.splits sum.splits) (metis snd_conv)+

lemma pure_catch [pure_intro]: "pure m \<Longrightarrow> (\<And>e. pure (h e)) \<Longrightarrow> pure (catch m h)"
  by (auto simp: pure_def catch_def split: prod.splits sum.splits) (metis snd_conv)+

lemma pure_if [pure_intro]: "pure m \<Longrightarrow> pure n \<Longrightarrow> pure (if c then m else n)"
  by simp

lemma pure_case [pure_intro]: "(\<And>a b. pure (f a b)) \<Longrightarrow> pure (case p of (a, b) \<Rightarrow> f a b)"
  by (cases p) simp

lemma pure_rd [pure_intro]: "pure (rd i k)"
  by (simp add: pure_def rd_def od_op_def pym split_def od_read_val split: option.splits)

lemma pure_rd_float [pure_intro]: "pure (rd_float i k)"
  unfolding rd_float_def by (intro pure_intro)

lemma pure_limits [pure_intro]: "pure software_position_limits"
  unfolding software_position_limits_def by (intro pure_intro)

lemma pure_limit_active [pure_intro]: "pure software_limit_is_active"
  unfolding software_limit_is_active_def actual_position_exceeds_software_limits_def by (intro pure_intro)

text \<open>A reading computation under the invariant returns and leaves the state.\<close>

lemma keeps_pure:
  assumes "keeps m P" "pure m" "sv s"
  obtains x where "m s = (Inr x, s)" "P x"
  using keepsD [OF assms(1,3)] pureD [OF assms(2)] that by blast

section \<open>Outside OPERATION_ENABLED\<close>

lemma modes_disabled:
  assumes "sm_get_statusword (sm s) \<noteq> 0x0027"
  shows "run_mode m s = (Inr (), s)"
  using assms
  by (auto simp: run_mode_def process_pp_def process_pv_def process_csp_def process_homing_def process_jog_def pym)

definition same_motion :: "servo \<Rightarrow> servo \<Rightarrow> bool" where
  "same_motion s t \<longleftrightarrow> actual_position t = actual_position s \<and> actual_velocity t = actual_velocity s \<and>
     pp_active t = pp_active s \<and> homing_referenced t = homing_referenced s"

lemma wr_fields: "wr i v k s = (r, t) \<Longrightarrow> \<exists>od. t = s\<lparr>sv_od := od\<rparr>"
  by (auto simp: wr_def od_op_def pym split: prod.splits)

lemma stop_fields:
  assumes "stop_at_current_position s = (Inr (), t)"
  shows "actual_position t = actual_position s" "actual_velocity t = Fin 0" "\<not> pp_active t" "sm t = sm s"
    "homing_active t = homing_active s" "homing_referenced t = homing_referenced s"
proof -
  have "actual_position t = actual_position s \<and> actual_velocity t = Fin 0 \<and> \<not> pp_active t \<and> sm t = sm s \<and>
      homing_active t = homing_active s \<and> homing_referenced t = homing_referenced s"
    using assms
    by (auto simp: stop_at_current_position_def pym bnd_def split: prod.splits sum.splits dest!: wr_fields)
  then show "actual_position t = actual_position s" "actual_velocity t = Fin 0" "\<not> pp_active t" "sm t = sm s"
    "homing_active t = homing_active s" "homing_referenced t = homing_referenced s" by auto
qed


section \<open>Fields that a mode leaves alone\<close>

definition leaves :: "(servo \<Rightarrow> 'b) \<Rightarrow> 'a servo_m \<Rightarrow> bool" where
  "leaves f m \<longleftrightarrow> (\<forall>s. f (snd (m s)) = f s)"

named_theorems leaves_intro \<open>computations that leave a field alone\<close>

lemma leavesD: "leaves f m \<Longrightarrow> m s = (r, t) \<Longrightarrow> f t = f s"
  unfolding leaves_def by (metis snd_conv)

lemma pure_leaves: "pure m \<Longrightarrow> leaves f m"
  by (simp add: pure_def leaves_def)

lemma leaves_leaf [leaves_intro]: "leaves f (ret x)" "leaves f (raise e)" "leaves f (lift r)" "leaves f (gets g)"
  "leaves f (rd i k)" "leaves f (rd_float i k)" "leaves f software_position_limits"
  by (rule pure_leaves, intro pure_intro)+

lemma leaves_bnd [leaves_intro]: "leaves f m \<Longrightarrow> (\<And>x. leaves f (g x)) \<Longrightarrow> leaves f (bnd m g)"
  by (auto simp: leaves_def bnd_def split: prod.splits sum.splits) (metis snd_conv)+

lemma leaves_thn [leaves_intro]: "leaves f m \<Longrightarrow> leaves f k \<Longrightarrow> leaves f (thn m k)"
  by (simp add: thn_def leaves_bnd)

lemma leaves_catch [leaves_intro]: "leaves f m \<Longrightarrow> (\<And>e. leaves f (h e)) \<Longrightarrow> leaves f (catch m h)"
  by (auto simp: leaves_def catch_def split: prod.splits sum.splits) (metis snd_conv)+

lemma leaves_if [leaves_intro]: "leaves f m \<Longrightarrow> leaves f n \<Longrightarrow> leaves f (if c then m else n)"
  by simp

lemma leaves_whenm [leaves_intro]: "leaves f m \<Longrightarrow> leaves f (whenm c m)"
  by (simp add: whenm_def leaves_leaf)

lemma leaves_case [leaves_intro]: "(\<And>a b. leaves f (g a b)) \<Longrightarrow> leaves f (case p of (a, b) \<Rightarrow> g a b)"
  by (cases p) simp

lemma leaves_modify [leaves_intro]: "(\<And>s. f (g s) = f s) \<Longrightarrow> leaves f (modify g)"
  by (simp add: leaves_def pym)

lemma leaves_wr: "(\<And>s od. f (s\<lparr>sv_od := od\<rparr>) = f s) \<Longrightarrow> leaves f (wr i v k)"
  unfolding leaves_def by (metis wr_fields prod.collapse)

lemmas motion_defs = unit_scale_def position_scale_def velocity_scale_def acceleration_scale_def
  velocity_to_position_rate_def position_rate_to_velocity_def acceleration_to_position_rate_def
  acceleration_to_velocity_delta_def is_in_position_def update_target_reached_def write_actual_feedback_def
  advance_position_def decelerate_to_stop_def rising_edge4_def max_motion_velocity_def track_velocity_def
  jog_velocity_limit_def limit_jog_velocity_at_software_limit_def

lemma modes_leave_sm:
  "leaves sm process_pp" "leaves sm process_pv" "leaves sm process_csp" "leaves sm process_homing" "leaves sm process_jog"
  unfolding process_pp_def pp_halt_def pp_unreferenced_def pp_rejected_def pp_idle_def pp_motion_def pp_move_def pp_arrive_def
    process_pv_def process_csp_def csp_halt_def csp_motion_def process_homing_def process_jog_def motion_defs Let_def
  by (intro leaves_intro leaves_wr; simp)+

lemma run_mode_leaves_sm: "leaves sm (run_mode m)"
  unfolding run_mode_def by (intro leaves_intro modes_leave_sm)


section \<open>The parts of a cycle\<close>

definition commanded :: "int \<Rightarrow> servo \<Rightarrow> servo" where
  "commanded n s = s\<lparr>halt_active := bit n 8, sm := sm_process (sm s) n\<rparr>"

lemma cycle_parts:
  assumes "sv s" "process_cycle s = (Inr (), t)"
  obtains n m l s2 s3 od where "od_val (sv_od s) 0x6040 0 = Some (VInt n)"
    "whenm (sm s = OPERATION_ENABLED \<and> sm (commanded n s) \<noteq> OPERATION_ENABLED) stop_at_current_position
       (commanded n s) = (Inr (), s2)"
    "sv s2" "sm s2 = sm (commanded n s)" "rd 0x6060 0 s2 = (Inr m, s2)" "run_mode m s2 = (Inr (), s3)" "sv s3" "sm s3 = sm s2"
    "software_limit_is_active s3 = (Inr l, s3)"
    "wr 0x6041 (VInt (status_word m l s3)) 0 s3 = (Inr (), s3\<lparr>sv_od := od\<rparr>)"
    "t = s3\<lparr>sv_od := od, previous_controlword := VInt n\<rparr>"
proof -
  obtain n where n: "rd 0x6040 0 s = (Inr (VInt n), s)"
    using keeps_pure [OF rd_words(1) pure_rd assms(1)] by metis
  have e: "sm_get_statusword x = 0x0027 \<longleftrightarrow> x = OPERATION_ENABLED" for x by (cases x) simp_all
  define c where "c \<longleftrightarrow> sm s = OPERATION_ENABLED \<and> sm (commanded n s) \<noteq> OPERATION_ENABLED"
  have sv1: "sv (commanded n s)" using assms(1) by (simp add: commanded_def)
  obtain s2 where s2: "whenm c stop_at_current_position (commanded n s) = (Inr (), s2)" "sv s2"
    using keepsD [OF keeps_whenm [OF stop_at_current_position_ok] sv1] by auto
  have sm2: "sm s2 = sm (commanded n s)" using s2(1) by (cases c) (auto simp: pym dest: stop_fields(4))
  obtain m where m: "rd 0x6060 0 s2 = (Inr m, s2)" using keeps_pure [OF rd_words(2) pure_rd s2(2)] by metis
  obtain s3 where s3: "run_mode m s2 = (Inr (), s3)" "sv s3" using keepsD [OF run_mode_ok s2(2)] by auto
  obtain l where l: "software_limit_is_active s3 = (Inr l, s3)"
    using keeps_pure [OF software_limit_is_active_ok pure_limit_active s3(2)] by metis
  have sm3: "sm s3 = sm s2" by (rule leavesD [OF run_mode_leaves_sm s3(1)])
  have "process_cycle s = bnd (whenm c stop_at_current_position) (\<lambda>_.
     bnd (rd 0x6060 0) (\<lambda>mode.
     thn (run_mode mode)
    (bnd software_limit_is_active (\<lambda>limit_active.
     bnd (gets (status_word mode limit_active)) (\<lambda>statusword.
     thn (wr 0x6041 (VInt statusword) 0)
         (modify (\<lambda>s. s\<lparr>previous_controlword := VInt n\<rparr>))))))) (commanded n s)"
    by (simp add: process_cycle_def bnd_Inr n thn_bnd bnd_steps e c_def commanded_def)
  also have "\<dots> = bnd (wr 0x6041 (VInt (status_word m l s3)) 0) (\<lambda>_. modify (\<lambda>s. s\<lparr>previous_controlword := VInt n\<rparr>)) s3"
    by (simp add: bnd_Inr s2(1) m thn_bnd s3(1) l bnd_steps)
  finally have run: "process_cycle s = bnd (wr 0x6041 (VInt (status_word m l s3)) 0)
      (\<lambda>_. modify (\<lambda>s. s\<lparr>previous_controlword := VInt n\<rparr>)) s3" .
  obtain u where u: "wr 0x6041 (VInt (status_word m l s3)) 0 s3 = (Inr (), u)"
    using keepsD [OF wr_words(1) s3(2)] by auto
  then obtain od where od: "u = s3\<lparr>sv_od := od\<rparr>" using wr_fields by blast
  have "t = s3\<lparr>sv_od := od, previous_controlword := VInt n\<rparr>"
    using run assms(2) u od by (simp add: bnd_Inr pym)
  moreover have "od_val (sv_od s) 0x6040 0 = Some (VInt n)"
    using n by (auto simp: rd_def od_op_def pym od_read_val split: option.splits)
  ultimately show thesis using that s2 sm2 m s3 sm3 l u od unfolding c_def by blast
qed

text \<open>Leaving or being outside \<open>OPERATION_ENABLED\<close>: the axis stands still where it is.\<close>

lemma disabled_cycle:
  assumes "sv s" "process_cycle s = (Inr (), t)" "sm t \<noteq> OPERATION_ENABLED"
  shows "actual_position t = actual_position s \<and>
    (if sm s = OPERATION_ENABLED then actual_velocity t = Fin 0 \<and> \<not> pp_active t
     else actual_velocity t = actual_velocity s \<and> pp_active t = pp_active s)"
proof -
  obtain n m l s2 s3 od where p: "whenm (sm s = OPERATION_ENABLED \<and> sm (commanded n s) \<noteq> OPERATION_ENABLED)
      stop_at_current_position (commanded n s) = (Inr (), s2)"
    "sm s2 = sm (commanded n s)" "run_mode m s2 = (Inr (), s3)" "sm s3 = sm s2"
    "t = s3\<lparr>sv_od := od, previous_controlword := VInt n\<rparr>"
    by (rule cycle_parts [OF assms(1,2)]) (rule that; assumption)
  have "sm_get_statusword (sm s2) \<noteq> 0x0027" using assms(3) p(4,5) by (cases "sm s2") simp_all
  then have "s3 = s2" using modes_disabled p(3) by simp
  then show ?thesis using p assms(3)
    by (auto simp: whenm_run commanded_def dest: stop_fields split: if_splits)
qed


text \<open>
  C13. A servo cycle whose control word does not leave the state machine in operation enabled does
  not move the axis; a cycle that leaves operation enabled stops it, with velocity zero and no
  profile motion.
\<close>

theorem disabled_cycle_stops:
  assumes "sv s" "od_val (sv_od s) 0x6040 0 = Some (VInt n)" "sm_process (sm s) n \<noteq> OPERATION_ENABLED"
  shows "\<exists>t. process_cycle s = (Inr (), t) \<and> sm t = sm_process (sm s) n \<and> actual_position t = actual_position s \<and>
    (if sm s = OPERATION_ENABLED then actual_velocity t = Fin 0 \<and> \<not> pp_active t
     else actual_velocity t = actual_velocity s \<and> pp_active t = pp_active s)"
proof -
  obtain t where t: "process_cycle s = (Inr (), t)" using keepsD [OF process_cycle_ok assms(1)] by auto
  obtain n' s2 s3 od where p: "od_val (sv_od s) 0x6040 0 = Some (VInt n')" "sm (s2 :: servo) = sm (commanded n' s)" "sm s3 = sm s2"
    "t = s3\<lparr>sv_od := od, previous_controlword := VInt n'\<rparr>"
    by (rule cycle_parts [OF assms(1) t]) blast
  then have "sm t = sm_process (sm s) n" using assms(2) by (simp add: commanded_def)
  then show ?thesis using t disabled_cycle [OF assms(1) t] assms(3) by simp
qed

section \<open>Profile motion does not pass its target\<close>

text \<open>Numbers that Python converts to a float without loss.\<close>

definition exact :: "odval \<Rightarrow> bool" where
  "exact v = (case v of VInt n \<Rightarrow> \<bar>n\<bar> < 2 ^ 53 | VFloat f \<Rightarrow> fin f \<and> wff f | _ \<Rightarrow> False)"

lemma exact_float: "exact v \<Longrightarrow> \<exists>f. py_float v = Inr f \<and> fin f \<and> wff f \<and> fval f = num v"
  using float_of_int_exact by (cases v) (fastforce simp: exact_def)+

lemma fsub_sign:
  assumes "fin a" "fin b"
  shows "flt (Fin 0) (fsub a b) \<Longrightarrow> fval b < fval a" "flt (fsub a b) (Fin 0) \<Longrightarrow> fval a < fval b"
proof -
  obtain s where s: "fsub a b = round64 s (fval a - fval b)" using fsub_fin [OF assms] by blast
  show "flt (Fin 0) (fsub a b) \<Longrightarrow> fval b < fval a" using flt_round64 [of "Fin 0" s "fval a - fval b"] unfolding s by simp
  show "flt (fsub a b) (Fin 0) \<Longrightarrow> fval a < fval b" using round64_flt [of "Fin 0" s "fval a - fval b"] unfolding s by simp
qed

lemma py_sub_float:
  assumes "exact a" "exact b" "py_sub a b = Inr c"
  shows "num c = num a - num b \<or>
    (\<exists>f g. c = VFloat (fsub f g) \<and> fin f \<and> fin g \<and> fval f = num a \<and> fval g = num b)"
proof -
  obtain f where f: "py_float a = Inr f" "fin f" "fval f = num a" using exact_float [OF assms(1)] by blast
  obtain g where g: "py_float b = Inr g" "fin g" "fval g = num b" using exact_float [OF assms(2)] by blast
  have "num c = num a - num b \<or> c = VFloat (fsub f g)"
    using assms f(1) g(1) by (cases a; cases b) (auto simp: exact_def)
  then show ?thesis using f g by blast
qed

lemma py_sub_sign:
  assumes "exact a" "exact b" "py_sub a b = Inr c" "nmag k c"
  shows "0 < num c \<Longrightarrow> num b < num a" "num c < 0 \<Longrightarrow> num a < num b"
proof -
  have "(0 < num c \<longrightarrow> num b < num a) \<and> (num c < 0 \<longrightarrow> num a < num b)"
  proof (cases "num c = num a - num b")
    case False
    then obtain f g where c: "c = VFloat (fsub f g)" and fg: "fin f" "fin g" "fval f = num a" "fval g = num b"
      using py_sub_float [OF assms(1-3)] by blast
    have "fin (fsub f g)" using assms(4) c by (simp add: mag_def)
    then show ?thesis using fsub_sign [OF fg(1,2)] fg(3,4) c by (simp add: flt_fin)
  qed simp
  then show "0 < num c \<Longrightarrow> num b < num a" "num c < 0 \<Longrightarrow> num a < num b" by auto
qed

lemma py_mul_sign:
  assumes "py_mul a b = Inr c" "nmag 241 a" "nmag 241 b" "0 < num c"
  shows "0 < num a \<and> 0 < num b \<or> num a < 0 \<and> num b < 0"
proof -
  have pos: "0 < fval f * fval g" if "mag 241 f" "mag 241 g" "0 < fval (fmul f g)" for f g
  proof -
    note h = that
    obtain s where "fmul f g = round64 s (fval f * fval g)" using fmul_fin [OF magD(1) [OF h(1)] magD(1) [OF h(2)]] by blast
    moreover have "fin (fmul f g)" using mag_fmul [OF h(1,2)] by (simp add: mag_def)
    ultimately show ?thesis using flt_round64 [of "Fin 0" s "fval f * fval g"] h(3) by (simp add: flt_fin)
  qed
  have conv: "\<exists>f. float_of_int n = Inr f \<and> mag 241 f \<and> (0 < fval f \<longrightarrow> 0 < n) \<and> (fval f < 0 \<longrightarrow> n < 0)"
    if "nmag 241 (VInt n)" for n
  proof -
    have "\<bar>of_int n :: rat\<bar> \<le> 2 powi 241" using that by (simp add: nmag_def)
    then obtain f s where f: "float_of_int n = Inr f" "mag 241 f" "f = round64 s (of_int n)"
      using float_of_int_mag [of n 241] by auto
    then have "flt (Fin 0) f \<longrightarrow> 0 < n" "flt f (Fin 0) \<longrightarrow> n < 0"
      using flt_round64 [of "Fin 0" s "of_int n"] round64_flt [of "Fin 0" s "of_int n"] by auto
    then show ?thesis using f by (auto simp: flt_fin mag_def)
  qed
  have "0 < num a * num b \<or> (0 < num a \<and> 0 < num b \<or> num a < 0 \<and> num b < 0)"
  proof (cases a; cases b)
    fix m n assume "a = VInt m" "b = VInt n"
    then show ?thesis using assms(1,4) by auto
  next
    fix m g assume ab: "a = VInt m" "b = VFloat g"
    then show ?thesis using assms conv [of m] pos [of _ g] by (fastforce simp: zero_less_mult_iff)
  next
    fix f n assume ab: "a = VFloat f" "b = VInt n"
    then show ?thesis using assms conv [of n] pos [of f] by (fastforce simp: zero_less_mult_iff)
  next
    fix f g assume "a = VFloat f" "b = VFloat g"
    then show ?thesis using assms pos [of f g] by auto
  qed (use assms in \<open>auto simp: nmag_def\<close>)
  then show ?thesis by (auto simp: zero_less_mult_iff)
qed

definition same_side :: "odval \<Rightarrow> odval \<Rightarrow> odval \<Rightarrow> bool" where
  "same_side target p q \<longleftrightarrow> num p < num target \<and> num q < num target \<or> num target < num p \<and> num target < num q"

lemma not_crossed:
  assumes "pp_crosses t p q = Inr False" "exact t" "exact p" "exact q" "nmag 240 t" "nmag 240 p" "nmag 240 q"
  shows "same_side t p q"
proof -
  obtain r where r: "py_sub t p = Inr r" "nmag 241 r" using py_sub_mag [OF assms(5,6)] by auto
  obtain a where a: "py_sub t q = Inr a" "nmag 241 a" using py_sub_mag [OF assms(5,7)] by auto
  obtain x where x: "py_mul r a = Inr x" "nmag 482 x" using py_mul_mag [OF r(2) a(2)] by auto
  have "\<not> num x \<le> 0" using assms(1) r a x py_le_num [OF x(2) nmag_zero]
    by (auto simp: pp_crosses_def split: if_splits)
  then have "0 < num r \<and> 0 < num a \<or> num r < 0 \<and> num a < 0" using py_mul_sign [OF x(1) r(2) a(2)] by simp
  then show ?thesis
    using py_sub_sign [OF assms(2,3) r] py_sub_sign [OF assms(2,4) a] by (auto simp: same_side_def)
qed


text \<open>Partial correctness of a computation from a state: what holds if it returns.\<close>

definition wlp :: "'a servo_m \<Rightarrow> servo \<Rightarrow> ('a \<Rightarrow> servo \<Rightarrow> bool) \<Rightarrow> bool" where
  "wlp m s Q \<longleftrightarrow> (\<forall>x t. m s = (Inr x, t) \<longrightarrow> Q x t)"

named_theorems wlp_intro \<open>rules of partial correctness\<close>

lemma wlpD: "wlp m s Q \<Longrightarrow> m s = (Inr x, t) \<Longrightarrow> Q x t"
  by (simp add: wlp_def)

lemma wlp_bnd: "wlp m s (\<lambda>x t. wlp (f x) t Q) \<Longrightarrow> wlp (bnd m f) s Q"
  by (auto simp: wlp_def bnd_def split: prod.splits sum.splits)

lemma wlp_ret [wlp_intro]: "Q x s \<Longrightarrow> wlp (ret x) s Q"
  by (simp add: wlp_def ret_def)

lemma wlp_modify [wlp_intro]: "Q () (f s) \<Longrightarrow> wlp (modify f) s Q"
  by (simp add: wlp_def pym)

lemma wlp_thn_modify [wlp_intro]: "wlp k (f s) Q \<Longrightarrow> wlp (thn (modify f) k) s Q"
  by (simp add: wlp_def pym)

lemma wlp_bnd_gets [wlp_intro]: "wlp (k (f s)) s Q \<Longrightarrow> wlp (bnd (gets f) k) s Q"
  by (simp add: wlp_def pym)

lemma wlp_bnd_lift [wlp_intro]: "(\<And>x. r = Inr x \<Longrightarrow> wlp (k x) s Q) \<Longrightarrow> wlp (bnd (lift r) k) s Q"
  by (cases r) (auto simp: wlp_def pym)

lemma wlp_if [wlp_intro]: "(c \<Longrightarrow> wlp m s Q) \<Longrightarrow> (\<not> c \<Longrightarrow> wlp n s Q) \<Longrightarrow> wlp (if c then m else n) s Q"
  by simp

lemma wlp_bnd_pure: "pure m \<Longrightarrow> (\<And>x. wlp (f x) s Q) \<Longrightarrow> wlp (bnd m f) s Q"
  by (rule wlp_bnd) (auto simp: wlp_def dest: pureD)

lemma wlp_thn_leaves:
  "leaves f m \<Longrightarrow> (\<And>t. f t = f s \<Longrightarrow> wlp k t Q) \<Longrightarrow> wlp (thn m k) s Q"
  unfolding thn_def by (rule wlp_bnd) (auto simp: wlp_def dest: leavesD)

lemma wlp_leaves: "leaves f m \<Longrightarrow> (\<And>x t. f t = f s \<Longrightarrow> Q x t) \<Longrightarrow> wlp m s Q"
  by (auto simp: wlp_def dest: leavesD)

definition pp_view :: "servo \<Rightarrow> odval \<times> bool \<times> odval" where
  "pp_view s = (actual_position s, pp_active s, pp_target_position s)"

lemma pure_conversions:
  "pure (velocity_to_position_rate v)" "pure (acceleration_to_position_rate a)"
  "pure (acceleration_to_velocity_delta x dt)" "pure (max_motion_velocity tg)"
  unfolding motion_defs Let_def by (intro pure_intro; simp?)+

lemma feedback_leaves: "leaves pp_view (thn write_actual_feedback update_target_reached)"
  "leaves pp_view write_actual_feedback"
  unfolding motion_defs
  by (intro leaves_intro leaves_wr; simp add: pp_view_def)+

definition pp_post :: "servo \<Rightarrow> servo \<Rightarrow> bool" where
  "pp_post s t \<longleftrightarrow> pp_target_position t = pp_target_position s \<and>
     (if pp_active t then \<exists>f. actual_position t = VFloat f \<and>
         pp_crosses (pp_target_position s) (actual_position s) (VFloat f) = Inr False
      else actual_position t = pp_target_position s)"

lemma py_add_VFloat: "py_add a (VFloat f) = Inr c \<Longrightarrow> \<exists>g. c = VFloat g"
  by (cases a) (auto simp: ebind_Inr_iff)

lemma wlp_thn_if [wlp_intro]:
  "(c \<Longrightarrow> wlp (thn m k) s Q) \<Longrightarrow> (\<not> c \<Longrightarrow> wlp (thn n k) s Q) \<Longrightarrow> wlp (thn (if c then m else n) k) s Q"
  by simp

lemma pp_move_post:
  assumes "pp_active s"
  shows "wlp (pp_move (pp_target_position s) v a d e l) s (\<lambda>_. pp_post s)"
  unfolding pp_move_def pp_arrive_def Let_def split_def
  by (intro wlp_intro wlp_bnd_pure pure_conversions wlp_leaves [OF feedback_leaves(1)])
    (use assms in \<open>auto simp: pp_post_def pp_view_def dest: py_add_VFloat\<close>)

lemma pp_motion_post:
  assumes "pp_active s"
  shows "wlp pp_motion s (\<lambda>_. pp_post s)"
proof -
  have p: "pure (if near then bnd (acceleration_to_velocity_delta x dt) (\<lambda>delta. bnd (gets actual_velocity) (\<lambda>vel.
      ret (fle (fabs vel) (fmax delta (flit (1 / 10 ^ 9)))))) else ret False)" for near x dt
    by (intro pure_intro pure_conversions)
  show ?thesis
    unfolding pp_motion_def pp_arrive_def Let_def
    by (intro wlp_intro wlp_bnd_pure [OF pure_conversions(4)] wlp_bnd_pure [OF pure_rd_float] wlp_bnd_pure [OF p]
        wlp_leaves [OF feedback_leaves(1)] pp_move_post assms)
      (use assms in \<open>auto simp: pp_post_def pp_view_def\<close>)
qed

text \<open>A cycle in PP mode that leaves the motion active has not reached or passed the target.\<close>

lemma stops_inactive:
  "leaves pp_active decelerate_to_stop" "leaves pp_active write_actual_feedback" "leaves pp_active update_target_reached"
  unfolding motion_defs by (intro leaves_intro leaves_wr; simp)+

lemma wlp_inactive: "leaves pp_active m \<Longrightarrow> \<not> pp_active s \<Longrightarrow> wlp m s (\<lambda>_ t. \<not> pp_active t)"
  by (rule wlp_leaves [of pp_active]) auto

lemma pp_stops_inactive:
  "wlp pp_halt s (\<lambda>_ t. \<not> pp_active t)" "wlp pp_unreferenced s (\<lambda>_ t. \<not> pp_active t)"
  "wlp pp_rejected s (\<lambda>_ t. \<not> pp_active t)" "\<not> pp_active s \<Longrightarrow> wlp pp_idle s (\<lambda>_ t. \<not> pp_active t)"
  unfolding pp_halt_def pp_unreferenced_def pp_rejected_def pp_idle_def
  by (intro wlp_thn_modify wlp_inactive leaves_intro stops_inactive; simp)+

lemma wlp_mono: "wlp m s Q \<Longrightarrow> (\<And>x t. Q x t \<Longrightarrow> R x t) \<Longrightarrow> wlp m s R"
  by (auto simp: wlp_def)

definition not_passed :: "odval \<Rightarrow> servo \<Rightarrow> bool" where
  "not_passed p t \<longleftrightarrow> (pp_active t \<longrightarrow>
     (\<exists>f. actual_position t = VFloat f \<and> pp_crosses (pp_target_position t) p (VFloat f) = Inr False))"

lemma inactive_not_passed: "wlp m s (\<lambda>_ t. \<not> pp_active t) \<Longrightarrow> wlp m s (\<lambda>_. not_passed p)"
  by (erule wlp_mono) (auto simp: not_passed_def)

lemma motion_not_passed:
  "pp_active u \<Longrightarrow> actual_position u = p \<Longrightarrow> wlp pp_motion u (\<lambda>_. not_passed p)"
  by (rule wlp_mono [OF pp_motion_post]) (auto simp: pp_post_def not_passed_def)

lemma process_pp_post:
  assumes "sm s = OPERATION_ENABLED"
  shows "wlp process_pp s (\<lambda>_. not_passed (actual_position s))"
proof -
  have fin: "wlp (bnd (lift (py_bit c 4)) (\<lambda>b. thn (modify (\<lambda>s. s\<lparr>pp_setpoint_ack := b\<rparr>))
     (bnd (gets pp_active) (\<lambda>active. if \<not> active then pp_idle else pp_motion)))) u (\<lambda>_. not_passed (actual_position s))"
    if "actual_position u = actual_position s" for u c
    using that by (intro wlp_intro inactive_not_passed pp_stops_inactive(4) motion_not_passed) auto
  have set: "leaves actual_position (whenm c (bnd (rd 0x607A 0) (\<lambda>target.
      modify (\<lambda>s. s\<lparr>pp_target_position := target, pp_active := True, target_reached := False, window_counter := 0\<rparr>))))" for c
    by (intro leaves_intro) simp
  have edge: "pure (rising_edge4 c)" for c unfolding rising_edge4_def by (intro pure_intro)
  show ?thesis
    unfolding process_pp_def
    by (intro wlp_intro wlp_bnd_pure [OF pure_rd] wlp_bnd_pure [OF edge] inactive_not_passed pp_stops_inactive(1-3)
        wlp_thn_leaves [OF set] fin) (simp_all add: assms)
qed

lemma profile_motion_side:
  assumes "sv s" "sm s = OPERATION_ENABLED" "process_pp s = (Inr (), t)" "pp_active t"
    and "exact (actual_position s)" "exact (pp_target_position t)"
  shows "same_side (pp_target_position t) (actual_position s) (actual_position t)"
proof -
  have t: "sv t" using keepsD [OF process_pp_ok assms(1)] assms(3) by auto
  obtain f where f: "actual_position t = VFloat f"
    "pp_crosses (pp_target_position t) (actual_position s) (VFloat f) = Inr False"
    using wlpD [OF process_pp_post [OF assms(2)] assms(3)] assms(4) by (auto simp: not_passed_def)
  have "mag 240 f" using sv_fields(2) [OF t] f(1) by simp
  then have "exact (VFloat f)" by (simp add: exact_def mag_def)
  then show ?thesis
    using not_crossed [OF f(2) assms(6,5)] sv_fields [OF t] sv_fields [OF assms(1)] f(1) by simp
qed


lemma rd_run: "od_val (sv_od s) i k = Some v \<Longrightarrow> rd i k s = (Inr v, s)"
  by (simp add: rd_def od_op_def pym od_read_some)

lemma wr_run: "od_val (sv_od s) i k \<noteq> None \<Longrightarrow> wr i v k s = (Inr (), s\<lparr>sv_od := od_put i v k (sv_od s)\<rparr>)"
  by (simp add: wr_def od_op_def pym od_write_put)

lemma sv_present: "sv s \<Longrightarrow> (i, k) \<in> set servo_keys \<Longrightarrow> od_val (sv_od s) i k \<noteq> None"
  using typed_val [OF sv_typed] by blast

section \<open>The published status word\<close>

lemma limit_active_cong:
  assumes "\<And>k. od_val (sv_od t) 0x607D k = od_val (sv_od s) 0x607D k" "od_val (sv_od s) 0x607D 1 \<noteq> None" "od_val (sv_od s) 0x607D 2 \<noteq> None"
    "software_limit_warning t = software_limit_warning s" "actual_position t = actual_position s"
    "software_limit_is_active s = (Inr l, s)"
  shows "software_limit_is_active t = (Inr l, t)"
proof -
  obtain a b where v: "od_val (sv_od s) 0x607D 1 = Some a" "od_val (sv_od s) 0x607D 2 = Some b" using assms(2,3) by auto
  then have "rd 0x607D 1 s = (Inr a, s)" "rd 0x607D 2 s = (Inr b, s)" "rd 0x607D 1 t = (Inr a, t)" "rd 0x607D 2 t = (Inr b, t)"
    using assms(1) by (simp_all add: rd_run)
  then show ?thesis using assms(4-6)
    by (auto simp: software_limit_is_active_def actual_position_exceeds_software_limits_def software_position_limits_def rd_float_def
       pym bnd_def split: sum.splits prod.splits if_splits)
qed

lemma wr_elsewhere: "(i, k) \<noteq> (j, l) \<Longrightarrow> leaves (\<lambda>s. od_val (sv_od s) i k) (wr j v l)"
  by (auto simp: leaves_def wr_def od_op_def pym od_write_run od_val_def update_conv' split: option.splits)

lemma stop_leaves_mode: "leaves (\<lambda>s. od_val (sv_od s) 0x6060 0) stop_at_current_position"
  unfolding stop_at_current_position_def by (intro leaves_intro wr_elsewhere; simp)

lemma bit_or_bit: "bit (or_bit c k w) n \<longleftrightarrow> bit w n \<or> c \<and> n = k"
  by (auto simp: or_bit_def bit_simps)

text \<open>
  C18. Every servo cycle publishes in 0x6041 the word of the state it leaves: exactly the bits of
  the state machine after the control word, and those of target reached (10), set-point
  acknowledge (12), moving (8), software limit (7 and 11, evaluated in that state), referenced
  (15) and, in homing mode, homing error (3).
\<close>

theorem published_status_word:
  assumes "sv s" "od_val (sv_od s) 0x6040 0 = Some (VInt n)" "od_val (sv_od s) 0x6060 0 = Some m"
  shows "\<exists>t w limit. process_cycle s = (Inr (), t) \<and> od_val (sv_od t) 0x6041 0 = Some (VInt w) \<and>
    sm t = sm_process (sm s) n \<and> software_limit_is_active t = (Inr limit, t) \<and>
    (\<forall>k. bit w k \<longleftrightarrow> bit (sm_get_statusword (sm t)) k \<or>
       target_reached t \<and> k = 10 \<or> pp_setpoint_ack t \<and> k = 12 \<or> is_moving t \<and> k = 8 \<or>
       limit \<and> (k = 7 \<or> k = 11) \<or> homing_referenced t \<and> k = 15 \<or> py_eq m (VInt 6) \<and> homing_error t \<and> k = 3)"
proof -
  obtain t where t: "process_cycle s = (Inr (), t)" using keepsD [OF process_cycle_ok assms(1)] by auto
  obtain n' m' l s2 s3 od where p: "od_val (sv_od s) 0x6040 0 = Some (VInt n')"
    "whenm (sm s = OPERATION_ENABLED \<and> sm (commanded n' s) \<noteq> OPERATION_ENABLED) stop_at_current_position
       (commanded n' s) = (Inr (), s2)"
    "sm s2 = sm (commanded n' s)" "rd 0x6060 0 s2 = (Inr m', s2)" "sv s3" "sm s3 = sm s2"
    "software_limit_is_active s3 = (Inr l, s3)"
    "wr 0x6041 (VInt (status_word m' l s3)) 0 s3 = (Inr (), s3\<lparr>sv_od := od\<rparr>)"
    "t = s3\<lparr>sv_od := od, previous_controlword := VInt n'\<rparr>"
    by (rule cycle_parts [OF assms(1) t]) (rule that; assumption)
  have "od_val (sv_od s2) 0x6060 0 = od_val (sv_od (commanded n' s)) 0x6060 0"
    by (rule leavesD [OF leaves_whenm [OF stop_leaves_mode] p(2)])
  then have m: "m' = m" using p(4) assms(3) by (simp add: commanded_def rd_run)
  have present: "od_val (sv_od s3) 0x6041 0 \<noteq> None" "od_val (sv_od s3) 0x607D 1 \<noteq> None" "od_val (sv_od s3) 0x607D 2 \<noteq> None"
    by (rule sv_present [OF p(5)], code_simp)+
  have od: "od = od_put 0x6041 (VInt (status_word m' l s3)) 0 (sv_od s3)"
    using p(8) wr_run [OF present(1), of "VInt (status_word m' l s3)"] by (auto dest: arg_cong [of _ _ sv_od])
  have "software_limit_is_active t = (Inr l, t)"
    using p(9) od present by (intro limit_active_cong [OF _ _ _ _ _ p(7)]) simp_all
  moreover have "bit (status_word m l s3) k \<longleftrightarrow> bit (sm_get_statusword (sm t)) k \<or>
       target_reached t \<and> k = 10 \<or> pp_setpoint_ack t \<and> k = 12 \<or> is_moving t \<and> k = 8 \<or>
       l \<and> (k = 7 \<or> k = 11) \<or> homing_referenced t \<and> k = 15 \<or> py_eq m (VInt 6) \<and> homing_error t \<and> k = 3" for k
    using p(9) by (auto simp: status_word_def bit_or_bit is_moving_def)
  moreover have "sm t = sm_process (sm s) n" using p(1,3,6,9) assms(2) by (simp add: commanded_def)
  moreover have "od_val (sv_od t) 0x6041 0 = Some (VInt (status_word m l s3))" using p(9) od present(1) m by simp
  ultimately show ?thesis using t by blast
qed

section \<open>Motion under way\<close>

text \<open>A motion under way: enabled, referenced, not halted, and no new set-point in this cycle.\<close>

definition in_motion :: "servo \<Rightarrow> bool" where
  "in_motion s \<longleftrightarrow> sm s = OPERATION_ENABLED \<and> \<not> halt_active s \<and> homing_referenced s \<and> pp_active s \<and>
     (case od_val (sv_od s) 0x6040 0 of Some (VInt n) \<Rightarrow> \<not> bit n 4 | _ \<Rightarrow> False)"

lemma process_pp_motion:
  assumes "in_motion s"
  shows "process_pp s = pp_motion (s\<lparr>pp_setpoint_ack := False\<rparr>)"
proof -
  obtain n where n: "od_val (sv_od s) 0x6040 0 = Some (VInt n)" "\<not> bit n 4"
    using assms by (auto simp: in_motion_def split: option.splits odval.splits)
  then show ?thesis
    using assms rd_run [OF n(1)]
    by (simp add: process_pp_def in_motion_def rising_edge4_def pym bnd_Inr)
qed

text \<open>
  C14. One cycle of a profile motion under way (enabled, referenced, not halted, bit 4 of the
  control word low), with positions that floats represent exactly, returns and never carries the
  axis past its target: the new position is strictly on the same side of the target as the old
  one, or the motion ends exactly at the target.
\<close>

theorem profile_motion_step:
  assumes "sv s" "in_motion s" "exact (actual_position s)" "exact (pp_target_position s)"
  shows "\<exists>t. process_pp s = (Inr (), t) \<and> pp_target_position t = pp_target_position s \<and>
    (if pp_active t then same_side (pp_target_position s) (actual_position s) (actual_position t)
     else actual_position t = pp_target_position s)"
proof -
  obtain t where t: "process_pp s = (Inr (), t)" using keepsD [OF process_pp_ok assms(1)] by auto
  have a: "pp_active s" "sm s = OPERATION_ENABLED" using assms(2) by (simp_all add: in_motion_def)
  have "pp_post (s\<lparr>pp_setpoint_ack := False\<rparr>) t"
    by (rule wlpD [OF pp_motion_post]) (use t process_pp_motion [OF assms(2)] a in simp_all)
  then have p: "pp_target_position t = pp_target_position s" "\<not> pp_active t \<Longrightarrow> actual_position t = pp_target_position s"
    by (simp_all add: pp_post_def split: if_splits)
  then show ?thesis
    using t profile_motion_side [OF assms(1) a(2) t _ assms(3)] assms(4) by auto
qed


section \<open>Homing\<close>

text \<open>The master holds an enabling control word with bit 4 in mode 6.\<close>

definition homing_inputs :: "int \<Rightarrow> VirtualOdModel \<Rightarrow> bool" where
  "homing_inputs n od \<longleftrightarrow> od_val od 0x6040 0 = Some (VInt n) \<and> od_val od 0x6060 0 = Some (VInt 6)"

definition homed :: "servo \<Rightarrow> bool" where
  "homed s \<longleftrightarrow> homing_referenced s \<and> \<not> homing_active s \<and> actual_position s = VFloat (Fin 0) \<and> actual_velocity s = Fin 0"

text \<open>The common end of \<open>process_homing\<close>: one more cycle of an active homing.\<close>

definition homing_tick :: "unit servo_m" where
  "homing_tick =
     thn (modify (\<lambda>s. s\<lparr>homing_counter := homing_counter s - 1\<rparr>))
    (bnd (gets homing_counter) (\<lambda>counter.
     if counter > 0 then ret ()
     else
     thn (modify (\<lambda>s. s\<lparr>actual_position := VFloat (Fin 0), actual_velocity := Fin 0\<rparr>))
    (thn (wr 0x607A (VFloat (Fin 0)) 0)
    (thn write_actual_feedback
         (modify (\<lambda>s. s\<lparr>target_reached := True, homing_active := False, homing_referenced := True\<rparr>))))))"

definition progressed :: "int \<Rightarrow> int \<Rightarrow> servo \<Rightarrow> servo \<Rightarrow> bool" where
  "progressed n c s t \<longleftrightarrow> homing_inputs n (sv_od t) \<and> cycle_time t = cycle_time s \<and>
     (if c > 1 then homing_active t \<and> homing_counter t = c - 1 \<and> \<not> homing_referenced t else homed t)"

lemma homing_tick_run:
  assumes "sv s" "homing_inputs n (sv_od s)" "homing_active s" "\<not> homing_referenced s" "homing_counter s = c"
  shows "\<exists>t. homing_tick s = (Inr (), t) \<and> progressed n c s t"
  using assms sv_present [OF assms(1), of "0x607A" 0] sv_present [OF assms(1), of "0x6064" 0] sv_present [OF assms(1), of "0x606C" 0]
  by (auto simp: homing_tick_def write_actual_feedback_def pym bnd_Inr wr_run homing_inputs_def progressed_def homed_def)

lemma process_homing_tick:
  assumes "sm s = OPERATION_ENABLED" "homing_inputs n (sv_od s)" "previous_controlword s = VInt q" "bit q 4" "homing_active s"
  shows "process_homing s = homing_tick s"
  using assms rd_run [of s "0x6040" 0]
  by (auto simp: process_homing_def homing_tick_def rising_edge4_def homing_inputs_def pym bnd_Inr)


definition homing_time :: "pyfloat \<Rightarrow> int res" where
  "homing_time ct = ebind (fdiv (flit (1 / 10)) ct) int_of_float"

definition homing_start :: "int \<Rightarrow> servo \<Rightarrow> servo" where
  "homing_start k s =
     (let u = s\<lparr>homing_active := True, homing_counter := max 1 k, homing_referenced := False, homing_error := False,
            actual_velocity := Fin 0\<rparr>
      in u\<lparr>sv_od := od_put 0x606C (VFloat (Fin 0)) 0 (od_put 0x6064 (actual_position s) 0 (sv_od s)), target_reached := False\<rparr>)"

lemma process_homing_start:
  assumes "sv s" "sm s = OPERATION_ENABLED" "homing_inputs n (sv_od s)" "bit n 4" "previous_controlword s = VInt q" "\<not> bit q 4"
    "homing_time (cycle_time s) = Inr k"
  shows "process_homing s = homing_tick (homing_start k s)"
  using assms rd_run [of s "0x6040" 0] sv_present [OF assms(1), of "0x6064" 0] sv_present [OF assms(1), of "0x606C" 0]
  by (simp add: process_homing_def homing_tick_def homing_start_def rising_edge4_def homing_inputs_def homing_time_def
      write_actual_feedback_def pym bnd_Inr wr_run Let_def)

lemma homing_start_ok:
  assumes "sv s" "homing_inputs n (sv_od s)"
  shows "sv (homing_start k s)" "homing_inputs n (sv_od (homing_start k s))"
proof -
  have p: "od_val (sv_od s) 0x6064 0 \<noteq> None" "od_val (sv_od s) 0x606C 0 \<noteq> None"
    using sv_present [OF assms(1)] by simp_all
  have "typed (device_profile s) (od_put 0x606C (VFloat (Fin 0)) 0 (od_put 0x6064 (actual_position s) 0 (sv_od s)))"
    using p sv_typed [OF assms(1)] sv_fields(2) [OF assms(1)] by (intro typed_put) simp_all
  then show "sv (homing_start k s)" using assms(1) by (simp add: homing_start_def sv_def Let_def)
  show "homing_inputs n (sv_od (homing_start k s))" using assms(2) p by (simp add: homing_start_def homing_inputs_def Let_def)
qed

lemma homing_cycle:
  assumes s: "sv s" "sm s = OPERATION_ENABLED" "homing_inputs n (sv_od s)" "sm_process OPERATION_ENABLED n = OPERATION_ENABLED"
    and h: "\<exists>u. process_homing (commanded n s) = (Inr (), u) \<and> progressed n c s u"
  shows "\<exists>t. process_cycle s = (Inr (), t) \<and> sv t \<and> sm t = OPERATION_ENABLED \<and>
    previous_controlword t = VInt n \<and> progressed n c s t"
proof -
  obtain t where t: "process_cycle s = (Inr (), t)" "sv t" using keepsD [OF process_cycle_ok s(1)] by auto
  obtain n' m l s2 s3 od where p: "od_val (sv_od s) 0x6040 0 = Some (VInt n')"
    "whenm (sm s = OPERATION_ENABLED \<and> sm (commanded n' s) \<noteq> OPERATION_ENABLED) stop_at_current_position
       (commanded n' s) = (Inr (), s2)"
    "rd 0x6060 0 s2 = (Inr m, s2)" "run_mode m s2 = (Inr (), s3)" "sv s3" "sm s3 = sm s2"
    "wr 0x6041 (VInt (status_word m l s3)) 0 s3 = (Inr (), s3\<lparr>sv_od := od\<rparr>)"
    "t = s3\<lparr>sv_od := od, previous_controlword := VInt n'\<rparr>"
    by (rule cycle_parts [OF s(1) t(1)]) (rule that; assumption)
  have n: "n' = n" using p(1) s(3) by (simp add: homing_inputs_def)
  have s2: "s2 = commanded n s" using p(2) s(2,4) n by (simp add: commanded_def whenm_run)
  have "m = VInt 6" using p(3) s(3) rd_run [of s2 "0x6060" 0 "VInt 6"] by (simp add: s2 commanded_def homing_inputs_def)
  then have s3: "progressed n c s s3" using h p(4) s2 by (auto simp: run_mode_def)
  have "od = od_put 0x6041 (VInt (status_word m l s3)) 0 (sv_od s3)"
    using p(7) wr_run [of s3 "0x6041" 0 "VInt (status_word m l s3)"] sv_present [OF p(5), of "0x6041" 0]
    by (auto simp: word_in word_keys_def dest: arg_cong [of _ _ sv_od])
  then have "progressed n c s t"
    using s3 p(8) sv_present [OF p(5), of "0x6041" 0]
    by (auto simp: progressed_def homing_inputs_def homed_def word_in word_keys_def)
  moreover have "sm t = OPERATION_ENABLED" using p(6,8) s2 s(2,4) by (simp add: commanded_def)
  ultimately show ?thesis using t p(8) n by simp
qed

fun run_cycles :: "nat \<Rightarrow> servo \<Rightarrow> servo" where
  "run_cycles 0 s = s"
| "run_cycles (Suc k) s = run_cycles k (snd (process_cycle s))"


definition homing_ready :: "int \<Rightarrow> servo \<Rightarrow> bool" where
  "homing_ready n s \<longleftrightarrow> sv s \<and> sm s = OPERATION_ENABLED \<and> homing_inputs n (sv_od s) \<and>
     sm_process OPERATION_ENABLED n = OPERATION_ENABLED \<and> bit n 4"

lemma homing_next:
  assumes "homing_ready n s" "previous_controlword s = VInt q" "bit q 4" "homing_active s" "\<not> homing_referenced s"
    "homing_counter s = c"
  shows "\<exists>t. process_cycle s = (Inr (), t) \<and> homing_ready n t \<and> previous_controlword t = VInt n \<and> progressed n c s t"
proof -
  have c: "sv (commanded n s)" "sm (commanded n s) = OPERATION_ENABLED" "homing_inputs n (sv_od (commanded n s))"
    using assms(1) by (simp_all add: homing_ready_def commanded_def)
  obtain u where u: "homing_tick (commanded n s) = (Inr (), u)" "progressed n c (commanded n s) u"
    using homing_tick_run [OF c(1,3)] assms(4-6) by (auto simp: commanded_def)
  have "process_homing (commanded n s) = homing_tick (commanded n s)"
    using assms(2-4) c by (intro process_homing_tick) (simp_all add: commanded_def)
  then have "\<exists>u. process_homing (commanded n s) = (Inr (), u) \<and> progressed n c s u"
    using u by (auto simp: progressed_def commanded_def)
  then show ?thesis
    using homing_cycle [of s n c] assms(1) by (auto simp: homing_ready_def progressed_def)
qed

lemma homing_rest:
  assumes "homing_ready n s" "previous_controlword s = VInt q" "bit q 4" "homing_active s" "\<not> homing_referenced s"
    "homing_counter s = int c" "0 < c"
  shows "homed (run_cycles c s) \<and> (\<forall>j < c. \<not> homing_referenced (run_cycles j s))"
  using assms
proof (induction c arbitrary: s q)
  case (Suc c)
  obtain t where t: "process_cycle s = (Inr (), t)" "homing_ready n t" "previous_controlword t = VInt n"
    "progressed n (int (Suc c)) s t" using homing_next [OF Suc.prems(1-6)] by blast
  have b: "bit n 4" using t(2) by (simp add: homing_ready_def)
  have "homed (run_cycles c t) \<and> (\<forall>j < c. \<not> homing_referenced (run_cycles j t))"
  proof (cases "c = 0")
    case True
    then show ?thesis using t(4) by (simp add: progressed_def)
  next
    case False
    then show ?thesis using t(4) by (intro Suc.IH [OF t(2,3) b]) (simp_all add: progressed_def)
  qed
  moreover have "\<not> homing_referenced (run_cycles j s)" if "j < Suc c" "\<forall>j < c. \<not> homing_referenced (run_cycles j t)" for j
    using that Suc.prems(5) t(1) by (cases j) auto
  ultimately show ?case using t(1) by simp
qed simp

text \<open>
  C15. Homing that is started with a rising edge of bit 4 and held completes after exactly max(1,
  int(0.1 / cycle_time)) cycles, at position and velocity zero and referenced, and is not
  referenced in any earlier cycle.
\<close>

theorem homing_completes:
  assumes r: "homing_ready n s" and q: "previous_controlword s = VInt q" "\<not> bit q 4"
    and k: "homing_time (cycle_time s) = Inr k"
  shows "homed (run_cycles (nat (max 1 k)) s) \<and>
    (\<forall>j. 0 < j \<and> j < nat (max 1 k) \<longrightarrow> \<not> homing_referenced (run_cycles j s))"
proof -
  define h where "h = homing_start k (commanded n s)"
  have c: "sv (commanded n s)" "sm (commanded n s) = OPERATION_ENABLED" "homing_inputs n (sv_od (commanded n s))" "bit n 4"
    using r by (simp_all add: homing_ready_def commanded_def)
  have run: "process_homing (commanded n s) = homing_tick h"
    using c q k unfolding h_def by (intro process_homing_start) (simp_all add: commanded_def)
  have "\<exists>u. homing_tick h = (Inr (), u) \<and> progressed n (max 1 k) h u"
    unfolding h_def by (rule homing_tick_run [OF homing_start_ok [OF c(1,3)]]) (simp_all add: homing_start_def Let_def)
  then have "\<exists>u. process_homing (commanded n s) = (Inr (), u) \<and> progressed n (max 1 k) s u"
    unfolding run by (auto simp: progressed_def h_def homing_start_def commanded_def Let_def)
  then obtain t where t: "process_cycle s = (Inr (), t)" "homing_ready n t" "previous_controlword t = VInt n"
    "progressed n (max 1 k) s t" using homing_cycle [of s n "max 1 k"] r by (auto simp: homing_ready_def progressed_def)
  define m where "m = nat (max 1 k) - 1"
  have m: "nat (max 1 k) = Suc m" by (simp add: m_def)
  have "homed (run_cycles m t) \<and> (\<forall>j < m. \<not> homing_referenced (run_cycles j t))"
  proof (cases "max 1 k > 1")
    case True
    then show ?thesis using t(4) c(4)
      by (intro homing_rest [OF t(2,3)]) (auto simp: progressed_def m_def)
  next
    case False
    then show ?thesis using t(4) by (simp add: progressed_def m_def)
  qed
  moreover have "\<not> homing_referenced (run_cycles j s)" if "0 < j" "j < Suc m" "\<forall>j < m. \<not> homing_referenced (run_cycles j t)" for j
    using that t(1) by (cases j) auto
  ultimately show ?thesis unfolding m using t(1) by simp
qed

section \<open>Targets\<close>

text \<open>A target that may not be approached: no reference, or outside the software limits.\<close>

text \<open>
  C17. Without a reference a target position in profile position or cyclic synchronous mode is
  undone: the target object gets its previous value and nothing else changes.
\<close>

theorem unreferenced_target:
  assumes "od_val (sv_od s) 0x6060 0 = Some (VInt m)" "m \<in> {1, 8}" "\<not> homing_referenced s" "od_val (sv_od s) 0x607A 0 \<noteq> None"
  shows "set_target_position p (Some previous) s =
    (Inr (), s\<lparr>sv_od := od_put 0x607A previous 0 (sv_od s), last_target_position_command := previous\<rparr>)"
  using assms rd_run [OF assms(1)] wr_run [OF assms(4)]
  by (auto simp: set_target_position_def position_command_requires_reference_def pym bnd_Inr)





end
