(* ===== verification/Examples.thy ===== *)
theory Examples
  imports Specimen Drive Fleet StoreProps ServoProps
begin

text \<open>
  The properties at concrete inputs: each hypothesis is met by data a real drive has, the
  specimen drive among them.
\<close>

section \<open>Data\<close>

theorem codec_roundtrip_witness:
  "\<exists>v. decode_od_value ''uint16'' [0x34, 0x12] = Inr v \<and> encode_od_value ''uint16'' v (Some 2) = Inr [0x34, 0x12]"
proof -
  have "lossless ''uint16'' [0x34, 0x12]" by code_simp
  from codec_roundtrip [OF this] show ?thesis by (simp add: eval_nat_numeral)
qed

theorem decode_encode_int_witness:
  "encode_od_value ''INT32'' (VInt (- 5)) (Some 4) = Inr (le_bytes 4 (- 5)) \<and>
   decode_od_value ''INT32'' (le_bytes 4 (- 5)) = Inr (VInt (- 5))"
proof -
  have "map_of DATA_TYPE_FORMATS (normalize_od_data_type ''INT32'') = Some (SInt True 4)" "fits True 4 (- 5)" "0 < (4 :: nat)"
    "\<not> is_byte_array_type (normalize_od_data_type ''INT32'')" "\<not> contains ''string'' (normalize_od_data_type ''INT32'')"
    by code_simp+
  then show ?thesis using decode_encode_int [of "''INT32''" True 4 "- 5" "Some 4"] by blast
qed

theorem pdo_mapping_decodes_witness:
  "\<exists>ws. pdo_mapping_entries [((0x6040, 0), hd pdo_rx), ((0x6060, 0), pdo_rx ! 1)]
       [PdoAddress 0x6060 0, PdoAddress 0x6040 0] = Inr ws \<and>
     pdo_objects_from_mapping_entries [((0x6040, 0), hd pdo_rx), ((0x6060, 0), pdo_rx ! 1)] ws = Inr [pdo_rx ! 1, hd pdo_rx]"
proof -
  have "list_all (mappable [((0x6040, 0), hd pdo_rx), ((0x6060, 0), pdo_rx ! 1)]) [pdo_rx ! 1, hd pdo_rx]" by code_simp
  then have "\<forall>e \<in> set [pdo_rx ! 1, hd pdo_rx]. mappable [((0x6040, 0), hd pdo_rx), ((0x6060, 0), pdo_rx ! 1)] e"
    unfolding list_all_iff .
  from pdo_mapping_decodes [OF this] show ?thesis by (simp add: pdo_rx_def pdo_entry_def)
qed

theorem index_outcomes_witness:
  "outcomes indexed_op (install_role_index od_empty)
     [OpDefine 0x6060 0 (no_changes\<lparr>chg_name := Some ''m'', chg_data_type := Some ''int8'', chg_bit_size := Some 8, chg_role := Some ''mode''\<rparr>),
      OpLookup ''mode''] =
   outcomes plain_op od_empty
     [OpDefine 0x6060 0 (no_changes\<lparr>chg_name := Some ''m'', chg_data_type := Some ''int8'', chg_bit_size := Some 8, chg_role := Some ''mode''\<rparr>),
      OpLookup ''mode'']"
proof -
  have "index_ok (install_role_index od_empty)" "ix_od (install_role_index od_empty) = od_empty"
    by (simp_all add: install_role_index_def index_ok_def)
  from index_outcomes [OF this(1)] this(2) show ?thesis by metis
qed

section \<open>The state machine\<close>

theorem sm_run_ladder_witness:
  "sm_run sm_init [6, 7, 15] = OPERATION_ENABLED \<and> seen_shutdown [6, 7, 15] \<and> seen_switch_on [6, 7, 15] \<and> seen_enable [6, 7, 15]"
proof -
  have "sm_run sm_init [6, 7, 15] = OPERATION_ENABLED" by code_simp
  then show ?thesis using sm_run_ladder [of "[6, 7, 15]"] by simp
qed

theorem sm_process_standard_witness:
  "standard_move SWITCHED_ON 7 15 OPERATION_ENABLED \<and> sm_process SWITCHED_ON 15 = OPERATION_ENABLED"
proof -
  have "standard_move SWITCHED_ON 7 15 OPERATION_ENABLED" by (simp add: standard_move_from standard_command_def)
  moreover have "\<not> standard_command 7 15 Std_Quick_Stop" "\<not> standard_command 7 15 Std_Disable_Voltage"
    by (simp_all add: standard_command_def)
  ultimately show ?thesis using sm_process_standard [of SWITCHED_ON 15 7 OPERATION_ENABLED] by blast
qed

theorem sm_enable_only_from_switched_on_witness:
  "sm_process SWITCHED_ON 15 = OPERATION_ENABLED \<and> (15 :: int) AND 0x8F = 0xF"
proof -
  have "sm_process SWITCHED_ON 15 = OPERATION_ENABLED" by code_simp
  then show ?thesis using sm_enable_only_from_switched_on [of SWITCHED_ON 15] by simp
qed

section \<open>The dictionary of the specimen\<close>

definition specimen_base :: DeviceProfile where
  "specimen_base = (case cmmt_profile [] linear_mm of Inr p \<Rightarrow> p | Inl _ \<Rightarrow> undefined)"

lemma specimen_base: "specimen_profile = specimen_base\<lparr>prof_catalog := specimen_catalog\<rparr>"
  using specimen_profile_ok(1) unfolding cmmt_profile_catalog [of specimen_catalog]
  by (cases "cmmt_profile [] linear_mm") (simp_all add: specimen_base_def)


lemma base_values:
  "case cmmt_profile [] linear_mm of Inl _ \<Rightarrow> False | Inr p \<Rightarrow> list_all (\<lambda>(i, s, v).
     (i, s) \<in> set (profile_addresses p) \<and> i \<noteq> 0 \<and> final_value p (storage_key i s) (VInt 0) = v \<and>
     (tx_at p (storage_key i s) \<noteq> None \<or> rx_at p (storage_key i s) \<noteq> None \<or> preset_at p (storage_key i s) \<noteq> None))
    [(0x6040, 0, VInt 0), (0x6060, 0, VInt 8), (0x607A, 0, VInt 0), (0x607D, 1, VInt (- 1000000)), (0x607D, 2, VInt 1000000)]"
  by code_simp

lemma init_fields:
  "fkr_init p = Inr s \<Longrightarrow> ConfiguredObjectDictionary p = Inr (sv_od s) \<and> cycle_time s = flit (1 / 100) \<and> sm s = sm_init \<and>
     actual_position s = VFloat (Fin 0) \<and> previous_controlword s = VInt 0 \<and> \<not> homing_referenced s \<and> \<not> halt_active s"
  by (auto simp: fkr_init_def servo_init_def ebind_Inr_iff)

lemmas specimen_fields = init_fields [OF specimen_ok(1)]

lemma specimen_preset:
  "tx_at specimen_base (storage_key i s) \<noteq> None \<or> rx_at specimen_base (storage_key i s) \<noteq> None \<or>
     preset_at specimen_base (storage_key i s) \<noteq> None \<Longrightarrow>
   (i, s) \<in> set (profile_addresses specimen_base) \<Longrightarrow> i \<noteq> 0 \<Longrightarrow>
   od_val (sv_od specimen) i s = Some (final_value specimen_base (storage_key i s) (VInt 0))"
proof -
  assume a: "tx_at specimen_base (storage_key i s) \<noteq> None \<or> rx_at specimen_base (storage_key i s) \<noteq> None \<or>
     preset_at specimen_base (storage_key i s) \<noteq> None" and k: "(i, s) \<in> set (profile_addresses specimen_base)" "i \<noteq> 0"
  have eq: "profile_addresses specimen_profile = profile_addresses specimen_base"
    "final_value specimen_profile = final_value specimen_base"
    by (simp_all only: specimen_base profile_addresses_def final_value_def fun_eq_iff catalog_selectors simp_thms)
  have "plain_profile specimen_profile" using specimen_profile_ok(2) by (simp add: servo_profile_def)
  then obtain c v where "look (sv_od specimen) (storage_key i s) =
      Some (final_entry specimen_profile (storage_key i s) (catalog_entry ((i, s), c) v))"
    using configured_address [OF conjunct1 [OF specimen_fields], of i s] k specimen_profile_ok(3) specimen_catalog_ok(1) eq(1) by metis
  then have "od_val (sv_od specimen) i s = Some (final_value specimen_base (storage_key i s) v)"
    by (simp add: od_val_def look_def final_entry_value catalog_entry_def eq(2))
  then show ?thesis using final_value_irrelevant [of specimen_base "storage_key i s" v "VInt 0"] a by auto
qed

lemma specimen_values:
  "od_val (sv_od specimen) 0x6040 0 = Some (VInt 0)" "od_val (sv_od specimen) 0x6060 0 = Some (VInt 8)"
  "od_val (sv_od specimen) 0x607A 0 = Some (VInt 0)" "od_val (sv_od specimen) 0x607D 1 = Some (VInt (- 1000000))"
  "od_val (sv_od specimen) 0x607D 2 = Some (VInt 1000000)"
proof -
  have "cmmt_profile [] linear_mm = Inr specimen_base"
    using base_values by (cases "cmmt_profile [] linear_mm") (simp_all add: specimen_base_def)
  with base_values have "list_all (\<lambda>(i, s, v).
     (i, s) \<in> set (profile_addresses specimen_base) \<and> i \<noteq> 0 \<and> final_value specimen_base (storage_key i s) (VInt 0) = v \<and>
     (tx_at specimen_base (storage_key i s) \<noteq> None \<or> rx_at specimen_base (storage_key i s) \<noteq> None \<or>
      preset_at specimen_base (storage_key i s) \<noteq> None))
    [(0x6040, 0, VInt 0), (0x6060, 0, VInt 8), (0x607A, 0, VInt 0), (0x607D, 1, VInt (- 1000000)), (0x607D, 2, VInt 1000000)]"
    by (simp only: sum.case)
  then have "list_all (\<lambda>(i, s, v). od_val (sv_od specimen) i s = Some v)
    [(0x6040, 0, VInt 0), (0x6060, 0, VInt 8), (0x607A, 0, VInt 0), (0x607D, 1, VInt (- 1000000)), (0x607D, 2, VInt 1000000)]"
    by (rule list.pred_mono_strong) (use specimen_preset in blast)
  then show "od_val (sv_od specimen) 0x6040 0 = Some (VInt 0)" "od_val (sv_od specimen) 0x6060 0 = Some (VInt 8)"
    "od_val (sv_od specimen) 0x607A 0 = Some (VInt 0)" "od_val (sv_od specimen) 0x607D 1 = Some (VInt (- 1000000))"
    "od_val (sv_od specimen) 0x607D 2 = Some (VInt 1000000)"
    by simp_all
qed

section \<open>The servo\<close>

theorem fkr_never_raises_witness:
  "\<exists>s. fkr_init specimen_profile = Inr s \<and>
    fst (fkr_step (flit (1 / 100)) (fkr_run [DownloadSdo 0x6060 0 [1], WriteOutputs [6, 0], RunStep (flit (1 / 100))] s)) = Inr ()"
proof -
  have "cmmt_parameters ''linear'' = Inr linear_mm" by (simp add: cmmt_parameters_def)
  from fkr_never_raises [OF this specimen_profile_ok(1,4)] obtain s where s: "fkr_init specimen_profile = Inr s"
    "\<And>as dt. list_all admissible as \<Longrightarrow> dt_ok dt \<Longrightarrow> fst (fkr_step dt (fkr_run as s)) = Inr ()" by blast
  have "list_all admissible [DownloadSdo 0x6060 0 [1], WriteOutputs [6, 0], RunStep (flit (1 / 100))]"
    using start_dt_ok by (simp add: admissible_def)
  then show ?thesis using s start_dt_ok by blast
qed

theorem configured_value_witness:
  "\<exists>c v. map_of specimen_catalog (0x6060, 0) = Some c \<and> default_value (cat_data_type c) (cat_bit_size c) = Inr v \<and>
    od_val (sv_od specimen) 0x6060 0 = Some (final_value specimen_profile (storage_key 0x6060 0) v)"
proof -
  have p: "plain_profile specimen_profile" "distinct (map fst (prof_catalog specimen_profile))"
    using specimen_profile_ok specimen_catalog_ok by (simp_all add: servo_profile_def)
  have "profile_addresses specimen_profile = profile_addresses specimen_base"
    by (simp only: specimen_base profile_addresses_def catalog_selectors)
  moreover have "cmmt_profile [] linear_mm = Inr specimen_base"
    using base_values by (cases "cmmt_profile [] linear_mm") (simp_all add: specimen_base_def)
  ultimately have "(0x6060, 0) \<in> set (profile_addresses specimen_profile)" using base_values by simp
  from configured_value [OF conjunct1 [OF specimen_fields] p this] show ?thesis by (simp add: specimen_profile_ok(3))
qed

theorem ramp_stays_between_witness:
  "min 0 10 \<le> fval (move_towards (Fin 0) (Fin 10) (Fin 4)) \<and> fval (move_towards (Fin 0) (Fin 10) (Fin 4)) \<le> max 0 10"
proof -
  have "float_of_int 10 = Inr (Fin 10)" "float_of_int 4 = Inr (Fin 4)" "float_of_int 0 = Inr (Fin 0)" by code_simp+
  then have "wff (Fin 10)" "wff (Fin 4)" "wff (Fin 0)"
    using float_of_int_mag [of 10 60] float_of_int_mag [of 4 60] float_of_int_mag [of 0 60] by (auto simp: mag_def)
  then show ?thesis using ramp_stays_between [of "Fin 0" "Fin 10" "Fin 4"] by simp
qed

theorem disabled_cycle_stops_witness:
  "\<exists>t. process_cycle specimen = (Inr (), t) \<and> sm t = SWITCH_ON_DISABLED \<and> actual_position t = VFloat (Fin 0)"
proof -
  have "sm_process sm_init 0 = SWITCH_ON_DISABLED" by code_simp
  then have "sm_process (sm specimen) 0 = SWITCH_ON_DISABLED" using specimen_fields by simp
  then show ?thesis
    using disabled_cycle_stops [OF specimen_ok(2) specimen_values(1)] specimen_fields by auto
qed

theorem published_status_word_witness:
  "\<exists>t w. process_cycle specimen = (Inr (), t) \<and> od_val (sv_od t) 0x6041 0 = Some (VInt w) \<and> sm t = SWITCH_ON_DISABLED \<and> bit w 6"
proof -
  have "sm_process sm_init 0 = SWITCH_ON_DISABLED" by code_simp
  then have z: "sm_process (sm specimen) 0 = SWITCH_ON_DISABLED" using specimen_fields by simp
  have b: "bit (sm_get_statusword SWITCH_ON_DISABLED) 6" by code_simp
  obtain t w where "process_cycle specimen = (Inr (), t)" "od_val (sv_od t) 0x6041 0 = Some (VInt w)" "sm t = SWITCH_ON_DISABLED"
    "bit (sm_get_statusword (sm t)) 6 \<longrightarrow> bit w 6"
    using published_status_word [OF specimen_ok(2) specimen_values(1,2)] unfolding z by auto
  then show ?thesis using b by auto
qed

definition specimen_moving :: servo where
  "specimen_moving = specimen\<lparr>sm := OPERATION_ENABLED, homing_referenced := True, pp_active := True, pp_target_position := VInt 1000\<rparr>"

theorem profile_motion_step_witness:
  "\<exists>t. process_pp specimen_moving = (Inr (), t) \<and> pp_target_position t = VInt 1000 \<and>
    (if pp_active t then same_side (VInt 1000) (VFloat (Fin 0)) (actual_position t) else actual_position t = VInt 1000)"
proof -
  have "sv specimen_moving"
    using specimen_ok(2) by (simp add: specimen_moving_def sv_def nmag_def)
  moreover have "in_motion specimen_moving"
    using specimen_fields specimen_values(1) by (simp add: specimen_moving_def in_motion_def)
  moreover have "exact (actual_position specimen_moving)" "exact (pp_target_position specimen_moving)"
    using specimen_fields by (simp_all add: specimen_moving_def exact_def)
  moreover have f: "actual_position specimen_moving = VFloat (Fin 0)" "pp_target_position specimen_moving = VInt 1000"
    using specimen_fields by (simp_all add: specimen_moving_def)
  ultimately show ?thesis using profile_motion_step [of specimen_moving] unfolding f by blast
qed

definition specimen_homing :: servo where
  "specimen_homing = specimen\<lparr>sm := OPERATION_ENABLED,
     sv_od := od_put 0x6060 (VInt 6) 0 (od_put 0x6040 (VInt 31) 0 (sv_od specimen))\<rparr>"

theorem homing_completes_witness:
  "homed (run_cycles 10 specimen_homing) \<and> \<not> homing_referenced (run_cycles 9 specimen_homing)"
proof -
  have k: "list_all (\<lambda>k. k \<in> set servo_keys \<and> k \<in> set word_keys) [(0x6060, 0), (0x6040, 0)]" by code_simp
  have p: "od_val (sv_od specimen) 0x6040 0 \<noteq> None" "od_val (sv_od specimen) 0x6060 0 \<noteq> None"
    using specimen_values by simp_all
  have "typed (device_profile specimen) (od_put 0x6060 (VInt 6) 0 (od_put 0x6040 (VInt 31) 0 (sv_od specimen)))"
    using p by (intro typed_put sv_typed specimen_ok(2)) (auto simp: fits_word word_keys_def)
  then have sv: "sv specimen_homing" using specimen_ok(2) by (simp add: specimen_homing_def sv_def)
  have i: "homing_inputs 31 (sv_od specimen_homing)"
    using p by (simp add: specimen_homing_def homing_inputs_def)
  have "sm_process OPERATION_ENABLED 31 = OPERATION_ENABLED" "bit (31 :: int) 4" "\<not> bit (0 :: int) 4" by code_simp+
  then have r: "homing_ready 31 specimen_homing" "\<not> bit (0 :: int) 4"
    using sv i by (simp_all add: homing_ready_def specimen_homing_def)
  have "homing_time (flit (1 / 100)) = Inr 10" by code_simp
  then have t: "homing_time (cycle_time specimen_homing) = Inr 10"
    using specimen_fields by (simp add: specimen_homing_def)
  have q: "previous_controlword specimen_homing = VInt 0" using specimen_fields by (simp add: specimen_homing_def)
  have "homed (run_cycles 10 specimen_homing)" using homing_completes [OF r(1) q r(2) t] by simp
  moreover have "\<not> homing_referenced (run_cycles 9 specimen_homing)" using homing_completes [OF r(1) q r(2) t] by simp
  ultimately show ?thesis ..
qed

theorem unreferenced_target_witness:
  "set_target_position (VInt 500) (Some (VInt 0)) specimen =
    (Inr (), specimen\<lparr>sv_od := od_put 0x607A (VInt 0) 0 (sv_od specimen), last_target_position_command := VInt 0\<rparr>)"
proof -
  have "(8 :: int) \<in> {1, 8}" by simp
  from unreferenced_target [OF specimen_values(2) this] show ?thesis using specimen_fields specimen_values(3) by simp
qed



section \<open>Accesses\<close>

definition small_entry :: "int \<Rightarrow> string \<Rightarrow> int \<Rightarrow> string \<Rightarrow> odkey \<times> VirtualOdEntry" where
  "small_entry i t b a = (KeyIndex i, \<lparr>ent_definition = \<lparr>def_index = i, def_subindex = 0, def_name = ''object'',
     def_data_type = t, def_bit_size = b, def_access = a, def_default = VInt 0, def_role = None, def_rxpdo = False, def_txpdo = False\<rparr>,
     ent_value = VInt 0\<rparr>)"

definition small_od :: VirtualOdModel where
  "small_od = \<lparr>entries = [small_entry 0x6040 ''uint16'' 16 ''rw'', small_entry 0x607A ''int32'' 32 ''rw'', small_entry 0x1000 ''uint32'' 32 ''RO''],
     last_write_key = None, write_generation = 0\<rparr>"

theorem sdo_write_read_witness:
  "\<exists>od'. bridge_write_sdo 0x607A 0 [1, 2, 3, 255] small_od = (Inr (), od') \<and>
    bridge_read_sdo 0x607A 0 4 od' = (Inr [1, 2, 3, 255], od') \<and> od_val od' 0x6040 0 = Some (VInt 0)"
proof -
  define d where "d = ent_definition (snd (small_entry 0x607A ''int32'' 32 ''rw''))"
  have d: "od_def small_od 0x607A 0 = Some d" "lower (def_access d) \<noteq> ''ro''" "lossless (def_data_type d) [1, 2, 3, 255]"
    unfolding d_def by code_simp+
  have v: "od_val small_od 0x6040 0 = Some (VInt 0)" by code_simp
  have l: "length [1, 2, 3, 255 :: 8 word] = 4" by simp
  from sdo_write_read [OF d] obtain od' where o: "bridge_write_sdo 0x607A 0 [1, 2, 3, 255] small_od = (Inr (), od')"
    "bridge_read_sdo 0x607A 0 4 od' = (Inr [1, 2, 3, 255], od')"
    "\<forall>i' s'. (i', s') \<noteq> (0x607A, 0) \<longrightarrow> od_val od' i' s' = od_val small_od i' s'" unfolding l by blast
  then have "od_val od' 0x6040 0 = Some (VInt 0)" using v by simp
  with o show ?thesis by blast
qed

theorem sdo_refusals_witness:
  "bridge_write_sdo 0x1000 0 [1, 0, 0, 0] small_od = (Inl DeviceRejectedException, small_od) \<and>
   bridge_read_sdo 0x1001 0 4 small_od = (Inl (SdoObjectNotFoundException 0x1001 0), small_od)"
proof -
  define d where "d = ent_definition (snd (small_entry 0x1000 ''uint32'' 32 ''RO''))"
  have d: "od_def small_od 0x1000 0 = Some d" "lower (def_access d) = ''ro''" "od_def small_od 0x1001 0 = None"
    unfolding d_def by code_simp+
  show ?thesis
    using sdo_refusals [of small_od "0x1000" 0 4 "[1, 0, 0, 0]"] sdo_refusals [of small_od "0x1001" 0 4 "[]"] d by auto
qed

theorem pdo_round_trip_witness:
  "rxpdo_payload_to_od [pdo_rx ! 0, pdo_rx ! 2, pdo_rx ! 8] [6, 0, 1, 2, 3, 255, 9] small_od =
     (Inr (), rx_put [pdo_rx ! 0, pdo_rx ! 2, pdo_rx ! 8] [[6, 0], [1, 2, 3, 255], [9]] small_od) \<and>
   od_to_txpdo_payload [pdo_rx ! 0, pdo_rx ! 2, pdo_rx ! 8]
     (rx_put [pdo_rx ! 0, pdo_rx ! 2, pdo_rx ! 8] [[6, 0], [1, 2, 3, 255], [9]] small_od) =
     (Inr [6, 0, 1, 2, 3, 255, 0], rx_put [pdo_rx ! 0, pdo_rx ! 2, pdo_rx ! 8] [[6, 0], [1, 2, 3, 255], [9]] small_od)"
proof -
  let ?es = "[pdo_rx ! 0, pdo_rx ! 2, pdo_rx ! 8]" and ?ps = "[[6, 0], [1, 2, 3, 255], [9]] :: bytes list"
  have "list_all2 (\<lambda>e b. byte_length e = Inr (int (length b)) \<and> (is_padding e \<or> lossless (ode_data_type e) b)) ?es ?ps"
    "list_all (mapped small_od) ?es" "distinct (addresses ?es)" by code_simp+
  note rt = pdo_round_trip [OF this]
  have c: "concat ?ps = [6, 0, 1, 2, 3, 255, 9]" "concat (map2 blank ?es ?ps) = [6, 0, 1, 2, 3, 255, 0]" by code_simp+
  show ?thesis using rt unfolding c .
qed

section \<open>The guard\<close>

definition example_env :: environment where
  "example_env = \<lparr>wall = (\<lambda>_. Fin 0), uuid = (\<lambda>_. ''id''), monotonic = Fin 0\<rparr>"

definition faulted_guard :: "bool \<Rightarrow> AxisFault" where
  "faulted_guard restart = detect example_env 0 ''AXIS_ADAPTER_FAULT'' (Text ''fault'') restart (axis_fault_init 0 [0x37, 0x06, 1, 2])"

lemma faulted_guard: "guard_ok (faulted_guard r)" "phase (faulted_guard r) = Faulted" "restart_required (faulted_guard r) = r"
  "last (faulted_guard r) = [0x37, 0x06, 1, 2]" "fault (faulted_guard r) \<noteq> None"
  by (simp_all add: faulted_guard_def detect_def axis_fault_init_def guard_ok_def Let_def)

theorem response_word_witness:
  "fromhex (fb_data (response (faulted_guard False))) = Inr (response_data (faulted_guard False)) \<and>
   length (response_data (faulted_guard False)) = 4 \<and> drop 2 (response_data (faulted_guard False)) = [1, 2] \<and>
   bit (control_word (response_data (faulted_guard False))) 3 \<and> \<not> bit (control_word (response_data (faulted_guard False))) 0 \<and>
   bit (control_word (response_data (faulted_guard False))) 10"
proof -
  have l: "2 \<le> length (last (faulted_guard False))" by (simp add: faulted_guard)
  have "bit (control_word (last (faulted_guard False))) 10" unfolding faulted_guard by code_simp
  then show ?thesis using response_word [OF l] faulted_guard(5) [of False] by (simp add: faulted_guard)
qed

theorem detect_keeps_first_witness:
  "\<exists>d d'. fault (faulted_guard False) = Some d \<and>
    fault (detect example_env 1 ''AXIS_MODEL_EXECUTION_FAILED'' (Text ''later'') True (faulted_guard False)) = Some d' \<and>
    dg_id d' = dg_id d \<and> dg_code d' = dg_code d \<and> dg_occurred_at d' = dg_occurred_at d"
  using detect_keeps_first [of "faulted_guard False"] faulted_guard(5) by blast

definition recovery_cycles :: "(environment \<times> bytes \<times> outcome) list" where
  "recovery_cycles = map (\<lambda>cw. (example_env, [cw, 0, 1], Output [0x31, 0, 0, 0])) [0x80, 0, 6, 7, 15]"

theorem recovery_climb_witness:
  "phase (guard_run (faulted_guard False) recovery_cycles) = Normal \<and>
   climbs (rungs Faulted) (map (\<lambda>(env, payload, out). payload) recovery_cycles)"
proof -
  have n: "phase (guard_run (faulted_guard False) recovery_cycles) = Normal" by code_simp
  have "list_all (\<lambda>(env, payload, out). 2 < length payload) recovery_cycles" by code_simp
  then have "\<forall>(env, payload, out) \<in> set recovery_cycles. 2 < length payload" by (simp add: list_all_iff)
  from recovery_climb [OF faulted_guard(1) this n] n show ?thesis by (simp add: faulted_guard)
qed

section \<open>Axes\<close>

definition example_device :: device where
  "example_device = \<lparr>slave_index = 0, dev_id = ''x'', dev_type = ''cia402-drive'', model_type = ''f_kr_cmmt'',
     model_mode = ''linear'', artifact = None, parameter_set = ''axis0''\<rparr>"

definition example_axis :: "AxisFault \<Rightarrow> 's \<Rightarrow> 's axis" where
  "example_axis g s = \<lparr>ax_device = example_device, ax_identity = \<lparr>id_vendor = 29, id_product = 1, id_revision = 1\<rparr>,
     ax_profile = specimen_profile, ax_adapter = s, ax_rx_size = 22, ax_tx_size = 14, ax_entries = [], last_cycle = None,
     cycles = 0, ax_source_hash = '''', fault_state = g, save_diagnostic = None, ax_store = False, ax_lock = False,
     ax_file = None, ax_backup = None, ax_log = []\<rparr>"

definition example_hashes :: hashes where
  "example_hashes = \<lparr>digest = snap_type, contract_hash = ct_preset\<rparr>"

definition example_request :: "string \<Rightarrow> request" where
  "example_request op = \<lparr>rq_op = op, rq_slave_index = Some 0, rq_index = Some 0x6060, rq_subindex = Some 0,
     rq_data = Some (hex ([0x0f, 0, 1] @ replicate 19 0))\<rparr>"

lemma example_axis_ok: "guard_ok g \<Longrightarrow> axis_ok (example_axis g s)"
  by (simp add: axis_ok_def example_axis_def)

theorem dispatch_advances_witness:
  "advances (example_axis (faulted_guard True) specimen)
    (snd (dispatch example_hashes fkr_ops example_env None (example_request ''write'') (example_axis (faulted_guard True) specimen)))"
  by (rule dispatch_advances [OF example_axis_ok [OF faulted_guard(1)]])

theorem latched_dispatch_witness:
  "ax_adapter (snd (dispatch example_hashes fkr_ops example_env None (example_request ''cycle'')
     (example_axis (faulted_guard True) specimen))) = specimen"
proof -
  have "restarting (example_axis (faulted_guard True) specimen)"
    "rq_op (example_request ''cycle'') \<in> {''read'', ''write'', ''cycle'', ''idle''}"
    "ax_adapter (example_axis (faulted_guard True) specimen) = specimen"
    by (simp_all add: example_axis_def example_request_def faulted_guard)
  then show ?thesis using latched_dispatch [OF example_axis_ok [OF faulted_guard(1)]] by metis
qed

definition spied_axis :: "(servo \<times> bytes list) axis" where
  "spied_axis = example_axis (faulted_guard False) (specimen, [])"

theorem quiet_dispatch_witness:
  "\<exists>ps. applied (snd (dispatch example_hashes (spy fkr_ops) example_env None (example_request ''cycle'') spied_axis)) = ps \<and>
    list_all (quiet Faulted) ps"
proof -
  have p: "phase (fault_state spied_axis) = Faulted" "applied spied_axis = []" "axis_ok spied_axis"
    by (simp_all add: spied_axis_def example_axis_def applied_def faulted_guard axis_ok_def)
  then have n: "phase (fault_state spied_axis) \<noteq> Normal" by simp
  have "rq_op (example_request ''cycle'') = ''cycle''" by (simp add: example_request_def)
  from quiet_dispatch [OF p(3) this n] show ?thesis by (simp add: p)
qed

definition reset_request :: request where
  "reset_request = (example_request ''cycle'')\<lparr>rq_data := Some (hex ([0x80, 0, 1] @ replicate 19 0))\<rparr>"

theorem dispatch_refines_guard_witness:
  "fault_state (snd (dispatch example_hashes fkr_ops example_env None reset_request (example_axis (faulted_guard False) specimen))) =
    guard_cycle example_env ([0x80, 0, 1] @ replicate 19 0)
      (model_outcome fkr_ops example_env reset_request ([0x80, 0, 1] @ replicate 19 0) (example_axis (faulted_guard False) specimen))
      (faulted_guard False)"
proof -
  have c: "cycle_payload reset_request (example_axis (faulted_guard False) specimen) = Some ([0x80, 0, 1] @ replicate 19 0)"
    by (simp add: cycle_payload_def reset_request_def example_request_def field_def example_axis_def del: append.simps)
  have g: "fault_state (example_axis (faulted_guard False) specimen) = faulted_guard False" by (simp add: example_axis_def)
  show ?thesis
    using dispatch_refines_guard [OF example_axis_ok [OF faulted_guard(1)], where rq = reset_request and hs = example_hashes and
        ops = fkr_ops and env = example_env and io = None, of False specimen]
    unfolding c g by simp
qed

theorem request_answered_witness:
  "\<exists>f. dispatch_request example_hashes fkr_ops example_env None (example_request ''idle'')
      \<lparr>models = [example_axis (faulted_guard False) specimen]\<rparr> = (Inr (AxisReply (Guarded (response (faulted_guard False)) None)), f)"
proof -
  let ?a = "example_axis (faulted_guard False) specimen"
  have "addressed (example_request ''idle'') \<lparr>models = [?a]\<rparr> 0"
    "rq_op (example_request ''idle'') \<in> {''read'', ''write'', ''cycle'', ''idle''}"
    by (simp_all add: addressed_def example_request_def)
  note r = request_answered [OF this, of example_hashes fkr_ops example_env None]
  have "fst (dispatch example_hashes fkr_ops example_env None (example_request ''idle'') ?a) = Inr (Guarded (response (faulted_guard False)) None)"
    by (simp add: motion_dispatch dispatch_motion_def guarded_idle_def guard_reply_def forget_cycle_def example_request_def example_axis_def
        faulted_guard pym bnd_def catch_def)
  then show ?thesis using r by simp
qed

section \<open>The store\<close>

definition entry_storable :: "VirtualOdEntry \<Rightarrow> bool" where
  "entry_storable e = (let d = ent_definition e; n = nat (def_bit_size d div 8) in
     case encode_od_value (def_data_type d) (ent_value e) (Some n) of
       Inl _ \<Rightarrow> False
     | Inr raw \<Rightarrow> length raw = n \<and> lossless (def_data_type d) raw \<and>
         (case decode_od_value (def_data_type d) raw of Inl _ \<Rightarrow> False | Inr v \<Rightarrow> \<not> nonfinite v))"

lemma storable_value_entry:
  assumes "look (sv_od s) (storage_key i k) = Some e" "entry_storable e"
  shows "storable_value fkr_ops s (i, k)"
proof -
  have d: "fst (ad_od_definition fkr_ops i k s) = Inr (ent_definition e)"
    using assms(1) by (simp add: fkr_ops_def od_op_def on_part_def od_definition_def look_def)
  have v: "fst (ad_od_read fkr_ops i k s) = Inr (ent_value e)"
    using assms(1) by (simp add: fkr_ops_def rd_def od_op_def on_part_def od_read_def look_def)
  show ?thesis
    using assms(2) d fkr_store.sdo_encodes [OF d v]
    by (auto simp: storable_value_def entry_storable_def Let_def split: sum.splits)
qed

definition role_storable :: "DeviceProfile \<Rightarrow> int \<times> int \<Rightarrow> bool" where
  "role_storable p = (\<lambda>(i, k). key_range (i, k) \<and> (i, k) \<in> set (profile_addresses p) \<and> i \<noteq> 0 \<and>
     (case map_of (prof_catalog p) (i, k) of
        None \<Rightarrow> False
      | Some c \<Rightarrow> (case default_value (cat_data_type c) (cat_bit_size c) of
          Inl _ \<Rightarrow> False
        | Inr v \<Rightarrow> entry_storable (final_entry p (storage_key i k) (catalog_entry ((i, k), c) v)))))"

lemma specimen_roles_storable:
  "case cmmt_profile specimen_catalog linear_mm of Inl _ \<Rightarrow> False | Inr p \<Rightarrow>
     distinct (fkr_persistent_roles p) \<and> list_all (role_storable p) (fkr_persistent_roles p)"
  by code_simp

lemma specimen_storable: "storable fkr_ops specimen"
proof -
  have p: "plain_profile specimen_profile" "distinct (map fst (prof_catalog specimen_profile))"
    using specimen_profile_ok specimen_catalog_ok by (simp_all add: servo_profile_def)
  have r: "ad_persistent_roles fkr_ops specimen = fkr_persistent_roles specimen_profile"
    using specimen_ok(3) by (simp add: fkr_ops_def)
  have s: "distinct (fkr_persistent_roles specimen_profile)" "list_all (role_storable specimen_profile) (fkr_persistent_roles specimen_profile)"
    using specimen_roles_storable specimen_profile_ok(1) by simp_all
  have "key_range (i, k) \<and> storable_value fkr_ops specimen (i, k)" if x: "role_storable specimen_profile (i, k)" for i k
  proof -
    obtain c v where c: "map_of (prof_catalog specimen_profile) (i, k) = Some c"
      "default_value (cat_data_type c) (cat_bit_size c) = Inr v"
      "look (sv_od specimen) (storage_key i k) = Some (final_entry specimen_profile (storage_key i k) (catalog_entry ((i, k), c) v))"
      using configured_address [OF conjunct1 [OF specimen_fields] p, of i k] x by (auto simp: role_storable_def)
    then have "entry_storable (final_entry specimen_profile (storage_key i k) (catalog_entry ((i, k), c) v))"
      using x by (simp add: role_storable_def)
    then show ?thesis using storable_value_entry [OF c(3)] x by (simp add: role_storable_def)
  qed
  then show ?thesis using s unfolding storable_def r list_all_iff by auto
qed

definition stored_axis :: "servo axis" where
  "stored_axis = attach_store None (example_axis (axis_fault_init 0 []) specimen)"

lemma stored_axis: "ax_adapter stored_axis = specimen" "ax_lock stored_axis" "ax_device stored_axis = example_device"
  by (simp_all add: stored_axis_def attach_store_def example_axis_def)

lemma stored_axis_saved: "\<exists>b. save dg fkr_ops None stored_axis = (Inr (), b)"
  using fkr_store.storable_values [OF specimen_storable] stored_axis
  by (simp add: save_def save_checks_def fkr_ops_def ad_def on_part_def pym bnd_def thn_def Let_def)

theorem save_then_load_witness:
  "\<exists>b e. save snap_type fkr_ops None stored_axis = (Inr (), b) \<and>
    load snap_type fkr_ops (ax_file b) stored_axis = (Inr True, e) \<and>
    fst (parameter_values fkr_ops (ax_adapter e)) = fst (parameter_values fkr_ops specimen)"
proof -
  obtain b where b: "save snap_type fkr_ops None stored_axis = (Inr (), b)" using stored_axis_saved by blast
  have "alike fkr_ops specimen specimen" by (auto simp: alike_def)
  then show ?thesis
    using save_then_load [OF b refl] specimen_storable stored_axis(1) b by auto
qed

theorem load_all_or_nothing_witness:
  "load snap_type fkr_ops (Some Malformed) stored_axis = (Inl ValueError, stored_axis)"
proof -
  obtain b where b: "load snap_type fkr_ops (Some Malformed) stored_axis = (Inl ValueError, b)"
    by (auto simp: load_def check_file_def ad_def on_part_def pym bnd_def)
  from load_all_or_nothing [OF b] b show ?thesis by simp
qed

definition full_disk :: migrate_io where
  "full_disk = \<lparr>mi_read = None, mi_stage = None, mi_cleanup = None, mi_look = None, mi_backup = Some (OSError, Some Malformed), mi_save = None\<rparr>"

theorem migration_keeps_original_witness:
  "keeps_original (make_file snap_type (make_snapshot example_device []))
    (snd (migrate_profile_velocity snap_type fkr_ops full_disk 100
      (stored_axis\<lparr>ax_file := Some (Stored (make_file snap_type (make_snapshot example_device [])))\<rparr>)))"
  by (rule migration_keeps_original) simp

theorem start_creates_snapshots_witness:
  "\<exists>f. fleet_init example_hashes fkr_ops None [(example_axis (axis_fault_init 0 []) specimen, None)] = Inr f \<and>
    (\<exists>a. models f = [a] \<and> ax_file a \<noteq> None)"
proof -
  obtain b where b: "save (digest example_hashes) fkr_ops None stored_axis = (Inr (), b)" using stored_axis_saved by blast
  have l: "load (digest example_hashes) fkr_ops None stored_axis = (Inr False, stored_axis)" by (simp add: load_def ret_def)
  have "fleet_init example_hashes fkr_ops None [(example_axis (axis_fault_init 0 []) specimen, None)] = Inr \<lparr>models = [b]\<rparr>"
    using b l by (simp add: fleet_init_def run_axis_def flip: stored_axis_def)
  from start_creates_snapshots [OF this] this show ?thesis by auto
qed

end
