(* ===== verification/FmiRunner.thy ===== *)
theory FmiRunner
  imports Codec
begin

text \<open>
  The runner of an FMI 3 co-simulation model (runtime/fmi/runner.py). The native model unit (package
  fmpy and the unit's library) is a parameter: a record of its calls, each of which may raise and
  change the state \<open>'f\<close> of the unit. The temporary folder of the unit is a flag; making and removing it may
  fail. \<open>rn_last\<close> is the unit as the last \<open>close\<close> left it, which the runner itself no longer refers to.
\<close>

section \<open>The native unit\<close>

text \<open>Values that cross the boundary; text and bytes are never numbers.\<close>

datatype fmu_value = FInt int | FFloat pyfloat | FBool bool | FOther

record fmu_variable =
  fv_type :: string
  fv_causality :: string
  fv_dimensions :: bool
  fv_reference :: int

record model_description =
  md_version :: string
  md_co_simulation :: bool
  md_variables :: "(string \<times> fmu_variable) list"

record 'f fmu =
  fmu_mkdtemp :: "unit res"
  fmu_cleanup :: "unit res"
  fmu_load :: "'f res"
  fmu_instantiate :: "('f, unit) pym"
  fmu_set :: "string \<Rightarrow> int \<Rightarrow> fmu_value \<Rightarrow> ('f, unit) pym"
  fmu_get :: "string \<Rightarrow> int \<Rightarrow> ('f, fmu_value) pym"
  fmu_do_step :: "pyfloat \<Rightarrow> pyfloat \<Rightarrow> ('f, bool \<times> bool \<times> bool) pym"
  fmu_terminate :: "('f, unit) pym"
  fmu_component :: "'f \<Rightarrow> bool"
  fmu_free :: "('f, unit) pym"

section \<open>The runner\<close>

record 'f runner =
  rn_fmu :: "'f option"
  rn_last :: "'f option"
  rn_initialized :: bool
  rn_failed :: bool
  rn_time :: pyfloat
  rn_variables :: "(string \<times> fmu_variable) list"
  rn_folder :: bool

type_synonym ('f, 'a) runner_m = "('f runner, 'a) pym"

text \<open>A call of the unit; a failure is remembered before it is passed on.\<close>

definition native :: "('f, 'a) pym \<Rightarrow> ('f, 'a) runner_m" where
  "native m = (\<lambda>r. case rn_fmu r of
      None \<Rightarrow> (Inl AttributeError, r\<lparr>rn_failed := True\<rparr>)
    | Some f \<Rightarrow> (case m f of
        (Inl e, f') \<Rightarrow> (Inl e, r\<lparr>rn_fmu := Some f', rn_failed := True\<rparr>)
      | (Inr x, f') \<Rightarrow> (Inr x, r\<lparr>rn_fmu := Some f'\<rparr>)))"

definition runner_check :: "('f, unit) runner_m" where
  "runner_check = bnd (gets (\<lambda>r. \<not> rn_initialized r \<or> rn_failed r)) (\<lambda>bad. if bad then raise RuntimeError else ret ())"

definition runner_variable :: "string \<Rightarrow> ('f, fmu_variable) runner_m" where
  "runner_variable name = bnd (gets (\<lambda>r. map_of (rn_variables r) name)) (\<lambda>v. case v of None \<Rightarrow> raise KeyError | Some x \<Rightarrow> ret x)"

definition integer_type :: "string \<Rightarrow> bool" where
  "integer_type t \<longleftrightarrow> startswith t ''Int'' \<or> startswith t ''UInt''"

text \<open>\<open>int(v.type.lstrip('UInt'))\<close> and the range of the type.\<close>

definition type_bits :: "string \<Rightarrow> int res" where
  "type_bits t = int_of_str 10 (dropWhile (\<lambda>c. c \<in> set ''UInt'') t)"

text \<open>\<open>1 << n\<close> raises for a negative count.\<close>

definition shift_one :: "int \<Rightarrow> int res" where
  "shift_one n = (if n < 0 then Inl ValueError else Inr (2 ^ nat n))"

definition type_range :: "string \<Rightarrow> (int \<times> int) res" where
  "type_range t =
     ebind (type_bits t) (\<lambda>bits.
     if startswith t ''Int'' then ebind (shift_one (bits - 1)) (\<lambda>h. Inr (- h, h - 1))
     else ebind (shift_one bits) (\<lambda>h. Inr (0, h - 1)))"

text \<open>\<open>isinstance(value, Integral)\<close>: Booleans are integers.\<close>

fun integral :: "fmu_value \<Rightarrow> int option" where
  "integral (FInt n) = Some n"
| "integral (FBool b) = Some (if b then 1 else 0)"
| "integral _ = None"

definition check_value :: "string \<Rightarrow> fmu_value \<Rightarrow> unit res" where
  "check_value t value =
     (if (case value of FFloat f \<Rightarrow> \<not> fin f | _ \<Rightarrow> False) then Inl ValueError
      else
        ebind (if integer_type t
               then ebind (type_range t) (\<lambda>(low, high). case integral value of
                   None \<Rightarrow> Inl ValueError
                 | Some n \<Rightarrow> if low \<le> n \<and> n \<le> high then Inr () else Inl ValueError)
               else Inr ()) (\<lambda>_.
        if t = ''Boolean'' \<and> (case value of FBool _ \<Rightarrow> False | _ \<Rightarrow> True) then Inl ValueError else Inr ()))"

definition runner_set :: "'f fmu \<Rightarrow> string \<Rightarrow> fmu_value \<Rightarrow> ('f, unit) runner_m" where
  "runner_set fmu name value =
     thn runner_check
    (bnd (runner_variable name) (\<lambda>v.
     if fv_causality v \<notin> {''input'', ''parameter''} then raise ValueError
     else thn (lift (check_value (fv_type v) value)) (native (fmu_set fmu (fv_type v) (fv_reference v) value))))"

definition runner_get :: "'f fmu \<Rightarrow> string \<Rightarrow> ('f, fmu_value) runner_m" where
  "runner_get fmu name =
     thn runner_check (bnd (runner_variable name) (\<lambda>v. native (fmu_get fmu (fv_type v) (fv_reference v))))"

definition runner_step :: "'f fmu \<Rightarrow> pyfloat \<Rightarrow> ('f, unit) runner_m" where
  "runner_step fmu dt =
     thn runner_check
    (if \<not> fin dt \<or> fle dt (Fin 0) then raise ValueError
     else
       bnd (gets rn_time) (\<lambda>t.
       bnd (native (fmu_do_step fmu t dt)) (\<lambda>(event, terminate, early).
       if event \<or> terminate \<or> early then thn (modify (\<lambda>r. r\<lparr>rn_failed := True\<rparr>)) (raise RuntimeError)
       else modify (\<lambda>r. r\<lparr>rn_time := fadd (rn_time r) dt\<rparr>))))"

text \<open>
  \<open>close\<close>: the unit is terminated when it is healthy and freed in any case; an exception of a later
  call replaces an earlier one, and the folder is removed last.
\<close>

definition release :: "'f fmu \<Rightarrow> bool \<Rightarrow> ('f, unit) pym" where
  "release fmu healthy f =
     (case (if healthy then fmu_terminate fmu f else (Inr (), f)) of
        (r, f') \<Rightarrow> (if fmu_component fmu f' then (case fmu_free fmu f' of (Inl e, f'') \<Rightarrow> (Inl e, f'') | (Inr _, f'') \<Rightarrow> (r, f''))
                   else (r, f')))"

definition close_unit :: "'f fmu \<Rightarrow> ('f, unit) runner_m" where
  "close_unit fmu = (\<lambda>r. case rn_fmu r of
      None \<Rightarrow> (Inr (), r)
    | Some f \<Rightarrow> (case release fmu (rn_initialized r \<and> \<not> rn_failed r) f of
        (x, f') \<Rightarrow> (x, r\<lparr>rn_fmu := None, rn_last := Some f'\<rparr>)))"

definition runner_close :: "'f fmu \<Rightarrow> ('f, unit) runner_m" where
  "runner_close fmu = (\<lambda>r. case close_unit fmu r of
      (x, r') \<Rightarrow> (case fmu_cleanup fmu of
          Inl e \<Rightarrow> (Inl e, r'\<lparr>rn_initialized := False\<rparr>)
        | Inr _ \<Rightarrow> (x, r'\<lparr>rn_initialized := False, rn_folder := False\<rparr>)))"

type_synonym fmu_signature = "(string \<times> string \<times> string) list"

definition check_contract :: "model_description \<Rightarrow> fmu_signature \<Rightarrow> unit res" where
  "check_contract md signature =
     (if md_version md \<noteq> ''3.0'' \<or> \<not> md_co_simulation md then Inl ValueError
      else
        ebind (emap (\<lambda>(name, kind, causality). case map_of (rev (md_variables md)) name of
            None \<Rightarrow> Inl ValueError
          | Some v \<Rightarrow> if (fv_type v, fv_causality v) \<noteq> (kind, causality) \<or> fv_dimensions v then Inl ValueError else Inr ()) signature)
        (\<lambda>_. Inr ()))"

text \<open>
  \<open>__init__\<close>: \<open>description\<close> is what reading the model description of the artifact gives. The runner is
  closed before a failure is passed on; a failure while closing replaces it.
\<close>

definition start_unit :: "'f fmu \<Rightarrow> model_description res \<Rightarrow> fmu_signature \<Rightarrow> ('f, unit) runner_m" where
  "start_unit fmu description signature =
     bnd (lift description) (\<lambda>md.
     thn (modify (\<lambda>r. r\<lparr>rn_variables := rev (md_variables md)\<rparr>))
    (thn (lift (check_contract md signature))
    (bnd (lift (fmu_load fmu)) (\<lambda>f.
     thn (modify (\<lambda>r. r\<lparr>rn_fmu := Some f\<rparr>))
    (thn (\<lambda>r. case rn_fmu r of
            None \<Rightarrow> (Inl AttributeError, r)
          | Some f \<Rightarrow> (case fmu_instantiate fmu f of (x, f') \<Rightarrow> (x, r\<lparr>rn_fmu := Some f'\<rparr>)))
         (modify (\<lambda>r. r\<lparr>rn_initialized := True\<rparr>)))))))"

definition runner_new :: "bool \<Rightarrow> 'f runner" where
  "runner_new folder = \<lparr>rn_fmu = None, rn_last = None, rn_initialized = False, rn_failed = False, rn_time = Fin 0,
     rn_variables = [], rn_folder = folder\<rparr>"

definition runner_init :: "'f fmu \<Rightarrow> model_description res \<Rightarrow> fmu_signature \<Rightarrow> unit res \<times> 'f runner" where
  "runner_init fmu description signature =
     (case fmu_mkdtemp fmu of
        Inl e \<Rightarrow> (Inl e, runner_new False)
      | Inr _ \<Rightarrow> catch (start_unit fmu description signature) (\<lambda>e. thn (runner_close fmu) (raise e)) (runner_new True))"

section \<open>Properties\<close>

datatype runner_op = RSet string fmu_value | RGet string | RStep pyfloat | RClose

fun runner_run :: "'f fmu \<Rightarrow> runner_op \<Rightarrow> 'f runner \<Rightarrow> pyexc option \<times> 'f runner" where
  "runner_run fmu (RSet n v) r = (case runner_set fmu n v r of (x, r') \<Rightarrow> (case x of Inl e \<Rightarrow> Some e | Inr _ \<Rightarrow> None, r'))"
| "runner_run fmu (RGet n) r = (case runner_get fmu n r of (x, r') \<Rightarrow> (case x of Inl e \<Rightarrow> Some e | Inr _ \<Rightarrow> None, r'))"
| "runner_run fmu (RStep dt) r = (case runner_step fmu dt r of (x, r') \<Rightarrow> (case x of Inl e \<Rightarrow> Some e | Inr _ \<Rightarrow> None, r'))"
| "runner_run fmu RClose r = (case runner_close fmu r of (x, r') \<Rightarrow> (case x of Inl e \<Rightarrow> Some e | Inr _ \<Rightarrow> None, r'))"

text \<open>The runner is out of use: closed, or failed.\<close>

definition unusable :: "'f runner \<Rightarrow> bool" where
  "unusable r \<longleftrightarrow> \<not> rn_initialized r \<or> rn_failed r"

lemma unusable_call:
  assumes "unusable r" "a \<noteq> RClose"
  shows "runner_run fmu a r = (Some RuntimeError, r)"
  using assms by (cases a) (simp_all add: unusable_def runner_set_def runner_get_def runner_step_def runner_check_def pym bnd_def)

lemma native_failure: "native m r = (Inl e, r') \<Longrightarrow> rn_failed r'"
  by (auto simp: native_def split: option.splits prod.splits sum.splits)

fun runner_runs :: "'f fmu \<Rightarrow> runner_op list \<Rightarrow> 'f runner \<Rightarrow> pyexc option list \<times> 'f runner" where
  "runner_runs fmu [] r = ([], r)"
| "runner_runs fmu (a # as) r = (case runner_run fmu a r of (x, r') \<Rightarrow> (case runner_runs fmu as r' of (xs, s) \<Rightarrow> (x # xs, s)))"

lemma unusable_runs:
  "unusable r \<Longrightarrow> list_all (\<lambda>a. a \<noteq> RClose) as \<Longrightarrow> runner_runs fmu as r = (replicate (length as) (Some RuntimeError), r)"
  by (induction as) (simp_all add: unusable_call)

lemma start_unit_ok:
  assumes "start_unit fmu description signature r0 = (Inr (), r)" "\<not> rn_failed r0"
  shows "\<not> unusable r \<and> rn_folder r = rn_folder r0 \<and>
    (\<forall>(n, k, c) \<in> set signature. \<exists>v. map_of (rn_variables r) n = Some v \<and> fv_type v = k \<and> fv_causality v = c \<and> \<not> fv_dimensions v)"
proof -
  obtain md where md: "description = Inr md" using assms(1) by (cases description) (simp_all add: start_unit_def bnd_def lift_def)
  obtain ys where ys: "check_contract md signature = Inr ()" using assms(1) md
    by (cases "check_contract md signature") (simp_all add: start_unit_def pym bnd_def)
  obtain f where f: "fmu_load fmu = Inr f" using assms(1) md ys
    by (cases "fmu_load fmu") (simp_all add: start_unit_def pym bnd_def)
  obtain f' where "fmu_instantiate fmu f = (Inr (), f')"
    using assms(1) md ys f by (cases "fmu_instantiate fmu f"; cases "fst (fmu_instantiate fmu f)") (auto simp: start_unit_def pym bnd_def)
  then have r: "r = r0\<lparr>rn_variables := rev (md_variables md), rn_fmu := Some f', rn_initialized := True\<rparr>"
    using assms(1) md ys f by (simp add: start_unit_def pym bnd_def)
  have "\<exists>v. map_of (rn_variables r) n = Some v \<and> fv_type v = k \<and> fv_causality v = c \<and> \<not> fv_dimensions v"
    if s: "(n, k, c) \<in> set signature" for n k c
  proof -
    obtain xs where "emap (\<lambda>(name, kind, causality). case map_of (rev (md_variables md)) name of
            None \<Rightarrow> Inl ValueError
          | Some v \<Rightarrow> if (fv_type v, fv_causality v) \<noteq> (kind, causality) \<or> fv_dimensions v then Inl ValueError else Inr ()) signature = Inr xs"
      using ys unfolding check_contract_def by (auto simp: ebind_Inr_iff split: if_splits)
    then show ?thesis using s by (induction signature arbitrary: xs) (auto simp: r ebind_Inr_iff split: option.splits if_splits)
  qed
  then show ?thesis using r assms(2) by (auto simp: unusable_def)
qed

lemma runner_init_usable:
  "runner_init fmu description signature = (Inr x, r) \<Longrightarrow> \<not> unusable r \<and> rn_folder r \<and>
     list_all (\<lambda>(n, k, c). case map_of (rn_variables r) n of
         None \<Rightarrow> False | Some v \<Rightarrow> fv_type v = k \<and> fv_causality v = c \<and> \<not> fv_dimensions v) signature"
  using start_unit_ok [of fmu description signature "runner_new True" r]
  by (cases "start_unit fmu description signature (runner_new True)"; cases "fst (start_unit fmu description signature (runner_new True))")
    (fastforce simp: runner_init_def runner_new_def pym bnd_def list_all_iff split: option.splits prod.splits sum.splits)+

section \<open>The calls of the unit\<close>

text \<open>A unit that also records the calls that are made of it.\<close>

datatype unit_call = Instantiate | SetValue | GetValue | DoStep | TerminateUnit | FreeInstance

definition noted :: "unit_call \<Rightarrow> ('f, 'a) pym \<Rightarrow> ('f \<times> unit_call list, 'a) pym" where
  "noted c m = (\<lambda>(f, calls). case m f of (x, f') \<Rightarrow> (x, (f', calls @ [c])))"

definition watched :: "'f fmu \<Rightarrow> ('f \<times> unit_call list) fmu" where
  "watched fmu =
     \<lparr>fmu_mkdtemp = fmu_mkdtemp fmu, fmu_cleanup = fmu_cleanup fmu,
      fmu_load = ebind (fmu_load fmu) (\<lambda>f. Inr (f, [])),
      fmu_instantiate = noted Instantiate (fmu_instantiate fmu),
      fmu_set = (\<lambda>t n v. noted SetValue (fmu_set fmu t n v)),
      fmu_get = (\<lambda>t n. noted GetValue (fmu_get fmu t n)),
      fmu_do_step = (\<lambda>t dt. noted DoStep (fmu_do_step fmu t dt)),
      fmu_terminate = noted TerminateUnit (fmu_terminate fmu),
      fmu_component = (\<lambda>(f, _). fmu_component fmu f),
      fmu_free = noted FreeInstance (fmu_free fmu)\<rparr>"

text \<open>A runner, started or not, that holds a unit which was neither terminated nor freed.\<close>

definition held :: "bool \<Rightarrow> ('f \<times> unit_call list) runner \<Rightarrow> bool" where
  "held started r \<longleftrightarrow> rn_initialized r = started \<and> rn_last r = None \<and> (case rn_fmu r of None \<Rightarrow> False | Some (f, calls) \<Rightarrow> TerminateUnit \<notin> set calls \<and> FreeInstance \<notin> set calls)"

text \<open>
  A unit that was let go: it was terminated if and only if it was in good order, and then the last call
  freed it, once, or it has no component that could be freed.
\<close>

definition let_go :: "'f fmu \<Rightarrow> bool \<Rightarrow> 'f \<times> unit_call list \<Rightarrow> bool" where
  "let_go fmu healthy = (\<lambda>(f, calls).
     (TerminateUnit \<in> set calls \<longleftrightarrow> healthy) \<and>
     (if FreeInstance \<in> set calls
      then \<exists>pre. calls = pre @ [FreeInstance] \<and> FreeInstance \<notin> set pre
      else \<not> fmu_component fmu f))"

lemma native_held:
  assumes "held st r" "c \<notin> {TerminateUnit, FreeInstance}"
  shows "held st (snd (native (noted c m) r))"
  using assms by (auto simp: held_def native_def noted_def split: option.splits prod.splits sum.splits)

lemma runner_calls_held:
  assumes "held st r"
  shows "held st (snd (runner_set (watched fmu) n v r))" "held st (snd (runner_get (watched fmu) n r))" "held st (snd (runner_step (watched fmu) dt r))"
proof -
  have h: "held st (snd (native (fmu_set (watched fmu) t i v) r))" "held st (snd (native (fmu_get (watched fmu) t i) r))"
    "held st (snd (native (fmu_do_step (watched fmu) x y) r))" for t i x y
    by (simp_all add: watched_def native_held [OF assms])
  have m: "held st r' \<Longrightarrow> held st (r'\<lparr>rn_failed := b\<rparr>)" "held st r' \<Longrightarrow> held st (r'\<lparr>rn_time := z\<rparr>)" for r' :: "('a \<times> unit_call list) runner" and b z
    by (simp_all add: held_def)
  show "held st (snd (runner_set (watched fmu) n v r))" using assms h(1)
    by (auto simp: runner_set_def runner_check_def runner_variable_def pym bnd_def split: option.splits sum.splits)
  show "held st (snd (runner_get (watched fmu) n r))" using assms h(2)
    by (auto simp: runner_get_def runner_check_def runner_variable_def pym bnd_def split: option.splits sum.splits)
  show "held st (snd (runner_step (watched fmu) dt r))" using assms h(3) [of "rn_time r" dt]
    by (auto simp: runner_step_def runner_check_def pym bnd_def split: prod.splits sum.splits intro: m)
qed

lemma release_lets_go:
  assumes "TerminateUnit \<notin> set calls" "FreeInstance \<notin> set calls"
  shows "let_go fmu healthy (snd (release (watched fmu) healthy (f, calls)))"
  using assms by (auto simp: release_def watched_def noted_def let_go_def split: prod.splits sum.splits)

text \<open>What a closed runner leaves: no reference, and its unit let go, if there was one.\<close>

definition unit_gone :: "'f fmu \<Rightarrow> bool \<Rightarrow> bool \<Rightarrow> ('f \<times> unit_call list) runner \<Rightarrow> bool" where
  "unit_gone fmu loaded started r \<longleftrightarrow> rn_fmu r = None \<and> \<not> rn_initialized r \<and> (rn_folder r \<longrightarrow> isl (fmu_cleanup fmu)) \<and>
     (case rn_last r of None \<Rightarrow> \<not> loaded | Some u \<Rightarrow> let_go fmu (started \<and> \<not> rn_failed r) u)"

lemma close_gone:
  assumes "held st r \<or> \<not> loaded \<and> rn_fmu r = None \<and> rn_last r = None"
  shows "unit_gone fmu loaded st (snd (runner_close (watched fmu) r))"
proof (cases "rn_fmu r")
  case None
  then show ?thesis using assms
    by (auto simp: runner_close_def close_unit_def unit_gone_def held_def watched_def split: sum.splits)
next
  case (Some u)
  obtain f calls where u: "u = (f, calls)" by (cases u)
  let ?x = "release (watched fmu) (rn_initialized r \<and> \<not> rn_failed r) (f, calls)"
  have "let_go fmu (rn_initialized r \<and> \<not> rn_failed r) (snd ?x)" using assms Some u by (intro release_lets_go) (auto simp: held_def)
  moreover have "rn_initialized r = st" "fmu_cleanup (watched fmu) = fmu_cleanup fmu"
    using assms Some by (auto simp: held_def watched_def)
  ultimately show ?thesis using Some u
    by (cases ?x) (auto simp: runner_close_def close_unit_def unit_gone_def split: sum.splits)
qed

text \<open>Whether the unit of an artifact is loaded at all.\<close>

definition loads_unit :: "'f fmu \<Rightarrow> model_description res \<Rightarrow> fmu_signature \<Rightarrow> bool" where
  "loads_unit fmu description signature \<longleftrightarrow> \<not> isl (fmu_mkdtemp fmu) \<and>
     \<not> isl (ebind description (\<lambda>md. ebind (check_contract md signature) (\<lambda>_. fmu_load fmu)))"

lemma start_unit_holds:
  assumes "start_unit (watched fmu) description signature (runner_new True) = (x, r)" "\<not> isl (fmu_mkdtemp fmu)"
  shows "held (x = Inr ()) r \<or> \<not> loads_unit fmu description signature \<and> rn_fmu r = None \<and> rn_last r = None"
proof (cases "ebind description (\<lambda>md. ebind (check_contract md signature) (\<lambda>_. fmu_load fmu))")
  case (Inl e)
  then have "\<not> loads_unit fmu description signature" by (simp add: loads_unit_def)
  moreover have "rn_fmu r = None \<and> rn_last r = None" using assms(1) Inl
    by (cases description; auto simp: start_unit_def watched_def runner_new_def pym bnd_def ebind_def split: sum.splits)
  ultimately show ?thesis by blast
next
  case (Inr f)
  then obtain md where "description = Inr md" "check_contract md signature = Inr ()" "fmu_load fmu = Inr f"
    by (auto simp: ebind_Inr_iff)
  then show ?thesis using assms(1)
    by (auto simp: start_unit_def watched_def noted_def runner_new_def held_def pym bnd_def split: prod.splits sum.splits)
qed

lemma runner_init_held:
  "case runner_init (watched fmu) description signature of
     (Inl e, r) \<Rightarrow> unit_gone fmu (loads_unit fmu description signature) False r
   | (Inr _, r) \<Rightarrow> held True r"
proof (cases "isl (fmu_mkdtemp fmu)")
  case True
  then show ?thesis
    by (cases "fmu_mkdtemp fmu") (auto simp: runner_init_def watched_def unit_gone_def runner_new_def loads_unit_def)
next
  case False
  then obtain u where d: "fmu_mkdtemp (watched fmu) = Inr u" by (cases "fmu_mkdtemp fmu") (auto simp: watched_def)
  obtain x r where x: "start_unit (watched fmu) description signature (runner_new True) = (x, r)" by fastforce
  note h = start_unit_holds [OF x False]
  show ?thesis
  proof (cases x)
    case (Inl e)
    then show ?thesis using d x close_gone [of False r "loads_unit fmu description signature" fmu] h
      by (cases "runner_close (watched fmu) r") (auto simp: runner_init_def pym bnd_def split: sum.splits)
  next
    case (Inr v)
    then have "loads_unit fmu description signature" using x False
      by (cases description; auto simp: loads_unit_def start_unit_def watched_def pym bnd_def ebind_def split: sum.splits)
    then show ?thesis using d x h Inr by (simp add: runner_init_def pym)
  qed
qed

end
