(* ===== verification/Copley.thy ===== *)
theory Copley
  imports FmiRunner StoreProps
begin

text \<open>
  The adapter of the Copley drive model (adapter/copley.py): profile position mode only, with the
  motion computed by an FMI unit in steps of two milliseconds. The unit is the parameter of the runner.
\<close>

unbundle bit_operations_syntax

section \<open>The contract of the unit\<close>

definition SIGNATURE :: fmu_signature where
  "SIGNATURE =
     [(''ControlWord'', ''UInt16'', ''input''), (''ModesOfOp'', ''Int8'', ''input''),
      (''TargetPosition'', ''Int32'', ''input''), (''TargetVelocity'', ''Int32'', ''input''),
      (''TargetTorque'', ''Int16'', ''input''), (''FaultInject'', ''Boolean'', ''input''),
      (''StatusWord'', ''UInt16'', ''output''), (''ModesDisplay'', ''Int8'', ''output''),
      (''ActualPosition'', ''Int32'', ''output''), (''ActualVelocity'', ''Int32'', ''output''),
      (''TorqueActual'', ''Int16'', ''output''), (''AmplifierEvent'', ''UInt32'', ''output''),
      (''ProfileVelocity'', ''Float64'', ''parameter''), (''ProfileAcceleration'', ''Float64'', ''parameter''),
      (''TorqueTimeConstant'', ''Float64'', ''parameter'')]"

definition STEP_SECONDS :: pyfloat where
  "STEP_SECONDS = flit (2 / 1000)"

section \<open>State\<close>

record 'f copley =
  cp_profile :: DeviceProfile
  cp_od :: VirtualOdModel
  cp_runner :: "'f runner"
  cp_remainder :: pyfloat
  cp_fault :: bool
  cp_velocity_factor :: pyfloat
  cp_acceleration_factor :: pyfloat
  cp_persistent :: "(int \<times> int) list"

type_synonym ('f, 'a) copley_m = "('f copley, 'a) pym"

definition cp_od_op :: "(VirtualOdModel, 'a) pym \<Rightarrow> ('f, 'a) copley_m" where
  "cp_od_op m = on_part cp_od (\<lambda>od s. s\<lparr>cp_od := od\<rparr>) m"

definition cp_run :: "('f, 'a) runner_m \<Rightarrow> ('f, 'a) copley_m" where
  "cp_run m = on_part cp_runner (\<lambda>r s. s\<lparr>cp_runner := r\<rparr>) m"

definition cp_read :: "int \<Rightarrow> int \<Rightarrow> ('f, odval) copley_m" where
  "cp_read index subindex = cp_od_op (od_read index subindex)"

text \<open>Numbers that cross the boundary: \<open>True\<close> is 1.\<close>

fun od_of_fmu :: "fmu_value \<Rightarrow> odval" where
  "od_of_fmu (FInt n) = VInt n"
| "od_of_fmu (FFloat f) = VFloat f"
| "od_of_fmu (FBool b) = VInt (if b then 1 else 0)"
| "od_of_fmu FOther = VStr []"

fun fmu_of_od :: "odval \<Rightarrow> fmu_value" where
  "fmu_of_od (VInt n) = FInt n"
| "fmu_of_od (VFloat f) = FFloat f"
| "fmu_of_od _ = FOther"

text \<open>\<open>a & b\<close> and \<open>a | b\<close> are for integers.\<close>

definition py_bits :: "(int \<Rightarrow> int) \<Rightarrow> odval \<Rightarrow> int res" where
  "py_bits f v = (case v of VInt n \<Rightarrow> Inr (f n) | _ \<Rightarrow> Inl TypeError)"

text \<open>\<open>a / b\<close> with a float divisor, and \<open>round(a)\<close> of a float.\<close>

definition py_div :: "odval \<Rightarrow> pyfloat \<Rightarrow> pyfloat res" where
  "py_div v g = (case v of
      VInt n \<Rightarrow> ebind (float_of_int n) (\<lambda>f. fdiv f g)
    | VFloat f \<Rightarrow> fdiv f g
    | _ \<Rightarrow> Inl TypeError)"

text \<open>
  \<open>10.0 ** (-abs(v))\<close>. The unit exponents are integers: presets and defaults of the dictionary; a float
  with an integral value has the same power.
\<close>

definition unit_power :: "odval \<Rightarrow> pyfloat res" where
  "unit_power v = ebind (py_abs v) (\<lambda>a. case a of
      VInt n \<Rightarrow> fpow10 (- n)
    | VFloat f \<Rightarrow> ebind (int_of_float f) (\<lambda>n. if fin f \<and> fval f = of_int n then fpow10 (- n) else Inl ValueError)
    | _ \<Rightarrow> Inl TypeError)"

section \<open>Checks\<close>

definition cp_validate :: "int \<Rightarrow> odval \<Rightarrow> unit res" where
  "cp_validate index v =
     (if index = 0x6060 \<and> \<not> py_eq v (VInt 0) \<and> \<not> py_eq v (VInt 1) then Inl DeviceRejectedException
      else if index \<in> {0x6081, 0x6083, 0x6084}
        then ebind (py_le v (VInt 0)) (\<lambda>b. if b then Inl DeviceRejectedException else Inr ())
      else Inr ())"

definition WRITABLE :: "(int \<times> int) list" where
  "WRITABLE = [(0x6040, 0), (0x6060, 0), (0x607A, 0), (0x6081, 0), (0x6083, 0), (0x6084, 0), (0x2005, 1), (0x2005, 3), (0x2000, 1)]"

definition value_at :: "((int \<times> int) \<times> odval) list \<Rightarrow> int \<times> int \<Rightarrow> odval res" where
  "value_at vs k = (case map_of vs k of None \<Rightarrow> Inl KeyError | Some v \<Rightarrow> Inr v)"

definition cp_validate_parameters :: "((int \<times> int) \<times> odval) list \<Rightarrow> unit res" where
  "cp_validate_parameters vs =
     ebind (emap (\<lambda>k. ebind (value_at vs k) (\<lambda>v. ebind (py_le v (VInt 0)) (\<lambda>b. if b then Inl ValueError else Inr ())))
       [(0x6081, 0), (0x6083, 0), (0x6084, 0)]) (\<lambda>_.
     ebind (value_at vs (0x6083, 0)) (\<lambda>acceleration.
     ebind (value_at vs (0x6084, 0)) (\<lambda>deceleration.
     if \<not> py_eq acceleration deceleration then Inl ValueError else Inr ())))"

section \<open>Operations\<close>

definition cp_refresh :: "'f fmu \<Rightarrow> ('f, unit) copley_m" where
  "cp_refresh fmu =
     bnd (cp_run (runner_get fmu ''StatusWord'')) (\<lambda>sw.
     bnd (lift (py_bits (\<lambda>n. n OR 0x8000) (od_of_fmu sw))) (\<lambda>word.
     thn (cp_od_op (write_internal 0x6041 (VInt word) 0))
    (thn (forM (\<lambda>(index, name). bnd (cp_run (runner_get fmu name)) (\<lambda>v. cp_od_op (write_internal index (od_of_fmu v) 0)))
           [(0x6061, ''ModesDisplay''), (0x6064, ''ActualPosition''), (0x6077, ''TorqueActual'')])
    (bnd (cp_run (runner_get fmu ''ActualVelocity'')) (\<lambda>v.
     bnd (gets cp_velocity_factor) (\<lambda>factor.
     bnd (lift (ebind (py_mul (od_of_fmu v) (VFloat (flit (1 / 10)))) (\<lambda>p. ebind (py_div p factor) round_float))) (\<lambda>n.
     cp_od_op (write_internal 0x606C (VInt n) 0))))))))"

definition persistent_keys :: "(int \<times> int) list" where
  "persistent_keys = [(0x216E, 1), (0x2194, 1), (0x2194, 2), (0x2194, 3), (0x2194, 4), (0x6081, 0), (0x6083, 0), (0x6084, 0)]"

definition cp_set_up :: "'f fmu \<Rightarrow> ('f, unit) copley_m" where
  "cp_set_up fmu =
     thn (cp_od_op (write_internal 0x6060 (VInt 1) 0))
    (thn (cp_od_op (write_internal 0x6061 (VInt 1) 0))
    (bnd (cp_read 0x2194 2) (\<lambda>e2. bnd (lift (unit_power e2)) (\<lambda>s2.
     bnd (cp_read 0x2194 1) (\<lambda>e1. bnd (lift (unit_power e1)) (\<lambda>s1.
     bnd (lift (fdiv s2 s1)) (\<lambda>vf. thn (modify (\<lambda>s. s\<lparr>cp_velocity_factor := vf\<rparr>))
    (bnd (cp_read 0x2194 3) (\<lambda>e3. bnd (lift (unit_power e3)) (\<lambda>s3.
     bnd (lift (fdiv s3 s1)) (\<lambda>af. thn (modify (\<lambda>s. s\<lparr>cp_acceleration_factor := af\<rparr>))
    (bnd (cp_run (runner_get fmu ''ProfileVelocity'')) (\<lambda>pv.
     bnd (lift (ebind (py_div (od_of_fmu pv) vf) round_float)) (\<lambda>v.
     thn (cp_od_op (write_internal 0x6081 (VInt v) 0))
    (bnd (cp_run (runner_get fmu ''ProfileAcceleration'')) (\<lambda>pa.
     bnd (lift (ebind (py_div (od_of_fmu pa) af) round_float)) (\<lambda>a.
     thn (cp_od_op (write_internal 0x6083 (VInt a) 0))
    (thn (cp_od_op (write_internal 0x6084 (VInt a) 0))
    (bnd (gets cp_profile) (\<lambda>p.
     thn (modify (\<lambda>s. s\<lparr>cp_persistent := filter (\<lambda>k. k \<in> set persistent_keys)
       (map (\<lambda>r. (role_index r, role_subindex r)) (prof_roles p) @ map (\<lambda>e. (ode_index e, ode_subindex e)) (prof_rx p))\<rparr>))
     (cp_refresh fmu)))))))))))))))))))))"

definition copley_init :: "'f fmu \<Rightarrow> DeviceProfile \<Rightarrow> 'f runner \<Rightarrow> (unit res \<times> 'f copley) res" where
  "copley_init fmu p r =
     ebind (ConfiguredObjectDictionary p) (\<lambda>od.
     Inr (cp_set_up fmu \<lparr>cp_profile = p, cp_od = od, cp_runner = r, cp_remainder = Fin 0, cp_fault = False,
       cp_velocity_factor = Fin 1, cp_acceleration_factor = Fin 1, cp_persistent = []\<rparr>))"

text \<open>\<open>open\<close>: the runner is closed again when the adapter cannot be built.\<close>

definition copley_open :: "'f fmu \<Rightarrow> model_description res \<Rightarrow> DeviceProfile \<Rightarrow> 'f copley res \<times> 'f runner" where
  "copley_open fmu description p =
     (case runner_init fmu description SIGNATURE of
        (Inl e, r) \<Rightarrow> (Inl e, r)
      | (Inr _, r) \<Rightarrow>
          (case copley_init fmu p r of
             Inl e \<Rightarrow> (case runner_close fmu r of (Inl e', r') \<Rightarrow> (Inl e', r') | (Inr _, r') \<Rightarrow> (Inl e, r'))
           | Inr (Inl e, s) \<Rightarrow> (case runner_close fmu (cp_runner s) of (Inl e', r') \<Rightarrow> (Inl e', r') | (Inr _, r') \<Rightarrow> (Inl e, r'))
           | Inr (Inr _, s) \<Rightarrow> (Inr s, cp_runner s)))"

definition cp_read_sdo :: "int \<Rightarrow> int \<Rightarrow> nat \<Rightarrow> ('f, bytes) copley_m" where
  "cp_read_sdo index subindex sz = cp_od_op (bridge_read_sdo index subindex sz)"

definition cp_write_sdo :: "int \<Rightarrow> int \<Rightarrow> bytes \<Rightarrow> ('f, unit) copley_m" where
  "cp_write_sdo index subindex payload =
     (if (index, subindex) \<notin> set WRITABLE then raise DeviceRejectedException
      else
        bnd (cp_od_op (od_definition index subindex)) (\<lambda>d.
        if int (length payload) \<noteq> def_bit_size d div 8 then raise ValueError
        else
          bnd (lift (decode_od_value (def_data_type d) payload)) (\<lambda>v.
          if (index, subindex) = (0x2000, 1) \<and> \<not> py_eq v (VInt 0) then raise DeviceRejectedException
          else thn (lift (cp_validate index v)) (cp_od_op (bridge_write_sdo index subindex payload)))))"

text \<open>Truth of a value.\<close>

definition py_true :: "odval \<Rightarrow> bool" where
  "py_true v = (case v of VInt n \<Rightarrow> n \<noteq> 0 | VFloat f \<Rightarrow> \<not> feq f (Fin 0) | VStr s \<Rightarrow> s \<noteq> [] | VBytes b \<Rightarrow> b \<noteq> [])"

fun cp_check_outputs :: "bytes \<Rightarrow> int \<Rightarrow> ObjectDictionaryEntry list \<Rightarrow> unit res" where
  "cp_check_outputs payload offset [] = Inr ()"
| "cp_check_outputs payload offset (e # es) =
     ebind (byte_length e) (\<lambda>n.
     ebind (if ode_index e = 0 then Inr ()
            else ebind (decode_od_value (ode_data_type e) (take (nat n) (drop (nat offset) payload))) (\<lambda>v.
                 ebind (cp_validate (ode_index e) v) (\<lambda>_.
                 if ode_index e \<in> {0x60FF, 0x6071, 0x60B1, 0x60B2} \<and> py_true v then Inl DeviceRejectedException else Inr ()))) (\<lambda>_.
     cp_check_outputs payload (offset + n) es))"

definition cp_apply_outputs :: "bytes \<Rightarrow> ('f, unit) copley_m" where
  "cp_apply_outputs payload =
     bnd (gets (\<lambda>s. prof_rx (cp_profile s))) (\<lambda>rx.
     bnd (lift (pdo_size rx)) (\<lambda>expected.
     if int (length payload) \<noteq> expected then raise ValueError
     else thn (lift (cp_check_outputs payload 0 rx)) (cp_od_op (rxpdo_payload_to_od rx payload))))"

definition inject_fault :: "bool \<Rightarrow> ('f, unit) copley_m" where
  "inject_fault active = modify (\<lambda>s. s\<lparr>cp_fault := active\<rparr>)"

text \<open>
  The loop of a step: the unit runs while a whole step of it is due. It is partial: with a huge
  remainder it would not end.
\<close>

definition due :: "pyfloat \<Rightarrow> bool" where
  "due r \<longleftrightarrow> fle STEP_SECONDS (fadd r (flit (1 / 10 ^ 12)))"

partial_function (option) cp_loop :: "'f fmu \<Rightarrow> 'f copley \<Rightarrow> (unit res \<times> 'f copley) option" where
  "cp_loop fmu s =
     (if due (cp_remainder s)
      then case cp_run (runner_step fmu STEP_SECONDS) s of
          (Inl e, s') \<Rightarrow> Some (Inl e, s')
        | (Inr _, s') \<Rightarrow> cp_loop fmu (s'\<lparr>cp_remainder := fmax (Fin 0) (fsub (cp_remainder s') STEP_SECONDS)\<rparr>)
      else Some (Inr (), s))"

text \<open>What happens before the loop: the checks, and the inputs of the unit.\<close>

definition cp_inputs :: "'f fmu \<Rightarrow> ('f, unit) copley_m" where
  "cp_inputs fmu =
     bnd (cp_read 0x6083 0) (\<lambda>acceleration.
     bnd (cp_read 0x6084 0) (\<lambda>deceleration.
     if \<not> py_eq acceleration deceleration then raise DeviceRejectedException
     else
     thn (forM (\<lambda>index. bnd (cp_read index 0) (\<lambda>v. lift (cp_validate index v))) [0x6040, 0x6060, 0x6081, 0x6083, 0x6084])
    (bnd (cp_read 0x6040 0) (\<lambda>cw. bnd (lift (py_bits (\<lambda>n. n AND NOT 0x0100) cw)) (\<lambda>control.
     bnd (cp_read 0x6060 0) (\<lambda>mode.
     bnd (cp_read 0x607A 0) (\<lambda>target.
     bnd (gets cp_fault) (\<lambda>fault.
     bnd (cp_read 0x6081 0) (\<lambda>velocity. bnd (gets cp_velocity_factor) (\<lambda>vf. bnd (lift (py_mul velocity (VFloat vf))) (\<lambda>pv.
     bnd (gets cp_acceleration_factor) (\<lambda>af. bnd (lift (py_mul acceleration (VFloat af))) (\<lambda>pa.
     forM (\<lambda>(name, v). cp_run (runner_set fmu name v))
       [(''ControlWord'', FInt control), (''ModesOfOp'', fmu_of_od mode), (''TargetPosition'', fmu_of_od target),
        (''TargetVelocity'', FInt 0), (''TargetTorque'', FInt 0), (''FaultInject'', FBool fault),
        (''ProfileVelocity'', fmu_of_od pv), (''ProfileAcceleration'', fmu_of_od pa)])))))))))))))"

text \<open>An injected fault refuses a reset; then the inputs.\<close>

definition cp_ready :: "'f fmu \<Rightarrow> ('f, unit) copley_m" where
  "cp_ready fmu =
     bnd (gets cp_fault) (\<lambda>fault.
     thn (if fault then bnd (cp_read 0x6040 0) (\<lambda>cw. bnd (lift (py_bits (\<lambda>n. n AND 0x80) cw)) (\<lambda>b.
            if b \<noteq> 0 then raise DeviceRejectedException else ret ())) else ret ())
         (cp_inputs fmu))"

definition cp_before :: "'f fmu \<Rightarrow> pyfloat \<Rightarrow> ('f, unit) copley_m" where
  "cp_before fmu dt =
     (if \<not> fin dt \<or> \<not> (flt (Fin 0) dt \<and> fle dt (flit (1 / 10))) then raise ValueError
      else thn (cp_ready fmu) (modify (\<lambda>s. s\<lparr>cp_remainder := fadd (cp_remainder s) dt\<rparr>)))"

definition cp_step :: "'f fmu \<Rightarrow> pyfloat \<Rightarrow> 'f copley \<Rightarrow> (unit res \<times> 'f copley) option" where
  "cp_step fmu dt s = (case cp_before fmu dt s of
      (Inl e, s1) \<Rightarrow> Some (Inl e, s1)
    | (Inr _, s1) \<Rightarrow> (case cp_loop fmu s1 of
        None \<Rightarrow> None
      | Some (Inl e, s2) \<Rightarrow> Some (Inl e, s2)
      | Some (Inr _, s2) \<Rightarrow> Some (cp_refresh fmu s2)))"

definition cp_read_inputs :: "('f, bytes) copley_m" where
  "cp_read_inputs = bnd (gets (\<lambda>s. prof_tx (cp_profile s))) (\<lambda>tx. cp_od_op (od_to_txpdo_payload tx))"

definition cp_close :: "'f fmu \<Rightarrow> ('f, unit) copley_m" where
  "cp_close fmu = cp_run (runner_close fmu)"

section \<open>The grid of the remainder\<close>

definition grid :: "nat \<Rightarrow> pyfloat" where
  "grid k = Fin (of_nat k / 512)"

lemma grid_wff: "k \<le> 1000 \<Longrightarrow> wff (grid k) \<and> fin (grid k) \<and> fval (grid k) = of_nat k / 512"
proof -
  assume k: "k \<le> 1000"
  have "isf 53 (-1074) (of_nat k / 512)" using k by (intro isfI [of _ "int k" "-9"]) (auto simp: power_int_minus)
  moreover have "\<bar>of_nat k / 512 :: rat\<bar> \<le> 2" using k by simp
  then have "\<bar>of_nat k / 512 :: rat\<bar> < lim64"
  proof (rule le_less_trans)
    have "(2 :: rat) powi 1 < 2 powi 1024" by (simp only: powi_less_iff)
    then show "2 < lim64" by (simp add: lim64_def)
  qed
  ultimately show ?thesis by (simp add: grid_def)
qed

lemma step_literal: "fin STEP_SECONDS" "1 / 512 \<le> fval STEP_SECONDS" "fval STEP_SECONDS \<le> 2 / 512" "wff STEP_SECONDS"
proof -
  show "fin STEP_SECONDS" "1 / 512 \<le> fval STEP_SECONDS" "fval STEP_SECONDS \<le> 2 / 512" by code_simp+
  show "wff STEP_SECONDS" by (simp add: STEP_SECONDS_def)
qed

lemma epsilon_literal: "fin (flit (1 / 10 ^ 12))" "0 \<le> fval (flit (1 / 10 ^ 12))" "2 * fval (flit (1 / 10 ^ 12)) < fval STEP_SECONDS"
  "fval (flit (1 / 10 ^ 12)) \<le> 1 / 512"
  by code_simp+

text \<open>A remainder below \<open>k / 512\<close> seconds.\<close>

definition below :: "nat \<Rightarrow> pyfloat \<Rightarrow> bool" where
  "below k r \<longleftrightarrow> wff r \<and> fin r \<and> 0 \<le> fval r \<and> fval r \<le> of_nat k / 512"

lemma below_mono: "below k r \<Longrightarrow> k \<le> l \<Longrightarrow> below l r"
proof -
  assume "below k r" "k \<le> l"
  moreover from this have "(of_nat k :: rat) / 512 \<le> of_nat l / 512" by simp
  ultimately show ?thesis unfolding below_def by linarith
qed

lemma below_0: "below 0 (Fin 0)"
  by (simp add: below_def)

lemma below_subtract:
  assumes "below (Suc k) r" "k \<le> 100"
  shows "below k (fmax (Fin 0) (fsub r STEP_SECONDS))"
proof -
  obtain s where s: "fsub r STEP_SECONDS = round64 s (fval r - fval STEP_SECONDS)"
    using fsub_fin [of r STEP_SECONDS] assms(1) step_literal(1) by (auto simp: below_def)
  have l: "wff (Fin (- 2 / 512))" using grid_wff [of 2] wff_fneg [of "grid 2"] by (simp add: grid_def)
  have lo: "fval (Fin (- 2 / 512)) \<le> fval r - fval STEP_SECONDS" and hi: "fval r - fval STEP_SECONDS \<le> fval (grid k)"
    using assms(1) step_literal by (auto simp: below_def grid_def add_divide_distrib)
  note b = round64_between [OF l conjunct1 [OF grid_wff] lo hi, of s]
  then show ?thesis using grid_wff [of k] assms s by (auto simp: below_def fmax_def flt_fin)
qed

lemma not_due_0: "below 0 r \<Longrightarrow> \<not> due r"
proof -
  assume r: "below 0 r"
  then have z: "fval r = 0" by (simp add: below_def)
  have e: "wff (flit (1 / 10 ^ 12))" by simp
  obtain s where s: "fadd r (flit (1 / 10 ^ 12)) = round64 s (fval (flit (1 / 10 ^ 12)))"
    using fadd_fin [of r "flit (1 / 10 ^ 12)"] r epsilon_literal(1) z by (auto simp: below_def)
  note b = round64_between [OF e e order_refl order_refl, of s]
  have "fval (fadd r (flit (1 / 10 ^ 12))) < fval STEP_SECONDS" using b(3) epsilon_literal(2,3) s by simp
  then show ?thesis using b(1) s step_literal(1) by (simp add: due_def fle_fin)
qed

lemma not_due_small:
  assumes "below k r" "\<not> due r" "k \<le> 100"
  shows "below 2 r"
proof -
  obtain s where s: "fadd r (flit (1 / 10 ^ 12)) = round64 s (fval r + fval (flit (1 / 10 ^ 12)))"
    using fadd_fin [of r "flit (1 / 10 ^ 12)"] assms(1) epsilon_literal(1) by (auto simp: below_def)
  have r: "wff r" "fval r \<le> fval r + fval (flit (1 / 10 ^ 12))" using assms(1) epsilon_literal(2) by (auto simp: below_def)
  have hi: "fval r + fval (flit (1 / 10 ^ 12)) \<le> fval (grid (Suc k))"
    using assms(1) epsilon_literal(4) by (simp add: below_def grid_def add_divide_distrib)
  note b = round64_between [OF r(1) conjunct1 [OF grid_wff] r(2) hi, of s]
  have "fval r < fval STEP_SECONDS" using b assms(2,3) s step_literal(1) by (simp add: due_def fle_fin)
  then show ?thesis using assms(1) step_literal(3) by (simp add: below_def)
qed

lemma below_add:
  assumes "below 2 r" "wff dt" "fin dt" "0 < fval dt" "fval dt \<le> fval (flit (1 / 10))"
  shows "below 54 (fadd r dt)"
proof -
  have t: "fval (flit (1 / 10)) \<le> 52 / 512" by code_simp
  obtain s where s: "fadd r dt = round64 s (fval r + fval dt)" using fadd_fin assms(1,3) by (auto simp: below_def)
  have lo: "fval (grid 0) \<le> fval r + fval dt" and hi: "fval r + fval dt \<le> fval (grid 54)"
    using assms t by (auto simp: below_def grid_def)
  note b = round64_between [OF conjunct1 [OF grid_wff] conjunct1 [OF grid_wff] lo hi, of s]
  show ?thesis using b s by (simp add: below_def grid_def)
qed

section \<open>What an operation leaves alone\<close>

definition steady :: "('f, 'a) copley_m \<Rightarrow> bool" where
  "steady m \<longleftrightarrow> (\<forall>s. cp_remainder (snd (m s)) = cp_remainder s \<and> (unusable (cp_runner s) \<longrightarrow> unusable (cp_runner (snd (m s)))))"

named_theorems steady_intro \<open>computations that keep the remainder and do not revive the runner\<close>

lemma steadyD: "steady m \<Longrightarrow> m s = (x, t) \<Longrightarrow> cp_remainder t = cp_remainder s \<and> (unusable (cp_runner s) \<longrightarrow> unusable (cp_runner t))"
  unfolding steady_def by (metis snd_conv)

lemma steady_leaf [steady_intro]: "steady (ret x)" "steady (raise e)" "steady (lift r)" "steady (gets f)" "steady (cp_od_op n)" "steady (cp_read i k)"
  by (simp_all add: steady_def pym cp_od_op_def cp_read_def split_def)

lemma steady_modify [steady_intro]:
  "(\<And>s. cp_remainder (f s) = cp_remainder s \<and> cp_runner (f s) = cp_runner s) \<Longrightarrow> steady (modify f)"
  by (simp add: steady_def pym)

lemma steady_bnd [steady_intro]: "steady m \<Longrightarrow> (\<And>x. steady (g x)) \<Longrightarrow> steady (bnd m g)"
proof (unfold steady_def, intro allI)
  fix s :: "'a copley"
  assume m: "\<forall>s. cp_remainder (snd (m s)) = cp_remainder s \<and> (unusable (cp_runner s) \<longrightarrow> unusable (cp_runner (snd (m s))))"
    and g: "\<And>x. \<forall>s. cp_remainder (snd (g x s)) = cp_remainder s \<and> (unusable (cp_runner s) \<longrightarrow> unusable (cp_runner (snd (g x s))))"
  obtain r t where "m s = (r, t)" by fastforce
  then show "cp_remainder (snd (bnd m g s)) = cp_remainder s \<and> (unusable (cp_runner s) \<longrightarrow> unusable (cp_runner (snd (bnd m g s))))"
    using spec [OF m, of s] g by (cases r) (simp_all add: bnd_def)
qed

lemma steady_thn [steady_intro]: "steady m \<Longrightarrow> steady k \<Longrightarrow> steady (thn m k)"
  by (simp add: thn_def steady_bnd)

lemma steady_if [steady_intro]: "steady m \<Longrightarrow> steady n \<Longrightarrow> steady (if c then m else n)"
  by simp

lemma steady_forM [steady_intro]: "(\<And>x. steady (f x)) \<Longrightarrow> steady (forM f xs)"
  by (induction xs) (auto intro: steady_leaf steady_thn)

lemma dead_runner:
  assumes "unusable r"
  shows "runner_set fmu n v r = (Inl RuntimeError, r)" "runner_get fmu n r = (Inl RuntimeError, r)" "runner_step fmu dt r = (Inl RuntimeError, r)"
  using assms by (simp_all add: unusable_def runner_set_def runner_get_def runner_step_def runner_check_def pym bnd_def)

lemma steady_run [steady_intro]: "steady (cp_run (runner_set fmu n v))" "steady (cp_run (runner_get fmu n))" "steady (cp_run (runner_step fmu dt))"
  by (auto simp: steady_def cp_run_def on_part_def dead_runner split: prod.splits)

lemma steady_refresh: "steady (cp_refresh fmu)"
  unfolding cp_refresh_def by (intro steady_intro) (auto intro!: steady_intro split: prod.splits)

lemma steady_set_up: "steady (cp_set_up fmu)"
  unfolding cp_set_up_def by (intro steady_intro steady_refresh; simp)

lemma steady_inputs: "steady (cp_inputs fmu)"
  unfolding cp_inputs_def by (intro steady_intro) (auto intro!: steady_intro split: prod.splits)

section \<open>A dead runner stops a step\<close>

definition blocked :: "('f, 'a) copley_m \<Rightarrow> bool" where
  "blocked m \<longleftrightarrow> (\<forall>s. unusable (cp_runner s) \<longrightarrow> (\<exists>e. fst (m s) = Inl e))"

lemma blocked_bnd: "steady m \<Longrightarrow> (\<And>x. blocked (g x)) \<Longrightarrow> blocked (bnd m g)"
proof (unfold blocked_def, intro allI impI)
  fix s :: "'a copley"
  assume m: "steady m" and g: "\<And>x. \<forall>s. unusable (cp_runner s) \<longrightarrow> (\<exists>e. fst (g x s) = Inl e)" and u: "unusable (cp_runner s)"
  obtain r t where t: "m s = (r, t)" by fastforce
  then show "\<exists>e. fst (bnd m g s) = Inl e" using steadyD [OF m t] g u by (cases r) (simp_all add: bnd_def)
qed

lemma blocked_thn: "steady m \<Longrightarrow> blocked k \<Longrightarrow> blocked (thn m k)"
  by (simp add: thn_def blocked_bnd)

lemma blocked_if: "blocked m \<Longrightarrow> blocked n \<Longrightarrow> blocked (if c then m else n)"
  by simp

lemma blocked_raise: "blocked (raise e)"
  by (simp add: blocked_def raise_def)

lemma blocked_sets: "blocked (forM (\<lambda>(name, v). cp_run (runner_set fmu name v)) (x # xs))"
  by (cases x) (simp add: blocked_def cp_run_def on_part_def dead_runner thn_def bnd_def)

lemma blocked_inputs: "blocked (cp_inputs fmu)"
  unfolding cp_inputs_def
  by (intro blocked_bnd blocked_thn blocked_if blocked_raise blocked_sets steady_intro)

section \<open>Steps return\<close>

text \<open>
  The state of an adapter between steps: the remainder is at most one step of the unit, or the unit
  has failed and no further step will be added to it.
\<close>

definition cp_ok :: "'f copley \<Rightarrow> bool" where
  "cp_ok s \<longleftrightarrow> below 54 (cp_remainder s) \<and> (\<not> unusable (cp_runner s) \<longrightarrow> below 2 (cp_remainder s))"

lemma steady_ok: "steady m \<Longrightarrow> below 2 (cp_remainder s) \<Longrightarrow> cp_ok (snd (m s))"
  using below_mono [of 2 _ 54] by (simp add: steady_def cp_ok_def)

lemma runner_step_fails: "runner_step fmu STEP_SECONDS r = (Inl e, r') \<Longrightarrow> unusable r'"
proof -
  assume s: "runner_step fmu STEP_SECONDS r = (Inl e, r')"
  show ?thesis
  proof (cases "unusable r")
    case True
    then show ?thesis using s dead_runner(3) [OF True] by simp
  next
    case False
    moreover have "fin STEP_SECONDS \<and> \<not> fle STEP_SECONDS (Fin 0)" using step_literal by (simp add: fle_fin)
    ultimately show ?thesis using s native_failure [of "fmu_do_step fmu (rn_time r) STEP_SECONDS" r]
      by (auto simp: unusable_def runner_step_def runner_check_def pym bnd_def split: prod.splits sum.splits if_splits)
  qed
qed

lemma cp_loop_returns:
  assumes "below k (cp_remainder s)" "k \<le> 54"
  shows "\<exists>x s'. cp_loop fmu s = Some (x, s') \<and> cp_ok s' \<and> (x = Inr () \<longrightarrow> below 2 (cp_remainder s'))"
  using assms
proof (induction k arbitrary: s)
  case 0
  then show ?case using not_due_0 [OF 0(1)] below_mono [OF 0(1)] by (subst cp_loop.simps) (simp add: cp_ok_def)
next
  case (Suc k)
  show ?case
  proof (cases "due (cp_remainder s)")
    case False
    have "below 2 (cp_remainder s)" "below 54 (cp_remainder s)"
      using not_due_small [OF Suc.prems(1) False] below_mono [OF Suc.prems] Suc.prems(2) by auto
    then show ?thesis using False by (subst cp_loop.simps) (simp add: cp_ok_def)
  next
    case due: True
    obtain x t where t: "cp_run (runner_step fmu STEP_SECONDS) s = (x, t)" by fastforce
    have rem: "cp_remainder t = cp_remainder s" using steadyD [OF steady_run(3) t] by simp
    show ?thesis
    proof (cases x)
      case (Inl e)
      have "unusable (cp_runner t)" using t Inl runner_step_fails [of fmu "cp_runner s" e]
        by (auto simp: cp_run_def on_part_def split: prod.splits)
      then show ?thesis using due t Inl rem below_mono [OF Suc.prems] by (subst cp_loop.simps) (simp add: cp_ok_def)
    next
      case (Inr u)
      let ?t = "t\<lparr>cp_remainder := fmax (Fin 0) (fsub (cp_remainder t) STEP_SECONDS)\<rparr>"
      have "below k (cp_remainder ?t)" using below_subtract [of k "cp_remainder s"] Suc.prems rem by simp
      then have "\<exists>x s'. cp_loop fmu ?t = Some (x, s') \<and> cp_ok s' \<and> (x = Inr () \<longrightarrow> below 2 (cp_remainder s'))"
        using Suc.IH [of ?t] Suc.prems(2) by simp
      then show ?thesis using due t Inr by (subst cp_loop.simps) simp
    qed
  qed
qed

lemma steady_ready: "steady (cp_ready fmu)"
  unfolding cp_ready_def by (intro steady_intro steady_inputs)

lemma blocked_ready: "blocked (cp_ready fmu)"
  unfolding cp_ready_def by (intro blocked_bnd blocked_thn blocked_inputs steady_intro)

lemma cp_before_ok:
  assumes "cp_ok s" "wff dt" "cp_before fmu dt s = (x, t)"
  shows "case x of Inl _ \<Rightarrow> cp_ok t | Inr _ \<Rightarrow> below 54 (cp_remainder t)"
proof (cases "\<not> fin dt \<or> \<not> (flt (Fin 0) dt \<and> fle dt (flit (1 / 10)))")
  case True
  then have "x = Inl ValueError" "t = s" using assms(3) unfolding cp_before_def by (auto simp: raise_def)
  then show ?thesis using assms(1) by simp
next
  case False
  have l: "fin (flit (1 / 10))" by code_simp
  obtain y u where u: "cp_ready fmu s = (y, u)" by fastforce
  note k = steadyD [OF steady_ready u]
  show ?thesis
  proof (cases y)
    case (Inl e)
    then have "x = Inl e" "t = u" using assms(3) False u unfolding cp_before_def by (auto simp: thn_def bnd_def)
    then show ?thesis using assms(1) k by (auto simp: cp_ok_def)
  next
    case (Inr v)
    then have "\<not> unusable (cp_runner s)" using blocked_ready [of fmu] u unfolding blocked_def by force
    then have "below 2 (cp_remainder u)" using assms(1) k by (simp add: cp_ok_def)
    then have "below 54 (fadd (cp_remainder u) dt)" using below_add assms(2) False l by (auto simp: flt_fin fle_fin)
    moreover have "x = Inr ()" "cp_remainder t = fadd (cp_remainder u) dt"
      using assms(3) False u Inr unfolding cp_before_def by (auto simp: thn_def bnd_def modify_def)
    ultimately show ?thesis by simp
  qed
qed

text \<open>
  C32. Every step of the Copley adapter ends, whatever the unit answers and whatever step length
  is asked for: the loop over the two millisecond steps of the unit terminates, and the state it
  leaves again admits every further step.
\<close>

theorem copley_step_returns:
  assumes "cp_ok s" "wff dt"
  shows "\<exists>x s'. cp_step fmu dt s = Some (x, s') \<and> cp_ok s'"
proof (cases "cp_before fmu dt s")
  case (Pair x t)
  note b = cp_before_ok [OF assms Pair]
  show ?thesis
  proof (cases x)
    case (Inl e)
    then show ?thesis using Pair b by (simp add: cp_step_def)
  next
    case (Inr u)
    then obtain y t' where l: "cp_loop fmu t = Some (y, t')" "cp_ok t'" "y = Inr () \<longrightarrow> below 2 (cp_remainder t')"
      using cp_loop_returns [of 54 t fmu] b by auto
    show ?thesis
    proof (cases y)
      case (Inl e)
      then show ?thesis using Pair Inr l by (simp add: cp_step_def)
    next
      case ok: (Inr v)
      then have "cp_ok (snd (cp_refresh fmu t'))" using l(3) by (intro steady_ok steady_refresh) simp
      then show ?thesis using Pair Inr l(1) ok by (cases "cp_refresh fmu t'") (simp add: cp_step_def)
    qed
  qed
qed

section \<open>The adapter boundary\<close>

definition copley_ops :: "'f fmu \<Rightarrow> 'f copley adapter_ops" where
  "copley_ops fmu = \<lparr>ad_read_sdo = cp_read_sdo, ad_write_sdo = cp_write_sdo, ad_apply_outputs = cp_apply_outputs,
     ad_step = (\<lambda>dt s. case cp_step fmu dt s of Some out \<Rightarrow> out | None \<Rightarrow> (Inl RuntimeError, s)),
     ad_read_inputs = cp_read_inputs,
     ad_od_definition = (\<lambda>i k. cp_od_op (od_definition i k)), ad_od_read = cp_read,
     ad_od_write = (\<lambda>i v k. cp_od_op (od_write i v k)), ad_od_write_role = (\<lambda>r v. cp_od_op (write_role r v)),
     ad_persistent_roles = cp_persistent, ad_validate_parameters = (\<lambda>_. Some cp_validate_parameters)\<rparr>"

lemma cp_od_op_runner: "cp_runner (snd (cp_od_op m s)) = cp_runner s \<and> cp_remainder (snd (cp_od_op m s)) = cp_remainder s"
  by (simp add: cp_od_op_def on_part_def split_def)

definition inert :: "('f, 'a) copley_m \<Rightarrow> bool" where
  "inert m \<longleftrightarrow> (\<forall>s. cp_runner (snd (m s)) = cp_runner s \<and> cp_remainder (snd (m s)) = cp_remainder s)"

lemma inert_ok: "inert m \<Longrightarrow> cp_ok s \<Longrightarrow> cp_ok (snd (m s))"
  by (simp add: inert_def cp_ok_def)

lemma inert_leaf: "inert (ret x)" "inert (raise e)" "inert (lift r)" "inert (gets f)" "inert (cp_od_op m)"
  by (simp_all add: inert_def pym cp_od_op_runner)

lemma inert_bnd: "inert m \<Longrightarrow> (\<And>x. inert (g x)) \<Longrightarrow> inert (bnd m g)"
  by (auto simp: inert_def bnd_def split: prod.splits sum.splits) (metis snd_conv)+

lemma inert_accesses: "inert (cp_write_sdo i k payload)" "inert (cp_apply_outputs payload)"
  unfolding cp_write_sdo_def cp_apply_outputs_def thn_def
  by (auto intro!: inert_bnd inert_leaf simp: Let_def)

lemma cp_reads_pure:
  "snd (cp_read_sdo i k n s) = s" "snd (cp_read_inputs s) = s" "snd (cp_read i k s) = s"
  by (simp_all add: cp_read_sdo_def cp_read_inputs_def cp_read_def cp_od_op_def pym split_def bridge_read_pure od_reads_pure)

interpretation copley: drive_adapter "copley_ops fmu" cp_ok
  by unfold_locales (auto simp: copley_ops_def cp_reads_pure intro: inert_ok inert_accesses)

interpretation copley_store: od_backed "copley_ops fmu" cp_od "\<lambda>od s. s\<lparr>cp_od := od\<rparr>"
  by unfold_locales (simp_all add: copley_ops_def cp_read_sdo_def cp_read_def cp_od_op_def)

section \<open>Opening\<close>

lemma copley_init_ok:
  assumes "copley_init fmu p r = Inr (x, s)"
  shows "cp_ok s"
proof -
  obtain od where od: "ConfiguredObjectDictionary p = Inr od"
    using assms by (auto simp: copley_init_def ebind_Inr_iff)
  define s0 where "s0 = \<lparr>cp_profile = p, cp_od = od, cp_runner = r, cp_remainder = Fin 0, cp_fault = False,
       cp_velocity_factor = Fin 1, cp_acceleration_factor = Fin 1, cp_persistent = []\<rparr>"
  have s: "cp_set_up fmu s0 = (x, s)" using assms od by (simp add: copley_init_def s0_def)
  have "below 2 (cp_remainder s0)" using below_mono [OF below_0, of 2] by (simp add: s0_def)
  from steady_ok [OF steady_set_up this, of fmu] show ?thesis using s by simp
qed

text \<open>A call of the unit that returns leaves the runner usable.\<close>

definition lively :: "('f, 'a) copley_m \<Rightarrow> bool" where
  "lively m \<longleftrightarrow> (\<forall>s x t. m s = (Inr x, t) \<longrightarrow> \<not> unusable (cp_runner s) \<longrightarrow> \<not> unusable (cp_runner t))"

named_theorems lively_intro \<open>computations that fail or leave the runner usable\<close>

lemma lively_leaf [lively_intro]: "lively (ret x)" "lively (raise e)" "lively (lift r)" "lively (gets f)" "lively (cp_od_op n)" "lively (cp_read i k)"
  by (auto simp: lively_def pym cp_od_op_def cp_read_def split: prod.splits)

lemma lively_modify [lively_intro]: "(\<And>s. cp_runner (f s) = cp_runner s) \<Longrightarrow> lively (modify f)"
  by (simp add: lively_def pym)

lemma lively_bnd [lively_intro]: "lively m \<Longrightarrow> (\<And>x. lively (g x)) \<Longrightarrow> lively (bnd m g)"
  unfolding lively_def bnd_def by (fastforce split: prod.splits sum.splits)

lemma lively_thn [lively_intro]: "lively m \<Longrightarrow> lively k \<Longrightarrow> lively (thn m k)"
  by (simp add: thn_def lively_bnd)

lemma lively_forM [lively_intro]: "(\<And>x. lively (f x)) \<Longrightarrow> lively (forM f xs)"
  by (induction xs) (auto intro: lively_leaf lively_thn)

lemma native_usable: "native m r = (Inr x, r') \<Longrightarrow> unusable r' = unusable r"
  by (auto simp: native_def unusable_def split: option.splits prod.splits sum.splits)

lemma lively_get [lively_intro]: "lively (cp_run (runner_get fmu n))"
  by (auto simp: lively_def cp_run_def on_part_def runner_get_def runner_check_def runner_variable_def pym bnd_def
      split: prod.splits sum.splits if_splits option.splits dest: native_usable)

lemma lively_refresh: "lively (cp_refresh fmu)"
  unfolding cp_refresh_def by (intro lively_intro) (auto intro!: lively_intro split: prod.splits)

lemma lively_set_up: "lively (cp_set_up fmu)"
  unfolding cp_set_up_def by (intro lively_intro lively_refresh; simp)

text \<open>Setting up keeps hold of the unit.\<close>

definition holding :: "('f \<times> unit_call list, 'a) copley_m \<Rightarrow> bool" where
  "holding m \<longleftrightarrow> (\<forall>s. held True (cp_runner s) \<longrightarrow> held True (cp_runner (snd (m s))))"

named_theorems holding_intro \<open>computations that keep the unit of the runner\<close>

lemma holding_leaf [holding_intro]: "holding (ret x)" "holding (raise e)" "holding (lift r)" "holding (gets f)" "holding (cp_od_op n)" "holding (cp_read i k)"
  by (simp_all add: holding_def pym cp_od_op_def cp_read_def split_def)

lemma holding_modify [holding_intro]: "(\<And>s. cp_runner (f s) = cp_runner s) \<Longrightarrow> holding (modify f)"
  by (simp add: holding_def pym)

lemma holding_bnd [holding_intro]: "holding m \<Longrightarrow> (\<And>x. holding (g x)) \<Longrightarrow> holding (bnd m g)"
  unfolding holding_def bnd_def by (fastforce split: prod.splits sum.splits)

lemma holding_thn [holding_intro]: "holding m \<Longrightarrow> holding k \<Longrightarrow> holding (thn m k)"
  by (simp add: thn_def holding_bnd)

lemma holding_forM [holding_intro]: "(\<And>x. holding (f x)) \<Longrightarrow> holding (forM f xs)"
  by (induction xs) (auto intro: holding_leaf holding_thn)

lemma holding_get [holding_intro]: "holding (cp_run (runner_get (watched fmu) n))"
  by (auto simp: holding_def cp_run_def on_part_def split_def runner_calls_held)

lemma holding_refresh: "holding (cp_refresh (watched fmu))"
  unfolding cp_refresh_def by (intro holding_intro) (auto intro!: holding_intro split: prod.splits)

lemma holding_set_up: "holding (cp_set_up (watched fmu))"
  unfolding cp_set_up_def by (intro holding_intro holding_refresh; simp)

lemma copley_init_holds:
  assumes "copley_init (watched fmu) p r = Inr (x, s)" "held True r" "\<not> unusable r"
  shows "held True (cp_runner s)" "x = Inr u \<Longrightarrow> \<not> unusable (cp_runner s)"
proof -
  obtain od where od: "ConfiguredObjectDictionary p = Inr od"
    using assms by (auto simp: copley_init_def ebind_Inr_iff)
  define s0 where "s0 = \<lparr>cp_profile = p, cp_od = od, cp_runner = r, cp_remainder = Fin 0, cp_fault = False,
       cp_velocity_factor = Fin 1, cp_acceleration_factor = Fin 1, cp_persistent = []\<rparr>"
  have s: "cp_set_up (watched fmu) s0 = (x, s)" using assms od by (simp add: copley_init_def s0_def)
  have r: "cp_runner s0 = r" by (simp add: s0_def)
  show "held True (cp_runner s)" using holding_set_up [of fmu] assms(2) r s unfolding holding_def by (metis snd_conv)
  show "x = Inr u \<Longrightarrow> \<not> unusable (cp_runner s)" using lively_set_up [of "watched fmu"] assms(3) r s unfolding lively_def by metis
qed

text \<open>
  C33. Opening a Copley adapter either gives an adapter whose runner is usable, with a unit that
  was neither terminated nor freed, or fails with no reference to the unit left: a unit that was
  loaded was then terminated if and only if it had started and not failed, and the last call made
  of it freed it, once, unless it has no component to free; the folder remains only when removing
  it failed. This holds whichever call of the unit or of the set-up raised.
\<close>

theorem copley_open_contract:
  "case copley_open (watched fmu) description p of
     (Inl e, r) \<Rightarrow> unit_gone fmu (loads_unit fmu description SIGNATURE) (\<not> isl (fst (runner_init (watched fmu) description SIGNATURE))) r
   | (Inr s, r) \<Rightarrow> r = cp_runner s \<and> cp_ok s \<and> \<not> unusable r \<and> held True r"
proof (cases "runner_init (watched fmu) description SIGNATURE")
  case (Pair x r)
  note h = runner_init_held [of fmu description SIGNATURE, unfolded Pair]
  show ?thesis
  proof (cases x)
    case (Inl e)
    then show ?thesis using Pair h by (simp add: copley_open_def)
  next
    case (Inr u)
    then have r: "held True r" "\<not> unusable r" using h runner_init_usable Pair by auto
    have gone: "unit_gone fmu l True r'" if "held True q" "runner_close (watched fmu) q = (y, r')" for q y r' l
      using close_gone [of True q l fmu] that by simp
    show ?thesis
    proof (cases "copley_init (watched fmu) p r")
      case (Inl e)
      then show ?thesis using Pair Inr r gone
        by (auto simp: copley_open_def split: sum.splits prod.splits)
    next
      case i: (Inr ys)
      obtain y s where ys: "ys = (y, s)" by (cases ys)
      note c = copley_init_holds [OF i [unfolded ys] r]
      show ?thesis using Pair Inr i ys c copley_init_ok [OF i [unfolded ys]] gone
        by (cases y) (auto simp: copley_open_def split: sum.splits prod.splits)
    qed
  qed
qed

end
