(* ===== verification/Catalog.thy ===== *)
theory Catalog
  imports Configured
begin

text \<open>
  The ESI catalog of the device (device_descriptions/cmmt_as/catalog.py): the objects, data types and
  process data objects that the vendor's XML description lists. The XML text is parsed by the standard
  library; the model starts from the element tree it returns. Text is ASCII.
\<close>

section \<open>Element trees\<close>

text \<open>
  An element of \<open>xml.etree.ElementTree\<close>: tag, attributes, the text before the first child, the text
  behind the closing tag, and the children. A missing text is the empty text: the parser below cannot
  tell them apart.
\<close>

datatype element = Element (etag: string) (attrib: "(string \<times> string) list") (etext: string) (etail: string) (kids: "element list")

fun itertext :: "element \<Rightarrow> string" where
  "itertext (Element _ _ t _ cs) = t @ concat (map (\<lambda>c. itertext c @ etail c) cs)"

text \<open>\<open>element.findall(tag)\<close>, \<open>element.findall('.//tag')\<close> in document order, and \<open>element.get\<close>.\<close>

definition children :: "string \<Rightarrow> element \<Rightarrow> element list" where
  "children t e = filter (\<lambda>c. etag c = t) (kids e)"

fun subtree :: "element \<Rightarrow> element list" where
  "subtree (Element n a t l cs) = Element n a t l cs # concat (map subtree cs)"

definition descendants :: "string \<Rightarrow> element \<Rightarrow> element list" where
  "descendants t e = filter (\<lambda>c. etag c = t) (concat (map subtree (kids e)))"

definition children2 :: "string \<Rightarrow> string \<Rightarrow> element \<Rightarrow> element list" where
  "children2 t u e = concat (map (children u) (children t e))"

fun first :: "'a list \<Rightarrow> 'a option" where
  "first [] = None"
| "first (x # xs) = Some x"

definition child :: "string \<Rightarrow> element \<Rightarrow> element option" where
  "child t e = first (children t e)"

definition attribute :: "string \<Rightarrow> element \<Rightarrow> string option" where
  "attribute k e = map_of (attrib e) k"

section \<open>Text\<close>

definition xml_text :: "element option \<Rightarrow> string" where
  "xml_text e = (case e of None \<Rightarrow> '''' | Some x \<Rightarrow> strip (itertext x))"

definition parse_int :: "string \<Rightarrow> int res" where
  "parse_int v =
     (let value = strip v in
      if value = [] then Inr 0
      else if startswith (lower value) ''#x'' then int_of_str 16 (drop 2 value)
      else int_of_str 0 value)"

abbreviation text_at :: "string \<Rightarrow> element \<Rightarrow> string" where
  "text_at t e \<equiv> xml_text (child t e)"

abbreviation int_at :: "string \<Rightarrow> element \<Rightarrow> int res" where
  "int_at t e \<equiv> parse_int (text_at t e)"

definition access_text :: "element \<Rightarrow> string" where
  "access_text e = lower (strip (xml_text (first (children2 ''Flags'' ''Access'' e))))"

definition english :: "element \<Rightarrow> bool" where
  "english e \<longleftrightarrow> attribute ''LcId'' e = Some ''1033''"

definition english_name :: "element \<Rightarrow> string" where
  "english_name e = (case filter english (children ''Name'' e) of
      [] \<Rightarrow> text_at ''Name'' e
    | n # _ \<Rightarrow> xml_text (Some n))"

definition english_display_name :: "element \<Rightarrow> string" where
  "english_display_name e = (case filter english (children ''DisplayName'' e) of
      [] \<Rightarrow> ''''
    | n # _ \<Rightarrow> xml_text (Some n))"

text \<open>\<open>x or y\<close> on strings.\<close>

definition or_else :: "string \<Rightarrow> string \<Rightarrow> string" where
  "or_else x y = (if x = [] then y else x)"

text \<open>\<open>' '.join(text.split())\<close>.\<close>

function words :: "string \<Rightarrow> string list" where
  "words [] = []"
| "words (c # cs) =
     (if is_space c then words cs
      else (c # takeWhile (\<lambda>d. \<not> is_space d) cs) # words (dropWhile (\<lambda>d. \<not> is_space d) cs))"
  by pat_completeness auto

termination words
  by (relation "measure length") (auto simp: less_Suc_eq_le length_dropWhile_le)

fun join :: "string \<Rightarrow> string list \<Rightarrow> string" where
  "join sep [] = []"
| "join sep [w] = w"
| "join sep (w # ws) = w @ sep @ join sep ws"

definition normalize_name :: "string \<Rightarrow> string" where
  "normalize_name v = join '' '' (words (lower (strip v)))"

definition same_subitem_names :: "string list \<Rightarrow> string list \<Rightarrow> bool" where
  "same_subitem_names left right =
     (let l = filter (\<lambda>n. n \<noteq> []) (map normalize_name left);
          r = filter (\<lambda>n. n \<noteq> []) (map normalize_name right) in l \<noteq> [] \<and> l = r)"

text \<open>The format \<open>03d\<close>: at least three characters, zeros behind the sign.\<close>

definition zero_fill :: "nat \<Rightarrow> string \<Rightarrow> string" where
  "zero_fill w s = replicate (w - length s) CHR ''0'' @ s"

definition format_03d :: "int \<Rightarrow> string" where
  "format_03d v = (if v < 0 then CHR ''-'' # zero_fill 2 (nat_digits (nat (- v))) else zero_fill 3 (nat_digits (nat v)))"

section \<open>Data types\<close>

record CMMTEsiSubItemInfo =
  sub_subindex :: int
  sub_name :: string
  sub_data_type :: string
  sub_bit_size :: int
  sub_bit_offset :: int
  sub_access :: string

text \<open>\<open>(base_type, lower_bound, elements, element_bits)\<close>.\<close>

type_synonym array_type = "string \<times> int \<times> int \<times> int"
type_synonym array_types = "(string \<times> array_type) list"
type_synonym data_types = "(string \<times> (int \<times> CMMTEsiSubItemInfo list) list) list"

text \<open>\<open>d.setdefault(k, v)\<close> and \<open>d.setdefault(k, []).append(v)\<close>.\<close>

definition set_default :: "'k \<Rightarrow> 'v \<Rightarrow> ('k \<times> 'v) list \<Rightarrow> ('k \<times> 'v) list" where
  "set_default k v d = (if map_of d k = None then d @ [(k, v)] else d)"

definition append_at :: "'k \<Rightarrow> 'v \<Rightarrow> ('k \<times> 'v list) list \<Rightarrow> ('k \<times> 'v list) list" where
  "append_at k v d = AList.update k (case map_of d k of None \<Rightarrow> [v] | Some vs \<Rightarrow> vs @ [v]) d"

fun efold :: "('a \<Rightarrow> 'b \<Rightarrow> 'b res) \<Rightarrow> 'a list \<Rightarrow> 'b \<Rightarrow> 'b res" where
  "efold f [] d = Inr d"
| "efold f (x # xs) d = ebind (f x d) (efold f xs)"

definition add_array_type :: "element \<Rightarrow> array_types \<Rightarrow> array_types res" where
  "add_array_type data_type d =
     (case child ''ArrayInfo'' data_type of
        None \<Rightarrow> Inr d
      | Some array_info \<Rightarrow>
          let name = text_at ''Name'' data_type in
          ebind (int_at ''Elements'' array_info) (\<lambda>elements.
          if name = [] \<or> elements \<le> 0 then Inr d
          else
            ebind (int_at ''BitSize'' data_type) (\<lambda>total_bits.
            ebind (int_at ''LBound'' array_info) (\<lambda>lower_bound.
            Inr (set_default name (text_at ''BaseType'' data_type, lower_bound, elements, total_bits div elements) d)))))"

definition parse_array_data_types :: "element \<Rightarrow> array_types res" where
  "parse_array_data_types doc = efold add_array_type (descendants ''DataType'' doc) []"

text \<open>The sub-items that a sub-item of an array type stands for.\<close>

definition array_subitem :: "string \<Rightarrow> int \<Rightarrow> string \<Rightarrow> array_type \<Rightarrow> nat \<Rightarrow> CMMTEsiSubItemInfo" where
  "array_subitem base_name base_offset access = (\<lambda>(base_type, lower_bound, elements, element_bits) element_offset.
     let subindex = lower_bound + int element_offset in
     \<lparr>sub_subindex = subindex, sub_name = base_name @ '' '' @ format_03d subindex, sub_data_type = base_type,
      sub_bit_size = element_bits, sub_bit_offset = base_offset + int element_offset * element_bits,
      sub_access = access\<rparr>)"

definition array_subitems :: "string \<Rightarrow> int \<Rightarrow> string \<Rightarrow> array_type \<Rightarrow> CMMTEsiSubItemInfo list" where
  "array_subitems base_name base_offset access a =
     map (array_subitem base_name base_offset access a) [0..<nat (fst (snd (snd a)))]"

definition parse_subitem :: "array_types \<Rightarrow> element \<Rightarrow> CMMTEsiSubItemInfo list res" where
  "parse_subitem array_types subitem =
     (let item_type = text_at ''Type'' subitem;
          name = or_else (english_display_name subitem) (text_at ''Name'' subitem) in
      case map_of array_types item_type of
        None \<Rightarrow>
          ebind (int_at ''SubIdx'' subitem) (\<lambda>subindex.
          ebind (int_at ''BitSize'' subitem) (\<lambda>bit_size.
          ebind (int_at ''BitOffs'' subitem) (\<lambda>bit_offset.
          Inr [\<lparr>sub_subindex = subindex, sub_name = name, sub_data_type = item_type, sub_bit_size = bit_size,
                sub_bit_offset = bit_offset, sub_access = access_text subitem\<rparr>])))
      | Some a \<Rightarrow>
          ebind (int_at ''BitOffs'' subitem) (\<lambda>base_offset.
          Inr (array_subitems name base_offset (access_text subitem) a)))"

definition parse_data_type_subitems :: "array_types \<Rightarrow> element \<Rightarrow> CMMTEsiSubItemInfo list res" where
  "parse_data_type_subitems array_types data_type =
     ebind (emap (parse_subitem array_types) (children ''SubItem'' data_type)) (\<lambda>iss. Inr (concat iss))"

definition add_data_type :: "array_types \<Rightarrow> element \<Rightarrow> data_types \<Rightarrow> data_types res" where
  "add_data_type array_types data_type d =
     (let name = text_at ''Name'' data_type in
      if name = [] then Inr d
      else
        ebind (int_at ''BitSize'' data_type) (\<lambda>bit_size.
        ebind (parse_data_type_subitems array_types data_type) (\<lambda>subitems.
        Inr (append_at name (bit_size, subitems) d))))"

definition parse_data_types :: "element \<Rightarrow> data_types res" where
  "parse_data_types doc =
     ebind (parse_array_data_types doc) (\<lambda>array_types.
     efold (add_data_type array_types) (descendants ''DataType'' doc) [])"

section \<open>Objects\<close>

record CMMTEsiObjectInfo =
  obj_index :: int
  obj_name :: string
  obj_data_type :: string
  obj_bit_size :: int
  obj_access :: string
  obj_subitems :: "CMMTEsiSubItemInfo list"

definition info_names :: "element \<Rightarrow> string list" where
  "info_names obj = map (text_at ''Name'') (children2 ''Info'' ''SubItem'' obj)"

definition info_subitems :: "element \<Rightarrow> CMMTEsiSubItemInfo list" where
  "info_subitems obj =
     map (\<lambda>(index, name). \<lparr>sub_subindex = int index, sub_name = name, sub_data_type = '''', sub_bit_size = 0,
            sub_bit_offset = 0, sub_access = ''''\<rparr>) (enumerate 0 (info_names obj))"

definition object_subitems :: "element \<Rightarrow> string \<Rightarrow> int \<Rightarrow> data_types \<Rightarrow> CMMTEsiSubItemInfo list" where
  "object_subitems obj data_type bit_size data_types =
     (case map_of data_types data_type of
        None \<Rightarrow> info_subitems obj
      | Some [] \<Rightarrow> info_subitems obj
      | Some (c # cs) \<Rightarrow>
          let same_size = map snd (filter (\<lambda>x. fst x = bit_size) (c # cs)) in
          if length same_size = 1 then hd same_size
          else case filter (\<lambda>x. same_subitem_names (info_names obj) (map sub_name (snd x))) (c # cs) of
              x # _ \<Rightarrow> snd x
            | [] \<Rightarrow> (case same_size of s # _ \<Rightarrow> s | [] \<Rightarrow> snd c))"

definition parse_object :: "data_types \<Rightarrow> int \<Rightarrow> element \<Rightarrow> CMMTEsiObjectInfo res" where
  "parse_object data_types index obj =
     (let data_type = text_at ''Type'' obj in
      ebind (int_at ''BitSize'' obj) (\<lambda>bit_size.
      Inr \<lparr>obj_index = index, obj_name = text_at ''Name'' obj, obj_data_type = data_type, obj_bit_size = bit_size,
           obj_access = access_text obj, obj_subitems = object_subitems obj data_type bit_size data_types\<rparr>))"

definition subitem_object :: "CMMTEsiObjectInfo \<Rightarrow> CMMTEsiSubItemInfo \<Rightarrow> CMMTEsiObjectInfo" where
  "subitem_object info item =
     \<lparr>obj_index = obj_index info, obj_name = sub_name item, obj_data_type = sub_data_type item,
      obj_bit_size = sub_bit_size item, obj_access = or_else (sub_access item) (obj_access info), obj_subitems = []\<rparr>"

type_synonym root_objects = "(int \<times> CMMTEsiObjectInfo) list"
type_synonym esi_objects = "((int \<times> int) \<times> CMMTEsiObjectInfo) list"

text \<open>The entries of an object in the flat table: one of its own, or one per sub-item.\<close>

definition flat_entries :: "CMMTEsiObjectInfo \<Rightarrow> esi_objects" where
  "flat_entries info =
     (if obj_subitems info = [] then [((obj_index info, 0), info)]
      else map (\<lambda>item. ((obj_index info, sub_subindex item), subitem_object info item)) (obj_subitems info))"

definition put_all :: "('k \<times> 'v) list \<Rightarrow> ('k \<times> 'v) list \<Rightarrow> ('k \<times> 'v) list" where
  "put_all kvs d = foldl (\<lambda>d (k, v). AList.update k v d) d kvs"

definition add_object :: "data_types \<Rightarrow> element \<Rightarrow> root_objects \<times> esi_objects \<Rightarrow> (root_objects \<times> esi_objects) res" where
  "add_object data_types obj = (\<lambda>(root_objects, objects).
     ebind (int_at ''Index'' obj) (\<lambda>index.
     if index \<le> 0 then Inr (root_objects, objects)
     else
       ebind (parse_object data_types index obj) (\<lambda>info.
       Inr (AList.update index info root_objects, put_all (flat_entries info) objects))))"

definition parse_objects :: "element \<Rightarrow> data_types \<Rightarrow> (root_objects \<times> esi_objects) res" where
  "parse_objects device data_types = efold (add_object data_types) (descendants ''Object'' device) ([], [])"

section \<open>Process data objects\<close>

record CMMTEsiPdoEntryInfo =
  pde_index :: int
  pde_subindex :: int
  pde_bit_length :: int
  pde_name :: string
  pde_data_type :: string

record CMMTEsiPdoInfo =
  pdo_index :: int
  pdo_name :: string
  pdo_entries :: "CMMTEsiPdoEntryInfo list"

unbundle bit_operations_syntax

definition esi_mapping_entry :: "CMMTEsiPdoEntryInfo \<Rightarrow> int" where
  "esi_mapping_entry e =
     (if pde_index e = 0 then pde_bit_length e AND 0xFF
      else push_bit 16 (pde_index e AND 0xFFFF) OR push_bit 8 (pde_subindex e AND 0xFF) OR (pde_bit_length e AND 0xFF))"

definition mapping_entries :: "CMMTEsiPdoInfo \<Rightarrow> int list" where
  "mapping_entries p = map esi_mapping_entry (pdo_entries p)"

definition parse_pdo_entry :: "element \<Rightarrow> CMMTEsiPdoEntryInfo res" where
  "parse_pdo_entry entry =
     ebind (int_at ''Index'' entry) (\<lambda>index.
     ebind (int_at ''SubIndex'' entry) (\<lambda>subindex.
     ebind (int_at ''BitLen'' entry) (\<lambda>bit_length.
     Inr \<lparr>pde_index = index, pde_subindex = subindex, pde_bit_length = bit_length,
          pde_name = text_at ''Name'' entry, pde_data_type = text_at ''DataType'' entry\<rparr>)))"

type_synonym pdo_infos = "(int \<times> CMMTEsiPdoInfo) list"

definition add_pdo :: "element \<Rightarrow> pdo_infos \<Rightarrow> pdo_infos res" where
  "add_pdo pdo d =
     ebind (int_at ''Index'' pdo) (\<lambda>index.
     if index \<le> 0 then Inr d
     else
       ebind (emap parse_pdo_entry (children ''Entry'' pdo)) (\<lambda>entries.
       Inr (AList.update index \<lparr>pdo_index = index, pdo_name = text_at ''Name'' pdo, pdo_entries = entries\<rparr> d)))"

definition parse_pdos :: "element \<Rightarrow> string \<Rightarrow> pdo_infos res" where
  "parse_pdos device t = efold add_pdo (children t device) []"

section \<open>The catalog\<close>

record CMMTEsiCatalog =
  esi_variant :: string
  esi_type_name :: string
  esi_display_name :: string
  esi_product_code :: int
  esi_revision :: int
  esi_root_objects :: root_objects
  esi_objects :: esi_objects
  esi_rxpdos :: pdo_infos
  esi_txpdos :: pdo_infos

definition get_key :: "('k \<times> 'v) list \<Rightarrow> 'k \<Rightarrow> 'v res" where
  "get_key d k = (case map_of d k of None \<Rightarrow> Inl KeyError | Some v \<Rightarrow> Inr v)"

definition object_info :: "CMMTEsiCatalog \<Rightarrow> int \<Rightarrow> int \<Rightarrow> CMMTEsiObjectInfo res" where
  "object_info c index subindex = get_key (esi_objects c) (index, subindex)"

definition root_object_infos :: "CMMTEsiCatalog \<Rightarrow> CMMTEsiObjectInfo list" where
  "root_object_infos c =
     map (\<lambda>index. the (map_of (esi_root_objects c) index)) (sort (map fst (esi_root_objects c)))"

definition rxpdo_mapping_entries :: "CMMTEsiCatalog \<Rightarrow> int \<Rightarrow> int list res" where
  "rxpdo_mapping_entries c i = ebind (get_key (esi_rxpdos c) i) (\<lambda>p. Inr (mapping_entries p))"

definition txpdo_mapping_entries :: "CMMTEsiCatalog \<Rightarrow> int \<Rightarrow> int list res" where
  "txpdo_mapping_entries c i = ebind (get_key (esi_txpdos c) i) (\<lambda>p. Inr (mapping_entries p))"

text \<open>The first device with a product code, and its \<open>Type\<close> element.\<close>

definition concrete :: "element \<Rightarrow> bool" where
  "concrete device = (case child ''Type'' device of
      None \<Rightarrow> False
    | Some t \<Rightarrow> (case attribute ''ProductCode'' t of None \<Rightarrow> False | Some c \<Rightarrow> c \<noteq> []))"

definition find_device :: "element \<Rightarrow> element res" where
  "find_device doc = (case filter concrete (descendants ''Device'' doc) of
      [] \<Rightarrow> Inl ValueError
    | d # _ \<Rightarrow> Inr d)"

definition int_attribute :: "string \<Rightarrow> element \<Rightarrow> int res" where
  "int_attribute k e = parse_int (case attribute k e of None \<Rightarrow> '''' | Some v \<Rightarrow> v)"

definition parse_cmmt_esi_catalog :: "string \<Rightarrow> element \<Rightarrow> CMMTEsiCatalog res" where
  "parse_cmmt_esi_catalog variant doc =
     ebind (find_device doc) (\<lambda>device.
     let type_el = child ''Type'' device; type_name = xml_text type_el in
     ebind (parse_data_types doc) (\<lambda>data_types.
     ebind (parse_objects device data_types) (\<lambda>(root_objects, objects).
     ebind (case type_el of None \<Rightarrow> Inl AttributeError | Some t \<Rightarrow> int_attribute ''ProductCode'' t) (\<lambda>product_code.
     ebind (case type_el of None \<Rightarrow> Inl AttributeError | Some t \<Rightarrow> int_attribute ''RevisionNo'' t) (\<lambda>revision.
     ebind (parse_pdos device ''RxPdo'') (\<lambda>rxpdos.
     ebind (parse_pdos device ''TxPdo'') (\<lambda>txpdos.
     Inr \<lparr>esi_variant = variant, esi_type_name = type_name,
          esi_display_name = or_else (english_name device) type_name,
          esi_product_code = product_code, esi_revision = revision, esi_root_objects = root_objects,
          esi_objects = objects, esi_rxpdos = rxpdos, esi_txpdos = txpdos\<rparr>)))))))"

section \<open>Folds that may raise\<close>

lemma efold_inv:
  assumes "efold f xs d = Inr d'" "P d" "\<And>x d d'. x \<in> set xs \<Longrightarrow> P d \<Longrightarrow> f x d = Inr d' \<Longrightarrow> P d'"
  shows "P d'"
  using assms
proof (induction xs arbitrary: d)
  case (Cons x xs)
  then obtain e where e: "f x d = Inr e" "efold f xs e = Inr d'" by (auto simp: ebind_Inr_iff)
  then have "P e" using Cons.prems by auto
  then show ?case using Cons.IH [OF e(2)] Cons.prems(3) by (meson list.set_intros(2))
qed simp

lemma emap_list_all2: "emap f xs = Inr ys \<Longrightarrow> list_all2 (\<lambda>x y. f x = Inr y) xs ys"
  by (induction xs arbitrary: ys) (auto simp: ebind_Inr_iff)

lemma map_of_put_all: "map_of (put_all kvs d) = map_of d ++ map_of (rev kvs)"
  unfolding put_all_def by (induction kvs arbitrary: d) (auto simp: update_conv' map_add_def split: option.splits)

lemma distinct_put_all: "distinct (map fst d) \<Longrightarrow> distinct (map fst (put_all kvs d))"
  unfolding put_all_def by (induction kvs arbitrary: d) (auto simp: distinct_update)

section \<open>The tables of objects\<close>

text \<open>
  The two tables agree: an object is filed under its index, every address belongs to an object, and
  the addresses of an object hold its entries, the last one where two sub-items share a subindex.
\<close>

definition tables_agree :: "root_objects \<Rightarrow> esi_objects \<Rightarrow> bool" where
  "tables_agree ro os \<longleftrightarrow>
     distinct (map fst ro) \<and> distinct (map fst os) \<and>
     (\<forall>i info. map_of ro i = Some info \<longrightarrow> 0 < i \<and> obj_index info = i \<and>
        (\<forall>k v. map_of (rev (flat_entries info)) k = Some v \<longrightarrow> map_of os k = Some v)) \<and>
     (\<forall>i s v. map_of os (i, s) = Some v \<longrightarrow> map_of ro i \<noteq> None \<and> obj_index v = i)"

lemma flat_entries_key: "map_of (rev (flat_entries info)) (i, s) = Some v \<Longrightarrow> i = obj_index info \<and> obj_index v = i"
  by (auto simp: flat_entries_def subitem_object_def dest!: map_of_SomeD split: if_splits)

lemma tables_agree_add:
  assumes t: "tables_agree ro os" and pos: "0 < obj_index info"
  shows "tables_agree (AList.update (obj_index info) info ro) (put_all (flat_entries info) os)"
proof -
  let ?ro = "AList.update (obj_index info) info ro" and ?os = "put_all (flat_entries info) os"
  have d: "distinct (map fst ?ro)" "distinct (map fst ?os)"
    using t by (simp_all add: tables_agree_def distinct_update distinct_put_all)
  have r: "map_of ?ro i = (if i = obj_index info then Some info else map_of ro i)" for i
    by (simp add: update_conv')
  have o: "map_of ?os k = (case map_of (rev (flat_entries info)) k of None \<Rightarrow> map_of os k | Some v \<Rightarrow> Some v)" for k
    by (simp add: map_of_put_all map_add_def)
  have other: "map_of (rev (flat_entries info)) (i, s) = None" if "i \<noteq> obj_index info" for i s
    using flat_entries_key [of info i s] that by (cases "map_of (rev (flat_entries info)) (i, s)") auto
  have "0 < i \<and> obj_index x = i \<and> (\<forall>k v. map_of (rev (flat_entries x)) k = Some v \<longrightarrow> map_of ?os k = Some v)"
    if "map_of ?ro i = Some x" for i x
  proof (cases "i = obj_index info")
    case True
    then have "x = info" using that by (simp add: r)
    then show ?thesis using True pos by (auto simp: o)
  next
    case False
    then have x: "map_of ro i = Some x" using that by (simp add: r)
    then have x': "0 < i" "obj_index x = i" using t by (auto simp: tables_agree_def)
    have "map_of ?os (j, s) = Some v" if v: "map_of (rev (flat_entries x)) (j, s) = Some v" for j s v
    proof -
      have "map_of os (j, s) = Some v" using t x v by (auto simp: tables_agree_def)
      moreover have "j \<noteq> obj_index info" using flat_entries_key [OF v] x' False by simp
      ultimately show ?thesis by (simp add: o other)
    qed
    then show ?thesis using x' by simp
  qed
  moreover have "map_of ?ro i \<noteq> None \<and> obj_index v = i" if "map_of ?os (i, s) = Some v" for i s v
  proof (cases "map_of (rev (flat_entries info)) (i, s)")
    case None
    then have "map_of os (i, s) = Some v" using that by (simp add: o)
    then show ?thesis using t by (auto simp: tables_agree_def r)
  next
    case (Some w)
    then show ?thesis using that flat_entries_key [OF Some] by (auto simp: o r)
  qed
  ultimately show ?thesis unfolding tables_agree_def using d by (intro conjI) blast+
qed

lemma add_object_cases:
  assumes "add_object data_types obj (ro, os) = Inr d'"
  shows "d' = (ro, os) \<or>
    (\<exists>info. 0 < obj_index info \<and> d' = (AList.update (obj_index info) info ro, put_all (flat_entries info) os))"
proof -
  obtain index where i: "int_at ''Index'' obj = Inr index" using assms by (cases "int_at ''Index'' obj") (simp_all add: add_object_def)
  show ?thesis
  proof (cases "index \<le> 0")
    case True
    then show ?thesis using assms i by (simp add: add_object_def)
  next
    case False
    then obtain info where "parse_object data_types index obj = Inr info"
      "d' = (AList.update index info ro, put_all (flat_entries info) os)"
      using assms i by (cases "parse_object data_types index obj") (simp_all add: add_object_def)
    moreover from this have "obj_index info = index" by (auto simp: parse_object_def Let_def ebind_Inr_iff)
    ultimately show ?thesis using False by force
  qed
qed

lemma parse_objects_agree:
  assumes "parse_objects device data_types = Inr (ro, os)"
  shows "tables_agree ro os"
proof -
  have "(\<lambda>(ro, os). tables_agree ro os) (ro, os)"
  proof (rule efold_inv [OF assms [unfolded parse_objects_def]])
    show "case ([], []) of (ro, os) \<Rightarrow> tables_agree ro os" by (simp add: tables_agree_def)
    fix obj d d'
    assume "case d of (ro, os) \<Rightarrow> tables_agree ro os" "add_object data_types obj d = Inr d'"
    then show "case d' of (ro, os) \<Rightarrow> tables_agree ro os"
      using add_object_cases [of data_types obj "fst d" "snd d" d'] tables_agree_add by (cases d) auto
  qed
  then show ?thesis by simp
qed

lemma parsed_tables:
  assumes "parse_cmmt_esi_catalog variant doc = Inr c"
  shows "\<exists>device data_types. parse_objects device data_types = Inr (esi_root_objects c, esi_objects c)"
  using assms unfolding parse_cmmt_esi_catalog_def Let_def
  by (auto simp: ebind_Inr_iff split: prod.splits) blast

text \<open>
  C38. The flat table of a parsed catalog agrees with its objects: addresses are unique, an index
  without an object is not found, and an object is found under each of its addresses, with the
  last sub-item where two share a subindex.
\<close>

theorem catalog_lookup:
  assumes "parse_cmmt_esi_catalog variant doc = Inr c"
  shows "distinct (map fst (esi_objects c)) \<and>
    (\<forall>index subindex. case map_of (esi_root_objects c) index of
        None \<Rightarrow> object_info c index subindex = Inl KeyError
      | Some info \<Rightarrow> 0 < index \<and> obj_index info = index \<and>
          (\<forall>v. map_of (rev (flat_entries info)) (index, subindex) = Some v \<longrightarrow> object_info c index subindex = Inr v))"
proof -
  have t: "tables_agree (esi_root_objects c) (esi_objects c)"
    using parsed_tables [OF assms] parse_objects_agree by blast
  have "object_info c index subindex = Inl KeyError" if "map_of (esi_root_objects c) index = None" for index subindex
  proof -
    have "map_of (esi_objects c) (index, subindex) = None"
      using t that unfolding tables_agree_def by (cases "map_of (esi_objects c) (index, subindex)") blast+
    then show ?thesis by (simp add: object_info_def get_key_def)
  qed
  moreover have "0 < index \<and> obj_index info = index \<and>
      (\<forall>v. map_of (rev (flat_entries info)) (index, subindex) = Some v \<longrightarrow> object_info c index subindex = Inr v)"
    if "map_of (esi_root_objects c) index = Some info" for index subindex info
    using t that by (simp add: tables_agree_def object_info_def get_key_def)
  ultimately show ?thesis using t by (auto simp: tables_agree_def split: option.splits)
qed

section \<open>Array types\<close>

text \<open>A row of the array table comes from a data type of the document.\<close>

definition declares_array :: "element \<Rightarrow> string \<Rightarrow> int \<Rightarrow> int \<Rightarrow> int \<Rightarrow> int \<Rightarrow> bool" where
  "declares_array data_type name lower_bound elements total_bits element_bits \<longleftrightarrow>
     (\<exists>array_info. child ''ArrayInfo'' data_type = Some array_info \<and> text_at ''Name'' data_type = name \<and>
       int_at ''LBound'' array_info = Inr lower_bound \<and> int_at ''Elements'' array_info = Inr elements \<and> 0 < elements \<and>
       int_at ''BitSize'' data_type = Inr total_bits \<and> element_bits = total_bits div elements)"

lemma add_array_type_cases:
  assumes "add_array_type data_type d = Inr d'"
  shows "d' = d \<or> (\<exists>name base lb n total. declares_array data_type name lb n total (total div n) \<and>
    d' = set_default name (base, lb, n, total div n) d)"
proof (cases "child ''ArrayInfo'' data_type")
  case None
  then show ?thesis using assms by (simp add: add_array_type_def)
next
  case (Some info)
  then obtain n where n: "int_at ''Elements'' info = Inr n"
    using assms by (cases "int_at ''Elements'' info") (simp_all add: add_array_type_def Let_def)
  show ?thesis
  proof (cases "text_at ''Name'' data_type = [] \<or> n \<le> 0")
    case True
    then show ?thesis using assms Some n by (simp add: add_array_type_def Let_def)
  next
    case False
    then obtain total lb where "int_at ''BitSize'' data_type = Inr total" "int_at ''LBound'' info = Inr lb"
      "d' = set_default (text_at ''Name'' data_type) (text_at ''BaseType'' data_type, lb, n, total div n) d"
      using assms Some n
      by (cases "int_at ''BitSize'' data_type"; cases "int_at ''LBound'' info") (simp_all add: add_array_type_def Let_def)
    then show ?thesis using False Some n unfolding declares_array_def by (intro disjI2 exI conjI) auto
  qed
qed

lemma array_declared:
  assumes "parse_array_data_types doc = Inr d" "map_of d name = Some (base, lb, n, bits)"
  shows "\<exists>dt \<in> set (descendants ''DataType'' doc). \<exists>total. declares_array dt name lb n total bits"
proof -
  have "\<forall>name base lb n bits. map_of d name = Some (base, lb, n, bits) \<longrightarrow>
    (\<exists>dt \<in> set (descendants ''DataType'' doc). \<exists>total. declares_array dt name lb n total bits)" (is "?P d")
  proof (rule efold_inv [where P = ?P, OF assms(1) [unfolded parse_array_data_types_def]])
    fix dt d d'
    assume dt: "dt \<in> set (descendants ''DataType'' doc)" and d: "?P d" and "add_array_type dt d = Inr d'"
    then show "?P d'"
      using add_array_type_cases [of dt d d'] dt
      by (fastforce simp: set_default_def map_add_def declares_array_def split: if_splits option.splits)
  qed simp
  then show ?thesis using assms(2) by blast
qed

lemma array_item_fits:
  fixes total n :: int
  assumes "0 < n" "0 \<le> total" "k < nat n"
  shows "int k * (total div n) + total div n \<le> total"
proof -
  have "int k + 1 \<le> n" using assms by linarith
  then have "(int k + 1) * (total div n) \<le> n * (total div n)"
    using assms by (intro mult_right_mono) (auto simp: pos_imp_zdiv_nonneg_iff)
  also have "\<dots> \<le> total" using assms by (simp add: minus_mod_eq_mult_div [symmetric])
  finally show ?thesis by (simp add: algebra_simps)
qed

theorem array_items_tile:
  assumes "parse_array_data_types doc = Inr ats" "map_of ats (text_at ''Type'' subitem) = Some (base, lb, n, bits)"
    and "parse_subitem ats subitem = Inr items"
  shows "\<exists>total off. (\<exists>dt \<in> set (descendants ''DataType'' doc). declares_array dt (text_at ''Type'' subitem) lb n total bits) \<and>
    int_at ''BitOffs'' subitem = Inr off \<and> int (length items) = n \<and>
    (\<forall>k < length items. sub_subindex (items ! k) = lb + int k \<and> sub_data_type (items ! k) = base \<and>
       sub_bit_size (items ! k) = bits \<and> sub_bit_offset (items ! k) = off + int k * bits \<and>
       (0 \<le> total \<longrightarrow> sub_bit_offset (items ! k) + bits \<le> off + total))"
proof -
  obtain dt total where dt: "dt \<in> set (descendants ''DataType'' doc)" "declares_array dt (text_at ''Type'' subitem) lb n total bits"
    using array_declared [OF assms(1,2)] by blast
  obtain off where off: "int_at ''BitOffs'' subitem = Inr off"
    using assms(2,3) by (cases "int_at ''BitOffs'' subitem") (simp_all add: parse_subitem_def Let_def)
  have items: "items = array_subitems (or_else (english_display_name subitem) (text_at ''Name'' subitem)) off
      (access_text subitem) (base, lb, n, bits)"
    using assms(2,3) off by (simp add: parse_subitem_def Let_def)
  have n: "0 < n" "bits = total div n" using dt(2) by (auto simp: declares_array_def)
  then have l: "int (length items) = n" by (simp add: items array_subitems_def)
  have "sub_subindex (items ! k) = lb + int k \<and> sub_data_type (items ! k) = base \<and> sub_bit_size (items ! k) = bits \<and>
      sub_bit_offset (items ! k) = off + int k * bits" if "k < length items" for k
    using that by (simp add: items array_subitems_def array_subitem_def Let_def)
  moreover have "off + int k * bits + bits \<le> off + total" if "k < length items" "0 \<le> total" for k
    using array_item_fits [of n total k] n l that by simp
  ultimately show ?thesis using dt off l by (metis (no_types, lifting))
qed

section \<open>Process data of the catalog\<close>

text \<open>
  A process data entry of the catalog and the dictionary entry it maps: the object under its address
  with the same bit length, or padding.
\<close>

definition maps_to :: "objects \<Rightarrow> CMMTEsiPdoEntryInfo \<Rightarrow> ObjectDictionaryEntry \<Rightarrow> bool" where
  "maps_to objs e d \<longleftrightarrow>
     (if pde_index e = 0 then 0 < pde_bit_length e \<and> pde_bit_length e < 0x100 \<and> d = padding_object (pde_bit_length e)
      else mappable objs d \<and> ode_index d = pde_index e \<and> ode_subindex d = pde_subindex e \<and>
        bit_length d = Inr (pde_bit_length e))"

lemma esi_mapping_entry_eq:
  assumes "maps_to objs e d" "pde_index e \<noteq> 0"
  shows "mapping_entry d = Inr (esi_mapping_entry e)"
  using assms by (auto simp: maps_to_def mappable_def mapping_entry_def esi_mapping_entry_def and_255 and_65535)

theorem esi_mapping_decodes:
  assumes "list_all2 (maps_to objs) (pdo_entries p) ds"
  shows "pdo_objects_from_mapping_entries objs (mapping_entries p) = Inr ds"
  using assms unfolding mapping_entries_def
proof (induction "pdo_entries p" ds arbitrary: p rule: list_all2_induct)
  case (Cons e es d ds)
  let ?rest = "map esi_mapping_entry es"
  have IH: "pdo_objects_from_mapping_entries objs ?rest = Inr ds"
    using Cons.hyps(3) [of "p\<lparr>pdo_entries := es\<rparr>"] by simp
  show ?case
  proof (cases "pde_index e = 0")
    case True
    then have b: "0 < pde_bit_length e" "pde_bit_length e < 256" "d = padding_object (pde_bit_length e)"
      using Cons.hyps(1) by (auto simp: maps_to_def)
    then have "esi_mapping_entry e = pde_bit_length e" "drop_bit 8 (pde_bit_length e) = 0"
      using True by (simp_all add: esi_mapping_entry_def and_255 drop_bit_eq_div)
    then show ?thesis using b IH Cons.hyps(4) [symmetric] by (simp add: and_255)
  next
    case False
    then obtain w where "mapping_entry d = Inr w"
      "pdo_objects_from_mapping_entries objs (w # ?rest) =
         ebind (pdo_objects_from_mapping_entries objs ?rest) (\<lambda>es. Inr (d # es))"
      using mapping_entry_decodes [of objs d ?rest] Cons.hyps(1) by (auto simp: maps_to_def)
    then show ?thesis using esi_mapping_entry_eq [OF Cons.hyps(1) False] IH Cons.hyps(4) [symmetric] by simp
  qed
qed simp

end
