(* ===== verification/Environment.thy ===== *)
theory Environment
  imports Catalog
begin

text \<open>
  Environment files (configuration.py, \<open>read_env\<close>; scripts/docker/prepare-env.py): literal assignments
  with quotes, comments and continuation lines. The tokenizer is that of the standard library
  (\<open>shlex.split\<close> with comments, POSIX rules). Text is ASCII; reading and writing the file is left out.
\<close>

section \<open>Lines\<close>

text \<open>\<open>text.splitlines()\<close>: the line boundaries of Python; a carriage return and a line feed are one boundary.\<close>

definition is_break :: "char \<Rightarrow> bool" where
  "is_break c \<longleftrightarrow> (let n = of_char c :: nat in (10 \<le> n \<and> n \<le> 13) \<or> (28 \<le> n \<and> n \<le> 30))"

definition skip_break :: "string \<Rightarrow> string" where
  "skip_break s = (case s of
      [] \<Rightarrow> []
    | c # cs \<Rightarrow> if of_char c = (13 :: nat) \<and> cs \<noteq> [] \<and> of_char (hd cs) = (10 :: nat) then tl cs else cs)"

function splitlines :: "string \<Rightarrow> string list" where
  "splitlines s = (if s = [] then []
     else takeWhile (\<lambda>c. \<not> is_break c) s # splitlines (skip_break (dropWhile (\<lambda>c. \<not> is_break c) s)))"
  by pat_completeness auto

lemma length_skip_break: "length (skip_break s) \<le> length s - 1"
  by (cases s) (auto simp: skip_break_def)

lemma skip_break_less: "s \<noteq> [] \<Longrightarrow> length (skip_break (dropWhile P s)) < length s"
  using length_skip_break [of "dropWhile P s"] length_dropWhile_le [of P s] by (cases s) auto

termination splitlines
  by (relation "measure length") (auto simp: skip_break_less)

declare splitlines.simps [simp del]

definition rstrip :: "string \<Rightarrow> string" where
  "rstrip s = rev (dropWhile is_space (rev s))"

definition lstrip :: "string \<Rightarrow> string" where
  "lstrip = dropWhile is_space"

definition backslash :: char where
  "backslash = char_of (92 :: nat)"

section \<open>Tokens\<close>

text \<open>
  The states of the tokenizer: between tokens, inside a word, inside quotes, and behind a backslash,
  with the state to go back to.
\<close>

datatype lex_state = Blank | Word | Quoted char | Escaped "char option"

definition lex_space :: "char \<Rightarrow> bool" where
  "lex_space c \<longleftrightarrow> (of_char c :: nat) \<in> {32, 9, 13, 10}"

definition is_quote :: "char \<Rightarrow> bool" where
  "is_quote c \<longleftrightarrow> (of_char c :: nat) \<in> {39, 34}"

definition double_quote :: char where
  "double_quote = char_of (34 :: nat)"

definition comment_char :: "char \<Rightarrow> bool" where
  "comment_char c \<longleftrightarrow> c = CHR ''#''"

definition skip_line :: "string \<Rightarrow> string" where
  "skip_line s = drop 1 (dropWhile (\<lambda>c. of_char c \<noteq> (10 :: nat)) s)"

definition emit :: "bool \<Rightarrow> string \<Rightarrow> string list" where
  "emit quoted token = (if token \<noteq> [] \<or> quoted then [token] else [])"

definition unescape :: "char option \<Rightarrow> char \<Rightarrow> string" where
  "unescape e c = (case e of
      None \<Rightarrow> [c]
    | Some k \<Rightarrow> if c \<noteq> backslash \<and> c \<noteq> k then [backslash, c] else [c])"

lemma length_skip_line: "length (skip_line s) \<le> length s"
  unfolding skip_line_def using length_dropWhile_le [of "\<lambda>c. of_char c \<noteq> (10 :: nat)" s] by simp

function read_tokens :: "lex_state \<Rightarrow> bool \<Rightarrow> string \<Rightarrow> string \<Rightarrow> string list res" where
  "read_tokens Blank q t [] = Inr []"
| "read_tokens Blank q t (c # cs) =
     (if lex_space c then read_tokens Blank q t cs
      else if comment_char c then read_tokens Blank q t (skip_line cs)
      else if c = backslash then read_tokens (Escaped None) q t cs
      else if is_quote c then read_tokens (Quoted c) q t cs
      else read_tokens Word q [c] cs)"
| "read_tokens Word q t [] = Inr (emit q t)"
| "read_tokens Word q t (c # cs) =
     (if lex_space c then ebind (read_tokens Blank False [] cs) (\<lambda>ts. Inr (emit q t @ ts))
      else if comment_char c then ebind (read_tokens Blank False [] (skip_line cs)) (\<lambda>ts. Inr (emit q t @ ts))
      else if is_quote c then read_tokens (Quoted c) q t cs
      else if c = backslash then read_tokens (Escaped None) q t cs
      else read_tokens Word q (t @ [c]) cs)"
| "read_tokens (Quoted k) q t [] = Inl ValueError"
| "read_tokens (Quoted k) q t (c # cs) =
     (if c = k then read_tokens Word True t cs
      else if c = backslash \<and> k = double_quote then read_tokens (Escaped (Some k)) True t cs
      else read_tokens (Quoted k) True (t @ [c]) cs)"
| "read_tokens (Escaped e) q t [] = Inl ValueError"
| "read_tokens (Escaped e) q t (c # cs) =
     read_tokens (case e of None \<Rightarrow> Word | Some k \<Rightarrow> Quoted k) q (t @ unescape e c) cs"
  by pat_completeness auto

termination read_tokens
  by (relation "measure (\<lambda>(st, q, t, s). length s)") (auto simp: less_Suc_eq_le length_skip_line)

definition shlex_split :: "string \<Rightarrow> string list res" where
  "shlex_split s = read_tokens Blank False [] s"

section \<open>Assignments\<close>

definition is_letter :: "char \<Rightarrow> bool" where
  "is_letter c \<longleftrightarrow> (let n = of_char c :: nat in (65 \<le> n \<and> n \<le> 90) \<or> (97 \<le> n \<and> n \<le> 122))"

definition is_digit :: "char \<Rightarrow> bool" where
  "is_digit c \<longleftrightarrow> (let n = of_char c :: nat in 48 \<le> n \<and> n \<le> 57)"

definition key_char :: "char \<Rightarrow> bool" where
  "key_char c \<longleftrightarrow> is_letter c \<or> is_digit c \<or> c = CHR ''_''"

text \<open>\<open>re.fullmatch(r'([A-Za-z_][A-Za-z0-9_]*)\s*=\s*(.*)', line)\<close> on a line without line feeds.\<close>

definition match_assignment :: "string \<Rightarrow> (string \<times> string) option" where
  "match_assignment line =
     (let key = takeWhile key_char line; rest = lstrip (dropWhile key_char line) in
      if key \<noteq> [] \<and> \<not> is_digit (hd key) \<and> rest \<noteq> [] \<and> hd rest = CHR ''=''
      then Some (key, lstrip (tl rest)) else None)"

type_synonym env = "(string \<times> string) list"

fun read_lines :: "string list \<Rightarrow> string \<Rightarrow> env \<Rightarrow> env res" where
  "read_lines [] pending result = (if pending \<noteq> [] then Inl ValueError else Inr result)"
| "read_lines (l # ls) pending result =
     (if rstrip l \<noteq> [] \<and> last (rstrip l) = backslash then read_lines ls (pending @ butlast (rstrip l)) result
      else
        let line = strip (pending @ l) in
        if line = [] \<or> startswith line ''#'' then read_lines ls [] result
        else case match_assignment line of
            None \<Rightarrow> Inl ValueError
          | Some (key, raw) \<Rightarrow>
              if map_of result key \<noteq> None then Inl ValueError
              else
                ebind (shlex_split raw) (\<lambda>parts.
                let v = join '' '' parts in
                if CHR ''$'' \<in> set v \<or> CHR 0x60 \<in> set v then Inl ValueError
                else read_lines ls [] (result @ [(key, v)])))"

definition read_env :: "string \<Rightarrow> env res" where
  "read_env text = read_lines (splitlines text) [] []"

section \<open>Writing the environment for Compose\<close>

text \<open>\<open>json.dumps\<close> of a string, without ASCII escapes.\<close>

definition json_escape :: "char \<Rightarrow> string" where
  "json_escape c = (let n = of_char c :: nat in
     if n = 34 then [backslash, c]
     else if n = 92 then [backslash, c]
     else if n = 10 then [backslash, CHR ''n'']
     else if n = 13 then [backslash, CHR ''r'']
     else if n = 9 then [backslash, CHR ''t'']
     else if n = 8 then [backslash, CHR ''b'']
     else if n = 12 then [backslash, CHR ''f'']
     else if n < 32 then [backslash, CHR ''u'', CHR ''0'', CHR ''0'', hex_digit (n div 16), hex_digit (n mod 16)]
     else [c])"

definition json_string :: "string \<Rightarrow> string" where
  "json_string s = [double_quote] @ concat (map json_escape s) @ [double_quote]"

definition compose_env :: "env \<Rightarrow> string" where
  "compose_env values = concat (map (\<lambda>(k, v). k @ ''='' @ json_string v @ [char_of (10 :: nat)]) values)"

section \<open>Reading back what was written\<close>

definition key_ok :: "string \<Rightarrow> bool" where
  "key_ok k \<longleftrightarrow> k \<noteq> [] \<and> list_all key_char k \<and> \<not> is_digit (hd k)"

definition literal :: "string \<Rightarrow> bool" where
  "literal v \<longleftrightarrow> CHR ''$'' \<notin> set v \<and> CHR 0x60 \<notin> set v"

definition printable :: "string \<Rightarrow> bool" where
  "printable v \<longleftrightarrow> list_all (\<lambda>c. 32 \<le> (of_char c :: nat)) v"

lemma of_char_eq: "(of_char c :: nat) = of_char d \<longleftrightarrow> c = d"
  by simp

lemma special_chars:
  "of_char backslash = (92 :: nat)" "of_char double_quote = (34 :: nat)" "backslash \<noteq> double_quote"
  "\<not> is_space double_quote" "\<not> is_break double_quote" "is_quote double_quote" "\<not> lex_space double_quote" "\<not> comment_char double_quote"
  by code_simp+

lemma json_escape_printable:
  assumes "32 \<le> (of_char c :: nat)"
  shows "json_escape c = (if c = double_quote \<or> c = backslash then [backslash, c] else [c])"
proof -
  have "c = double_quote \<longleftrightarrow> of_char c = (34 :: nat)" "c = backslash \<longleftrightarrow> of_char c = (92 :: nat)"
    using special_chars(1,2) by (metis of_char_eq)+
  then show ?thesis using assms by (auto simp: json_escape_def Let_def)
qed

lemma quoted_tokens:
  assumes "printable v"
  shows "read_tokens (Quoted double_quote) q t (concat (map json_escape v) @ [double_quote]) = Inr [t @ v]"
  using assms
proof (induction v arbitrary: q t)
  case Nil
  then show ?case by (simp add: emit_def)
next
  case (Cons c v)
  then have c: "32 \<le> (of_char c :: nat)" and v: "printable v" by (simp_all add: printable_def)
  show ?case
    using Cons.IH [OF v] special_chars(3) by (simp add: json_escape_printable [OF c] unescape_def)
qed

lemma json_string_token: "printable v \<Longrightarrow> shlex_split (json_string v) = Inr [v]"
  using special_chars quoted_tokens [of v False "[]"] by (simp add: shlex_split_def json_string_def)

lemma key_char_plain:
  assumes "key_char c"
  shows "\<not> is_space c" "\<not> is_break c" "c \<noteq> CHR ''#''" "c \<noteq> CHR ''=''"
proof -
  have "(of_char c :: nat) \<in> {48..57} \<union> {65..90} \<union> {97..122} \<union> {95}"
    using assms by (auto simp: key_char_def is_letter_def is_digit_def Let_def)
  then show "\<not> is_space c" "\<not> is_break c" "c \<noteq> CHR ''#''" "c \<noteq> CHR ''=''"
    by (auto simp: is_space_def is_break_def Let_def)
qed

lemma equals_char: "\<not> key_char CHR ''=''" "\<not> is_space CHR ''=''" "\<not> is_break CHR ''=''" "\<not> is_space backslash" "\<not> is_break backslash"
  by code_simp+

lemma match_written:
  assumes "key_ok k"
  shows "match_assignment (k @ ''='' @ json_string v) = Some (k, json_string v)"
proof -
  have t: "takeWhile key_char (k @ CHR ''='' # s) = k" "dropWhile key_char (k @ CHR ''='' # s) = CHR ''='' # s" for s
    using assms equals_char(1) by (simp_all add: key_ok_def list_all_iff takeWhile_append2 dropWhile_append2)
  have "lstrip (CHR ''='' # s) = CHR ''='' # s" "lstrip (json_string v) = json_string v" for s
    using equals_char special_chars by (simp_all add: lstrip_def json_string_def)
  then show ?thesis using assms t by (simp add: match_assignment_def Let_def key_ok_def)
qed

definition env_line :: "string \<times> string \<Rightarrow> string" where
  "env_line = (\<lambda>(k, v). k @ ''='' @ json_string v)"

lemma env_line_ends: "rstrip (env_line (k, v)) = env_line (k, v)" "last (env_line (k, v)) = double_quote" "env_line (k, v) \<noteq> []"
  using special_chars by (simp_all add: env_line_def json_string_def rstrip_def)

lemma env_line_strip: "key_ok k \<Longrightarrow> strip (env_line (k, v)) = env_line (k, v)"
proof -
  assume k: "key_ok k"
  then obtain c cs where c: "k = c # cs" "key_char c" by (cases k) (auto simp: key_ok_def)
  have "dropWhile is_space (env_line (k, v)) = env_line (k, v)" using key_char_plain [OF c(2)] c by (simp add: env_line_def)
  then show ?thesis using env_line_ends(1) [of k v] by (simp add: strip_def rstrip_def)
qed

lemma read_written:
  assumes "list_all (\<lambda>(k, v). key_ok k \<and> literal v \<and> printable v) kvs" "distinct (map fst (result @ kvs))"
  shows "read_lines (map env_line kvs) [] result = Inr (result @ kvs)"
  using assms
proof (induction kvs arbitrary: result)
  case (Cons kv kvs)
  obtain k v where kv: "kv = (k, v)" by (cases kv)
  then have k: "key_ok k" "literal v" "printable v" using Cons.prems by auto
  then have "\<not> startswith (env_line (k, v)) ''#''"
    using key_char_plain(3) by (cases k) (auto simp: key_ok_def env_line_def startswith_def)
  moreover have "match_assignment (env_line (k, v)) = Some (k, json_string v)"
    using match_written [OF k(1)] by (simp add: env_line_def)
  moreover have "map_of result k = None" using Cons.prems(2) kv by (simp add: map_of_eq_None_iff)
  ultimately have "read_lines (map env_line (kv # kvs)) [] result = read_lines (map env_line kvs) [] (result @ [(k, v)])"
    using k env_line_ends [of k v] env_line_strip [OF k(1), of v] json_string_token [OF k(3)] special_chars(3)
    by (simp add: kv Let_def literal_def)
  also have "\<dots> = Inr (result @ kv # kvs)" using Cons by (simp add: kv)
  finally show ?case .
qed simp

lemma splitlines_line:
  assumes "list_all (\<lambda>c. \<not> is_break c) l"
  shows "splitlines (l @ char_of (10 :: nat) # r) = l # splitlines r"
proof -
  have b: "is_break (char_of (10 :: nat))" "of_char (char_of (10 :: nat) :: char) = (10 :: nat)" by code_simp+
  have "takeWhile (\<lambda>c. \<not> is_break c) (l @ char_of (10 :: nat) # r) = l"
    "dropWhile (\<lambda>c. \<not> is_break c) (l @ char_of (10 :: nat) # r) = char_of (10 :: nat) # r"
    using assms b(1) by (induction l) auto
  then show ?thesis using b(2) by (simp add: splitlines.simps [of "l @ _"] skip_break_def)
qed

lemma env_line_unbroken:
  assumes "key_ok k" "printable v"
  shows "list_all (\<lambda>c. \<not> is_break c) (env_line (k, v))"
proof -
  have "\<not> is_break c" if "32 \<le> (of_char c :: nat)" for c using that by (auto simp: is_break_def Let_def)
  then have "list_all (\<lambda>c. \<not> is_break c) (json_escape c)" if "32 \<le> (of_char c :: nat)" for c
    using that equals_char(5) by (simp add: json_escape_printable)
  then have "list_all (\<lambda>c. \<not> is_break c) (concat (map json_escape v))" using assms(2)
    by (auto simp: printable_def list_all_iff)
  then show ?thesis using assms(1) key_char_plain(2) equals_char special_chars(5)
    by (auto simp: env_line_def json_string_def key_ok_def list_all_iff)
qed

lemma splitlines_written:
  "list_all (\<lambda>(k, v). key_ok k \<and> literal v \<and> printable v) kvs \<Longrightarrow> splitlines (compose_env kvs) = map env_line kvs"
proof (induction kvs)
  case Nil
  then show ?case by (simp add: compose_env_def splitlines.simps)
next
  case (Cons kv kvs)
  obtain k v where kv: "kv = (k, v)" by (cases kv)
  have "compose_env (kv # kvs) = env_line (k, v) @ char_of (10 :: nat) # compose_env kvs"
    by (simp add: compose_env_def env_line_def kv)
  then show ?case using Cons splitlines_line [OF env_line_unbroken [of k v]] by (simp add: kv)
qed

text \<open>What reading guarantees.\<close>

lemma match_key_ok: "match_assignment line = Some (k, raw) \<Longrightarrow> key_ok k"
  by (auto simp: match_assignment_def key_ok_def Let_def list_all_iff split: if_splits dest: set_takeWhileD)

definition env_ok :: "env \<Rightarrow> bool" where
  "env_ok e \<longleftrightarrow> distinct (map fst e) \<and> list_all (\<lambda>(k, v). key_ok k \<and> literal v) e"

lemma read_lines_ok: "read_lines ls p result = Inr e \<Longrightarrow> env_ok result \<Longrightarrow> env_ok e"
proof (induction ls p result rule: read_lines.induct)
  case (2 l ls pending result)
  let ?line = "strip (pending @ l)"
  show ?case
  proof (cases "rstrip l \<noteq> [] \<and> last (rstrip l) = backslash")
    case True
    then show ?thesis using 2 by simp
  next
    case c: False
    show ?thesis
    proof (cases "?line = [] \<or> startswith ?line ''#''")
      case True
      then show ?thesis using 2(2) [OF c refl True] 2(4,5) c by (simp add: Let_def)
    next
      case False
      then obtain key raw parts where m: "match_assignment ?line = Some (key, raw)" "map_of result key = None"
        "shlex_split raw = Inr parts" "literal (join '' '' parts)" "read_lines ls [] (result @ [(key, join '' '' parts)]) = Inr e"
        using 2(4) unfolding read_lines.simps if_not_P [OF c] Let_def if_not_P [OF False]
        by (auto simp: ebind_Inr_iff literal_def split: option.splits if_splits)
      then have "env_ok (result @ [(key, join '' '' parts)])"
        using 2(5) match_key_ok by (auto simp: env_ok_def map_of_eq_None_iff)
      then show ?thesis using 2(3) [OF c refl False m(1) refl _ refl _ m(5)] m by (auto simp: literal_def)
    qed
  qed
qed (simp split: if_splits)

text \<open>
  C36. The normalised environment file that is written for the container reads back as the
  settings it was made from, when the values hold no control characters.
\<close>

theorem compose_env_reads_back:
  assumes "read_env text = Inr e" "list_all (\<lambda>(k, v). printable v) e"
  shows "read_env (compose_env e) = Inr e"
proof -
  have "env_ok e" using read_lines_ok [of _ _ "[]" e] assms(1) by (simp add: read_env_def env_ok_def)
  then have "list_all (\<lambda>(k, v). key_ok k \<and> literal v \<and> printable v) e" "distinct (map fst e)"
    using assms(2) by (auto simp: env_ok_def list_all_iff)
  then show ?thesis using read_written [of e "[]"] by (simp add: read_env_def splitlines_written)
qed

end
