(* ===== verification/Configuration.thy ===== *)
theory Configuration
  imports Environment Axis
begin

text \<open>
  The configuration of a simulator (configuration.py): the checks of a configuration object, and its
  construction from environment variables. Resolving a path against the file system is a parameter
  (\<open>resolve base path\<close>).
\<close>

section \<open>JSON values\<close>

datatype json = JNull | JBool bool | JInt int | JFloat pyfloat | JStr string | JList "json list" | JObj "(string \<times> json) list"

text \<open>The hook for the pairs of an object: a repeated key is refused.\<close>

fun unique_object :: "(string \<times> 'a) list \<Rightarrow> (string \<times> 'a) list \<Rightarrow> (string \<times> 'a) list res" where
  "unique_object result [] = Inr result"
| "unique_object result ((k, v) # kvs) =
     (if map_of result k \<noteq> None then Inl ValueError else unique_object (result @ [(k, v)]) kvs)"

definition item :: "json \<Rightarrow> string \<Rightarrow> json res" where
  "item v k = (case v of
      JObj kvs \<Rightarrow> (case map_of kvs k of None \<Rightarrow> Inl KeyError | Some x \<Rightarrow> Inr x)
    | _ \<Rightarrow> Inl TypeError)"

fun put_item :: "string \<Rightarrow> json \<Rightarrow> json \<Rightarrow> json" where
  "put_item k x (JObj kvs) = JObj (AList.update k x kvs)"
| "put_item k x v = v"

definition has_fields :: "json \<Rightarrow> string list \<Rightarrow> bool" where
  "has_fields v ks = (case v of JObj kvs \<Rightarrow> set (map fst kvs) = set ks | _ \<Rightarrow> False)"

definition require_fields :: "json \<Rightarrow> string list \<Rightarrow> unit res" where
  "require_fields v ks = (if has_fields v ks then Inr () else Inl ValueError)"

section \<open>Names\<close>

definition name_char :: "char \<Rightarrow> bool" where
  "name_char c \<longleftrightarrow> is_letter c \<or> is_digit c \<or> c = CHR ''_'' \<or> c = CHR ''-''"

definition valid_name :: "string \<Rightarrow> bool" where
  "valid_name s \<longleftrightarrow> s \<noteq> [] \<and> length s \<le> 64 \<and> (is_letter (hd s) \<or> is_digit (hd s)) \<and> list_all name_char s"

definition check_name :: "json \<Rightarrow> string res" where
  "check_name v = (case v of JStr s \<Rightarrow> if valid_name s then Inr s else Inl ValueError | _ \<Rightarrow> Inl ValueError)"

definition valid_interface :: "string \<Rightarrow> bool" where
  "valid_interface s \<longleftrightarrow> s \<noteq> [] \<and> length s \<le> 15 \<and>
     list_all (\<lambda>c. is_letter c \<or> is_digit c \<or> c \<in> {CHR ''_'', CHR ''.'', CHR '':'', CHR ''-''}) s"

section \<open>Validation\<close>

text \<open>The names and indices already used.\<close>

record used =
  used_ids :: "string list"
  used_sets :: "string list"
  used_indices :: "int list"

type_synonym resolver = "string \<Rightarrow> string \<Rightarrow> string res"

definition check_index :: "json \<Rightarrow> used \<Rightarrow> used res" where
  "check_index v u = (case v of
      JInt i \<Rightarrow> if i < 0 \<or> i \<in> set (used_indices u) then Inl ValueError else Inr (u\<lparr>used_indices := i # used_indices u\<rparr>)
    | _ \<Rightarrow> Inl ValueError)"

definition check_unique :: "json \<Rightarrow> string list \<Rightarrow> string list res" where
  "check_unique v seen = ebind (check_name v) (\<lambda>s. if s \<in> set seen then Inl ValueError else Inr (s # seen))"

text \<open>A nonempty path, resolved against the base directory.\<close>

definition check_path :: "resolver \<Rightarrow> string \<Rightarrow> json \<Rightarrow> string res" where
  "check_path rsv base a = (case a of
      JStr path \<Rightarrow> if strip path = [] then Inl ValueError else rsv base path
    | _ \<Rightarrow> Inl ValueError)"

definition check_model :: "resolver \<Rightarrow> string \<Rightarrow> json \<Rightarrow> json res" where
  "check_model rsv base model = (case model of
      JObj kvs \<Rightarrow>
        let kind = map_of kvs ''type'' in
        ebind (require_fields model (if kind = Some (JStr ''copley_drive_sim'') then [''type'', ''mode'', ''artifact''] else [''type'', ''mode''])) (\<lambda>_.
        ebind (item model ''mode'') (\<lambda>mode.
        if kind \<notin> {Some (JStr ''f_kr_cmmt''), Some (JStr ''copley_drive_sim'')} \<or> mode \<notin> {JStr ''linear'', JStr ''rotary''}
        then Inl ValueError
        else if kind = Some (JStr ''copley_drive_sim'') then
          ebind (item model ''artifact'') (\<lambda>a.
          ebind (check_path rsv base a) (\<lambda>r. Inr (put_item ''artifact'' (JStr r) model)))
        else Inr model))
    | _ \<Rightarrow> Inl ValueError)"

definition check_device :: "resolver \<Rightarrow> string \<Rightarrow> json \<Rightarrow> used \<Rightarrow> (json \<times> used) res" where
  "check_device rsv base device u =
     ebind (require_fields device [''slave_index'', ''id'', ''type'', ''model'', ''parameter_set'']) (\<lambda>_.
     ebind (item device ''slave_index'') (\<lambda>index.
     ebind (check_index index u) (\<lambda>u.
     ebind (item device ''id'') (\<lambda>i. ebind (check_unique i (used_ids u)) (\<lambda>ids.
     ebind (item device ''parameter_set'') (\<lambda>p. ebind (check_unique p (used_sets u)) (\<lambda>sets.
     ebind (item device ''type'') (\<lambda>t.
     if t \<noteq> JStr ''cia402-drive'' then Inl ValueError
     else
       ebind (item device ''model'') (\<lambda>model.
       ebind (check_model rsv base model) (\<lambda>model'.
       Inr (put_item ''model'' model' device, u\<lparr>used_ids := ids, used_sets := sets\<rparr>)))))))))))"

fun check_devices :: "resolver \<Rightarrow> string \<Rightarrow> json list \<Rightarrow> used \<Rightarrow> (json list \<times> used) res" where
  "check_devices rsv base [] u = Inr ([], u)"
| "check_devices rsv base (d # ds) u =
     ebind (check_device rsv base d u) (\<lambda>(d', u).
     ebind (check_devices rsv base ds u) (\<lambda>(ds', u). Inr (d' # ds', u)))"

definition index_of :: "json \<Rightarrow> int" where
  "index_of device = (case item device ''slave_index'' of Inr (JInt i) \<Rightarrow> i | _ \<Rightarrow> 0)"

definition device_list :: "json \<Rightarrow> json list res" where
  "device_list v = (case v of JList ds \<Rightarrow> if ds = [] then Inl ValueError else Inr ds | _ \<Rightarrow> Inl ValueError)"

definition unused :: used where
  "unused = \<lparr>used_ids = [], used_sets = [], used_indices = []\<rparr>"

definition validate_config :: "resolver \<Rightarrow> json \<Rightarrow> string \<Rightarrow> json res" where
  "validate_config rsv data base =
     ebind (require_fields data [''schema_version'', ''ethercat'', ''storage'', ''devices'']) (\<lambda>_.
     ebind (item data ''schema_version'') (\<lambda>version.
     if version \<noteq> JInt 1 then Inl ValueError
     else
     ebind (item data ''ethercat'') (\<lambda>ethercat.
     ebind (require_fields ethercat [''interface'']) (\<lambda>_.
     ebind (item ethercat ''interface'') (\<lambda>nic.
     if \<not> (case nic of JStr s \<Rightarrow> valid_interface s | _ \<Rightarrow> False) then Inl ValueError
     else
     ebind (item data ''storage'') (\<lambda>storage.
     ebind (require_fields storage [''directory'']) (\<lambda>_.
     ebind (item storage ''directory'') (\<lambda>directory.
     ebind (check_path rsv base directory) (\<lambda>root_path.
     ebind (item data ''devices'') (\<lambda>devices.
     ebind (device_list devices) (\<lambda>ds.
     ebind (check_devices rsv base ds unused) (\<lambda>(ds', u).
     if set (used_indices u) \<noteq> set (map int [0..<length ds]) then Inl ValueError
     else Inr (put_item ''devices'' (JList (sort_key index_of ds'))
       (put_item ''storage'' (put_item ''directory'' (JStr root_path) storage) data))))))))))))))"

section \<open>Paths\<close>

text \<open>\<open>text.split(c)\<close>, and the text of a POSIX path: root and parts, without empty and \<open>.\<close> parts.\<close>

fun split_on :: "char \<Rightarrow> string \<Rightarrow> string list" where
  "split_on c [] = [[]]"
| "split_on c (x # xs) = (if x = c then [] # split_on c xs else (case split_on c xs of
      [] \<Rightarrow> [[x]]
    | w # ws \<Rightarrow> (x # w) # ws))"

definition path_root :: "string \<Rightarrow> string" where
  "path_root p = (let n = length (takeWhile (\<lambda>c. c = CHR ''/'') p) in if n = 0 then '''' else if n = 2 then ''//'' else ''/'')"

definition path_parts :: "string \<Rightarrow> string list" where
  "path_parts p = filter (\<lambda>x. x \<noteq> [] \<and> x \<noteq> ''.'') (split_on CHR ''/'' p)"

definition path_text :: "string \<Rightarrow> string list \<Rightarrow> string" where
  "path_text r parts = (if r @ join ''/'' parts = [] then ''.'' else r @ join ''/'' parts)"

definition path_str :: "string \<Rightarrow> string" where
  "path_str p = path_text (path_root p) (path_parts p)"

text \<open>\<open>str(Path(folder) / name)\<close> of a plain file name.\<close>

definition path_join :: "string \<Rightarrow> string \<Rightarrow> string" where
  "path_join folder file_name = path_text (path_root folder) (path_parts folder @ [file_name])"

section \<open>The environment\<close>

definition env_get :: "env \<Rightarrow> string \<Rightarrow> string \<Rightarrow> string" where
  "env_get e k d = (case map_of e k of None \<Rightarrow> d | Some v \<Rightarrow> v)"

definition required :: "env \<Rightarrow> string \<Rightarrow> string res" where
  "required e k = (let v = strip (env_get e k '''') in if v = [] then Inl ValueError else Inr v)"

text \<open>\<open>\s*(0|[1-9][0-9]*)\s*:\<close> at the front of an entry: the index and the text behind the colon.\<close>

definition match_index :: "string \<Rightarrow> (int \<times> string) option" where
  "match_index s =
     (let s = lstrip s; ds = takeWhile is_digit s; rest = lstrip (dropWhile is_digit s) in
      if ds = [] \<or> (hd ds = CHR ''0'' \<and> ds \<noteq> ''0'') \<or> rest = [] \<or> hd rest \<noteq> CHR '':'' then None
      else case int_of_str 10 ds of Inl _ \<Rightarrow> None | Inr i \<Rightarrow> Some (i, tl rest))"

text \<open>\<open>\s*([^:,]+?)\s*\<close> behind it; the groups of the entry, the second one stripped.\<close>

definition match_mapping :: "string \<Rightarrow> (int \<times> string) option" where
  "match_mapping s = (case match_index s of
      None \<Rightarrow> None
    | Some (i, v) \<Rightarrow> if v = [] \<or> CHR '':'' \<in> set v \<or> CHR '','' \<in> set v then None else Some (i, strip v))"

text \<open>\<open>\s*axis\s*:\s*(cia402-drive)\s*\<close> behind the index.\<close>

definition match_bus :: "string \<Rightarrow> int option" where
  "match_bus s = (case match_index s of
      None \<Rightarrow> None
    | Some (i, v) \<Rightarrow> (case split_on CHR '':'' v of
        [kind, profile] \<Rightarrow> if strip kind = ''axis'' \<and> strip profile = ''cia402-drive'' then Some i else None
      | _ \<Rightarrow> None))"

type_synonym axis_map = "(int \<times> string) list"

fun parse_mapping :: "string list \<Rightarrow> axis_map \<Rightarrow> axis_map res" where
  "parse_mapping [] vs = Inr vs"
| "parse_mapping (e # es) vs = (case match_mapping e of
      None \<Rightarrow> Inl ValueError
    | Some (i, v) \<Rightarrow> if map_of vs i \<noteq> None then Inl ValueError else parse_mapping es (vs @ [(i, v)]))"

definition axis_prefix :: string where
  "axis_prefix = ''DEVICE_SIMULATOR_AXIS_''"

definition suffixes :: "string list" where
  "suffixes = [''IDS'', ''MODELS'', ''MODES'', ''PARAMETER_SETS'']"

definition read_mapping :: "env \<Rightarrow> string \<Rightarrow> axis_map res" where
  "read_mapping e key = ebind (required e (axis_prefix @ key)) (\<lambda>v. parse_mapping (split_on CHR '','' v) [])"

definition make_device :: "int \<Rightarrow> string \<Rightarrow> string \<Rightarrow> string \<Rightarrow> string \<Rightarrow> json" where
  "make_device index i model mode pset =
     JObj [(''slave_index'', JInt index), (''id'', JStr i), (''type'', JStr ''cia402-drive''),
           (''model'', JObj [(''type'', JStr model), (''mode'', JStr mode)]), (''parameter_set'', JStr pset)]"

fun parse_bus :: "axis_map \<Rightarrow> axis_map \<Rightarrow> axis_map \<Rightarrow> axis_map \<Rightarrow> string list \<Rightarrow> int list \<Rightarrow> (json list \<times> int list) res" where
  "parse_bus ids models modes sets [] indices = Inr ([], indices)"
| "parse_bus ids models modes sets (e # es) indices = (case match_bus e of
      None \<Rightarrow> Inl ValueError
    | Some index \<Rightarrow>
        if index \<in> set indices then Inl ValueError
        else case (map_of ids index, map_of models index, map_of modes index, map_of sets index) of
            (Some i, Some model, Some mode, Some pset) \<Rightarrow>
              ebind (parse_bus ids models modes sets es (index # indices)) (\<lambda>(ds, indices).
              Inr (make_device index i model mode pset # ds, indices))
          | _ \<Rightarrow> Inl ValueError)"

definition add_artifact :: "env \<Rightarrow> json \<Rightarrow> json res" where
  "add_artifact e device =
     ebind (item device ''model'') (\<lambda>model.
     ebind (item model ''type'') (\<lambda>kind.
     if kind \<noteq> JStr ''copley_drive_sim'' then Inr device
     else
       let folder = strip (env_get e ''DEVICE_SIMULATOR_FMU_DIR'' ''./model_artifacts'') in
       if folder = [] then Inl ValueError
       else Inr (put_item ''model'' (put_item ''artifact'' (JStr (path_join folder ''CopleyDriveSim-linux.fmu'')) model) device)))"

definition make_data :: "string \<Rightarrow> string \<Rightarrow> json list \<Rightarrow> json" where
  "make_data interface state devices =
     JObj [(''schema_version'', JInt 1), (''ethercat'', JObj [(''interface'', JStr interface)]),
           (''storage'', JObj [(''directory'', JStr (path_str state))]), (''devices'', JList devices)]"

definition load_environment :: "resolver \<Rightarrow> env \<Rightarrow> string \<Rightarrow> json res" where
  "load_environment rsv e base =
     (if map_of e ''DEVICE_SIMULATOR_CONFIG_FILE'' \<noteq> None then Inl ValueError
      else
      ebind (read_mapping e ''IDS'') (\<lambda>ids.
      ebind (read_mapping e ''MODELS'') (\<lambda>models.
      ebind (read_mapping e ''MODES'') (\<lambda>modes.
      ebind (read_mapping e ''PARAMETER_SETS'') (\<lambda>sets.
      ebind (required e ''DEVICE_SIMULATOR_BUS'') (\<lambda>bus.
      ebind (parse_bus ids models modes sets (split_on CHR '','' bus) []) (\<lambda>(devices, indices).
      if \<not> list_all (\<lambda>m. set (map fst m) = set indices) [ids, models, modes, sets] then Inl ValueError
      else if \<exists>k \<in> set (map fst e). startswith k axis_prefix \<and> k \<notin> set (map (\<lambda>s. axis_prefix @ s) suffixes) then Inl ValueError
      else
      ebind (emap (add_artifact e) devices) (\<lambda>devices.
      ebind (required e ''DEVICE_SIMULATOR_STATE_DIR'') (\<lambda>state.
      ebind (required e ''KICKCAT_INTERFACE'') (\<lambda>interface.
      validate_config rsv (make_data interface state devices) base))))))))))"

text \<open>\<open>load_config\<close> on the text of the file and the folder it is in.\<close>

definition load_config :: "resolver \<Rightarrow> string \<Rightarrow> string \<Rightarrow> json res" where
  "load_config rsv text parent = ebind (read_env text) (\<lambda>e. load_environment rsv e parent)"

section \<open>Devices of a validated configuration\<close>

text \<open>The device that the entries of a dictionary describe.\<close>

definition text_item :: "json \<Rightarrow> string \<Rightarrow> string option" where
  "text_item v k = (case item v k of Inr (JStr s) \<Rightarrow> Some s | _ \<Rightarrow> None)"

definition model_of :: "json \<Rightarrow> json" where
  "model_of j = (case item j ''model'' of Inr m \<Rightarrow> m | _ \<Rightarrow> JNull)"

definition device_of :: "json \<Rightarrow> device" where
  "device_of j = \<lparr>slave_index = index_of j, dev_id = the (text_item j ''id''), dev_type = the (text_item j ''type''),
     model_type = the (text_item (model_of j) ''type''), model_mode = the (text_item (model_of j) ''mode''),
     artifact = text_item (model_of j) ''artifact'', parameter_set = the (text_item j ''parameter_set'')\<rparr>"

definition device_ok :: "device \<Rightarrow> bool" where
  "device_ok d \<longleftrightarrow> valid_name (dev_id d) \<and> valid_name (parameter_set d) \<and> dev_type d = ''cia402-drive'' \<and>
     model_type d \<in> {''f_kr_cmmt'', ''copley_drive_sim''} \<and> model_mode d \<in> {''linear'', ''rotary''} \<and>
     (artifact d \<noteq> None \<longleftrightarrow> model_type d = ''copley_drive_sim'')"

definition device_json :: "json \<Rightarrow> device \<Rightarrow> bool" where
  "device_json j d \<longleftrightarrow> item j ''slave_index'' = Inr (JInt (slave_index d)) \<and> item j ''id'' = Inr (JStr (dev_id d)) \<and>
     item j ''type'' = Inr (JStr (dev_type d)) \<and> item j ''parameter_set'' = Inr (JStr (parameter_set d)) \<and>
     (\<exists>m. item j ''model'' = Inr m \<and> item m ''type'' = Inr (JStr (model_type d)) \<and> item m ''mode'' = Inr (JStr (model_mode d)) \<and>
        (case artifact d of None \<Rightarrow> item m ''artifact'' = Inl KeyError | Some a \<Rightarrow> item m ''artifact'' = Inr (JStr a)))"

lemma device_json_unique: "device_json j d \<Longrightarrow> device_of j = d"
  by (cases d; cases "artifact d") (auto simp: device_json_def device_of_def text_item_def model_of_def index_of_def)

lemma item_put: "item (JObj kvs) j = Inr y \<Longrightarrow> item (put_item k x (JObj kvs)) j' = (if j' = k then Inr x else item (JObj kvs) j')"
  by (simp add: item_def update_conv')

lemma item_object: "item v k = Inr y \<Longrightarrow> \<exists>kvs. v = JObj kvs"
  by (cases v) (simp_all add: item_def)

lemma check_model_ok:
  assumes "check_model rsv base m = Inr m'"
  shows "\<exists>kind mode a. item m' ''type'' = Inr (JStr kind) \<and> item m' ''mode'' = Inr (JStr mode) \<and>
    kind \<in> {''f_kr_cmmt'', ''copley_drive_sim''} \<and> mode \<in> {''linear'', ''rotary''} \<and>
    (\<forall>k. k \<noteq> ''artifact'' \<longrightarrow> item m' k = item m k) \<and>
    (case a of None \<Rightarrow> item m' ''artifact'' = Inl KeyError | Some x \<Rightarrow> item m' ''artifact'' = Inr (JStr x)) \<and>
    (a \<noteq> None \<longleftrightarrow> kind = ''copley_drive_sim'')"
proof (cases m)
  case m: (JObj kvs)
  obtain mode where mode: "item m ''mode'' = Inr mode" "mode \<in> {JStr ''linear'', JStr ''rotary''}"
    and kind: "map_of kvs ''type'' \<in> {Some (JStr ''f_kr_cmmt''), Some (JStr ''copley_drive_sim'')}"
    and f: "has_fields m (if map_of kvs ''type'' = Some (JStr ''copley_drive_sim'') then [''type'', ''mode'', ''artifact''] else [''type'', ''mode''])"
    using assms unfolding check_model_def m by (auto simp: ebind_Inr_iff Let_def require_fields_def split: if_splits)
  obtain ms where ms: "mode = JStr ms" "ms \<in> {''linear'', ''rotary''}" using mode(2) by auto
  show ?thesis
  proof (cases "map_of kvs ''type'' = Some (JStr ''copley_drive_sim'')")
    case True
    obtain r where "m' = put_item ''artifact'' (JStr r) m"
      using assms True unfolding check_model_def m by (auto simp: ebind_Inr_iff Let_def split: if_splits)
    then show ?thesis using True mode(1) ms m
      by (intro exI [of _ "''copley_drive_sim''"] exI [of _ ms] exI [of _ "Some r"]) (simp add: item_def update_conv' split: option.splits)
  next
    case False
    have m': "m' = m"
      using assms False unfolding check_model_def m by (auto simp: ebind_Inr_iff Let_def split: if_splits)
    have "''artifact'' \<notin> set (map fst kvs)" using f False by (simp add: has_fields_def m)
    then have "map_of kvs ''artifact'' = None" by (simp only: map_of_eq_None_iff list.set_map not_False_eq_True)
    then show ?thesis using False mode(1) ms kind m m'
      by (intro exI [of _ "''f_kr_cmmt''"] exI [of _ ms] exI [of _ None]) (simp add: item_def split: option.splits)
  qed
qed (use assms in \<open>simp_all add: check_model_def\<close>)

lemma check_name_ok: "check_name v = Inr s \<Longrightarrow> v = JStr s \<and> valid_name s"
  by (cases v) (auto simp: check_name_def split: if_splits)

lemma check_unique_ok: "check_unique v seen = Inr seen' \<Longrightarrow> \<exists>s. v = JStr s \<and> valid_name s \<and> s \<notin> set seen \<and> seen' = s # seen"
  by (auto simp: check_unique_def ebind_Inr_iff split: if_splits dest: check_name_ok)

lemma check_index_ok:
  "check_index v u = Inr u' \<Longrightarrow> \<exists>i. v = JInt i \<and> 0 \<le> i \<and> i \<notin> set (used_indices u) \<and> u' = u\<lparr>used_indices := i # used_indices u\<rparr>"
  by (cases v) (auto simp: check_index_def split: if_splits)

text \<open>Checking a device changes nothing but the path of its artifact.\<close>

definition same_device :: "json \<Rightarrow> json \<Rightarrow> bool" where
  "same_device j j' \<longleftrightarrow> (\<forall>k. k \<noteq> ''model'' \<longrightarrow> item j' k = item j k) \<and>
     (\<exists>m m'. item j ''model'' = Inr m \<and> item j' ''model'' = Inr m' \<and> (\<forall>k. k \<noteq> ''artifact'' \<longrightarrow> item m' k = item m k))"

text \<open>The names and indices of a device are new and are then used.\<close>

definition takes :: "used \<Rightarrow> device \<Rightarrow> used" where
  "takes u d = \<lparr>used_ids = dev_id d # used_ids u, used_sets = parameter_set d # used_sets u, used_indices = slave_index d # used_indices u\<rparr>"

definition fresh_device :: "used \<Rightarrow> device \<Rightarrow> bool" where
  "fresh_device u d \<longleftrightarrow> dev_id d \<notin> set (used_ids u) \<and> parameter_set d \<notin> set (used_sets u) \<and> slave_index d \<notin> set (used_indices u)"

lemma check_device_ok:
  assumes "check_device rsv base j u = Inr (j', u')"
  shows "device_json j' (device_of j') \<and> device_ok (device_of j') \<and> fresh_device u (device_of j') \<and>
    u' = takes u (device_of j') \<and> same_device j j'"
proof -
  obtain iv u1 idv ids pv sets m m' where s: "item j ''slave_index'' = Inr iv" "check_index iv u = Inr u1"
    "item j ''id'' = Inr idv" "check_unique idv (used_ids u1) = Inr ids"
    "item j ''parameter_set'' = Inr pv" "check_unique pv (used_sets u1) = Inr sets"
    "item j ''type'' = Inr (JStr ''cia402-drive'')" "item j ''model'' = Inr m" "check_model rsv base m = Inr m'"
    "j' = put_item ''model'' m' j" "u' = u1\<lparr>used_ids := ids, used_sets := sets\<rparr>"
    using assms unfolding check_device_def by (auto simp: ebind_Inr_iff split: if_splits)
  obtain kvs where j: "j = JObj kvs" using item_object [OF s(1)] by blast
  obtain i where i: "iv = JInt i" "i \<notin> set (used_indices u)" "u1 = u\<lparr>used_indices := i # used_indices u\<rparr>"
    using check_index_ok [OF s(2)] by blast
  obtain n where n: "idv = JStr n" "valid_name n" "n \<notin> set (used_ids u1)" "ids = n # used_ids u1"
    using check_unique_ok [OF s(4)] by blast
  obtain p where p: "pv = JStr p" "valid_name p" "p \<notin> set (used_sets u1)" "sets = p # used_sets u1"
    using check_unique_ok [OF s(6)] by blast
  obtain kind mode a where k: "item m' ''type'' = Inr (JStr kind)" "item m' ''mode'' = Inr (JStr mode)"
    "kind \<in> {''f_kr_cmmt'', ''copley_drive_sim''}" "mode \<in> {''linear'', ''rotary''}"
    "case a of None \<Rightarrow> item m' ''artifact'' = Inl KeyError | Some x \<Rightarrow> item m' ''artifact'' = Inr (JStr x)"
    "a \<noteq> None \<longleftrightarrow> kind = ''copley_drive_sim''" "\<forall>k. k \<noteq> ''artifact'' \<longrightarrow> item m' k = item m k"
    using check_model_ok [OF s(9)] by blast
  define d where "d = \<lparr>slave_index = i, dev_id = n, dev_type = ''cia402-drive'', model_type = kind, model_mode = mode, artifact = a, parameter_set = p\<rparr>"
  have it: "item j' k = (if k = ''model'' then Inr m' else item j k)" for k
    using item_put [OF s(1) [unfolded j]] s(10) j by simp
  have "device_json j' d" using s i n p k it unfolding device_json_def d_def by simp
  moreover from this have "device_of j' = d" by (rule device_json_unique)
  moreover have "same_device j j'" using it s(8) k(7) unfolding same_device_def by auto
  moreover have "device_ok d" using n p k unfolding device_ok_def d_def by simp
  moreover have "fresh_device u d" using i n p unfolding fresh_device_def d_def by simp
  moreover have "u' = takes u d" using i n p s(11) unfolding takes_def d_def by simp
  ultimately show ?thesis by simp
qed

definition all_distinct :: "used \<Rightarrow> bool" where
  "all_distinct u \<longleftrightarrow> distinct (used_ids u) \<and> distinct (used_sets u) \<and> distinct (used_indices u)"

lemma check_devices_ok:
  assumes "check_devices rsv base js u = Inr (js', u')"
  shows "list_all (\<lambda>j. device_json j (device_of j) \<and> device_ok (device_of j)) js' \<and>
    u' = foldl takes u (map device_of js') \<and> (all_distinct u \<longrightarrow> all_distinct u') \<and> list_all2 same_device js js'"
  using assms
proof (induction js arbitrary: u js')
  case (Cons j js)
  obtain j1 u1 js1 where s: "check_device rsv base j u = Inr (j1, u1)" "check_devices rsv base js u1 = Inr (js1, u')" "js' = j1 # js1"
    using Cons.prems by (auto simp: ebind_Inr_iff split: prod.splits)
  note d = check_device_ok [OF s(1)]
  note r = Cons.IH [OF s(2)]
  have "all_distinct u \<longrightarrow> all_distinct u1" using d by (auto simp: all_distinct_def takes_def fresh_device_def)
  then have "all_distinct u \<longrightarrow> all_distinct u'" using r by blast
  then show ?case using r d s(3) by auto
qed simp

lemma takes_all:
  "used_ids (foldl takes u ds) = rev (map dev_id ds) @ used_ids u"
  "used_sets (foldl takes u ds) = rev (map parameter_set ds) @ used_sets u"
  "used_indices (foldl takes u ds) = rev (map slave_index ds) @ used_indices u"
  by (induction ds arbitrary: u) (simp_all add: takes_def)

text \<open>The devices of a configuration, in the order of their slave indices.\<close>

definition config_devices :: "json \<Rightarrow> device list \<Rightarrow> bool" where
  "config_devices cfg ds \<longleftrightarrow> ds \<noteq> [] \<and> (\<exists>js. item cfg ''devices'' = Inr (JList js) \<and> list_all2 device_json js ds) \<and>
     map slave_index ds = map int [0..<length ds] \<and> distinct (map dev_id ds) \<and> distinct (map parameter_set ds) \<and> list_all device_ok ds"

lemma sorted_range: "sorted (map int [0..<n])"
  by (induction n) (auto simp: sorted_append)

lemma sorted_devices:
  assumes "check_devices rsv base js unused = Inr (js', u)"
    and "set (used_indices u) = set (map int [0..<length js])" "js \<noteq> []" "item cfg ''devices'' = Inr (JList (sort_key index_of js'))"
  shows "config_devices cfg (map device_of (sort_key index_of js'))"
proof -
  note c = check_devices_ok [OF assms(1)]
  let ?ds = "map device_of (sort_key index_of js')"
  have si: "slave_index (device_of j) = index_of j" for j by (simp add: device_of_def)
  have ad: "distinct (map (dev_id \<circ> device_of) js')" "distinct (map (parameter_set \<circ> device_of) js')" "distinct (map index_of js')"
  proof -
    have "all_distinct unused" by (simp add: all_distinct_def unused_def)
    then have "all_distinct u" using c by blast
    moreover have "u = foldl takes unused (map device_of js')" using c by blast
    ultimately show "distinct (map (dev_id \<circ> device_of) js')" "distinct (map (parameter_set \<circ> device_of) js')" "distinct (map index_of js')"
      using takes_all [of unused "map device_of js'"] by (simp_all add: all_distinct_def unused_def o_def si)
  qed
  have len: "length js' = length js" using c by (auto dest: list_all2_lengthD)
  have "set (map index_of js') = set (map int [0..<length js])" using c assms(2) by (simp add: takes_all si o_def unused_def)
  then have "map index_of (sort_key index_of js') = map int [0..<length js]"
    using ad(3) sorted_range by (intro sorted_distinct_set_unique) (simp_all add: distinct_map)
  then have "map slave_index ?ds = map int [0..<length ?ds]" by (simp add: o_def si len)
  moreover have "list_all2 device_json (sort_key index_of js') ?ds" "list_all device_ok ?ds"
    using c by (auto simp: list_all_iff list_all2_map2 intro: list.rel_refl_strong)
  moreover have "length ?ds \<noteq> 0" using len assms(3) by simp
  ultimately show ?thesis using ad(1,2) assms(4) unfolding config_devices_def
    by (auto simp: distinct_map)
qed

lemma validate_config_parts:
  assumes "validate_config rsv data base = Inr cfg"
  shows "\<exists>js js' u. item data ''devices'' = Inr (JList js) \<and> js \<noteq> [] \<and> check_devices rsv base js unused = Inr (js', u) \<and>
    set (used_indices u) = set (map int [0..<length js]) \<and> item cfg ''devices'' = Inr (JList (sort_key index_of js'))"
proof -
  obtain x js js' u y where r: "item data ''devices'' = Inr x" "device_list x = Inr js" "check_devices rsv base js unused = Inr (js', u)"
    "set (used_indices u) = set (map int [0..<length js])"
    "cfg = put_item ''devices'' (JList (sort_key index_of js')) (put_item ''storage'' y data)"
    using assms unfolding validate_config_def by (auto simp: ebind_Inr_iff split: if_splits)
  obtain kvs where kvs: "data = JObj kvs" using item_object [OF r(1)] by blast
  have "x = JList js" "js \<noteq> []" using r(2) by (auto simp: device_list_def split: json.splits if_splits)
  moreover have "item cfg ''devices'' = Inr (JList (sort_key index_of js'))" unfolding r(5) by (simp add: kvs item_def)
  ultimately show ?thesis using r by blast
qed

theorem validated_devices:
  assumes "validate_config rsv data base = Inr cfg"
  shows "\<exists>ds. config_devices cfg ds"
  using validate_config_parts [OF assms] sorted_devices by blast

section \<open>Devices of an environment\<close>

text \<open>Every device has the entries of the four maps under its slave index.\<close>

definition listed :: "axis_map \<Rightarrow> axis_map \<Rightarrow> axis_map \<Rightarrow> axis_map \<Rightarrow> device \<Rightarrow> bool" where
  "listed ids models modes sets d \<longleftrightarrow> map_of ids (slave_index d) = Some (dev_id d) \<and> map_of models (slave_index d) = Some (model_type d) \<and>
     map_of modes (slave_index d) = Some (model_mode d) \<and> map_of sets (slave_index d) = Some (parameter_set d)"

definition made_from :: "axis_map \<Rightarrow> axis_map \<Rightarrow> axis_map \<Rightarrow> axis_map \<Rightarrow> json \<Rightarrow> bool" where
  "made_from ids models modes sets j \<longleftrightarrow> (\<exists>index i model mode pset. j = make_device index i model mode pset \<and>
     map_of ids index = Some i \<and> map_of models index = Some model \<and> map_of modes index = Some mode \<and> map_of sets index = Some pset)"

lemma parse_bus_made:
  "parse_bus ids models modes sets es indices = Inr (js, indices') \<Longrightarrow> list_all (made_from ids models modes sets) js"
proof (induction es arbitrary: indices js)
  case (Cons e es)
  then obtain index i model mode pset js1 where "js = make_device index i model mode pset # js1"
    "map_of ids index = Some i" "map_of models index = Some model" "map_of modes index = Some mode" "map_of sets index = Some pset"
    "parse_bus ids models modes sets es (index # indices) = Inr (js1, indices')"
    by (auto simp: ebind_Inr_iff split: option.splits if_splits)
  moreover from this have "made_from ids models modes sets (make_device index i model mode pset)"
    unfolding made_from_def by blast
  ultimately show ?case using Cons.IH by simp
qed simp

lemma same_device_listed:
  assumes "made_from ids models modes sets j" "add_artifact e j = Inr j1" "same_device j1 j2" "device_json j2 d"
  shows "listed ids models modes sets d"
proof -
  obtain index i model mode pset where j: "j = make_device index i model mode pset" "map_of ids index = Some i"
    "map_of models index = Some model" "map_of modes index = Some mode" "map_of sets index = Some pset"
    using assms(1) unfolding made_from_def by blast
  have m: "item j ''model'' = Inr (JObj [(''type'', JStr model), (''mode'', JStr mode)])" by (simp add: j(1) make_device_def item_def)
  have j1: "item j1 ''slave_index'' = Inr (JInt index)" "item j1 ''id'' = Inr (JStr i)" "item j1 ''parameter_set'' = Inr (JStr pset)"
    "\<exists>m1. item j1 ''model'' = Inr m1 \<and> item m1 ''type'' = Inr (JStr model) \<and> item m1 ''mode'' = Inr (JStr mode)"
    using assms(2) m unfolding add_artifact_def j(1) make_device_def by (auto simp: item_def Let_def split: if_splits)
  then obtain m1 where m1: "item j1 ''model'' = Inr m1" "item m1 ''type'' = Inr (JStr model)" "item m1 ''mode'' = Inr (JStr mode)" by blast
  obtain m2 where "item j2 ''model'' = Inr m2" "item m2 ''type'' = Inr (JStr model)" "item m2 ''mode'' = Inr (JStr mode)"
    using assms(3) m1 unfolding same_device_def by auto
  moreover have "item j2 ''slave_index'' = Inr (JInt index)" "item j2 ''id'' = Inr (JStr i)" "item j2 ''parameter_set'' = Inr (JStr pset)"
    using assms(3) j1 unfolding same_device_def by simp_all
  ultimately show ?thesis using assms(4) j unfolding device_json_def listed_def by auto
qed

text \<open>
  C34. A configuration that is accepted from the environment lists its axes under the slave
  indices 0 to N-1 with distinct names and parameter sets, and each axis has exactly the name,
  model, mode and parameter set that the four settings give for its index.
\<close>

theorem environment_axes:
  assumes "load_environment rsv e base = Inr cfg"
  shows "\<exists>ids models modes sets ds. read_mapping e ''IDS'' = Inr ids \<and> read_mapping e ''MODELS'' = Inr models \<and>
    read_mapping e ''MODES'' = Inr modes \<and> read_mapping e ''PARAMETER_SETS'' = Inr sets \<and>
    config_devices cfg ds \<and> list_all (listed ids models modes sets) ds"
proof -
  obtain ids models modes sets bus js0 indices js1 state interface where
    s: "read_mapping e ''IDS'' = Inr ids" "read_mapping e ''MODELS'' = Inr models" "read_mapping e ''MODES'' = Inr modes"
      "read_mapping e ''PARAMETER_SETS'' = Inr sets" "parse_bus ids models modes sets (split_on CHR '','' bus) [] = Inr (js0, indices)"
      "emap (add_artifact e) js0 = Inr js1" "validate_config rsv (make_data interface state js1) base = Inr cfg"
    using assms unfolding load_environment_def by (auto simp: ebind_Inr_iff split: if_splits prod.splits)
  obtain js js' u where v: "item (make_data interface state js1) ''devices'' = Inr (JList js)" "js \<noteq> []"
    "check_devices rsv base js unused = Inr (js', u)" "set (used_indices u) = set (map int [0..<length js])"
    "item cfg ''devices'' = Inr (JList (sort_key index_of js'))"
    using validate_config_parts [OF s(7)] by blast
  have js: "js = js1" using v(1) by (simp add: make_data_def item_def)
  note c = check_devices_ok [OF v(3)]
  have "listed ids models modes sets (device_of j')" if "j' \<in> set js'" for j'
  proof -
    obtain k where k: "k < length js'" "js' ! k = j'" using \<open>j' \<in> set js'\<close> by (auto simp: in_set_conv_nth)
    have l: "length js0 = length js1" "length js1 = length js'" using c js emap_length [OF s(6)] by (auto dest: list_all2_lengthD)
    have "add_artifact e (js0 ! k) = Inr (js1 ! k)" using emap_list_all2 [OF s(6)] k l by (simp add: list_all2_conv_all_nth)
    moreover have "made_from ids models modes sets (js0 ! k)" using parse_bus_made [OF s(5)] k l by (simp add: list_all_length)
    moreover have "same_device (js1 ! k) j'" using c k l js by (auto simp: list_all2_conv_all_nth)
    moreover have "device_json j' (device_of j')" using c \<open>j' \<in> set js'\<close> by (simp add: list_all_iff)
    ultimately show ?thesis using same_device_listed by blast
  qed
  then have "list_all (listed ids models modes sets) (map device_of (sort_key index_of js'))" by (simp add: list_all_iff)
  then show ?thesis using s(1-4) sorted_devices [OF v(3,4,2,5)] by blast
qed

section \<open>Errors of a configuration\<close>

text \<open>A computation that can only raise \<open>ValueError\<close>.\<close>

definition only_value :: "'a res \<Rightarrow> bool" where
  "only_value r \<longleftrightarrow> (case r of Inl x \<Rightarrow> x = ValueError | Inr _ \<Rightarrow> True)"

lemma only_value_simps [simp]: "only_value (Inr y)" "only_value (Inl x) \<longleftrightarrow> x = ValueError"
  by (simp_all add: only_value_def)

lemma only_value_ebind: "only_value r \<Longrightarrow> (\<And>x. r = Inr x \<Longrightarrow> only_value (f x)) \<Longrightarrow> only_value (ebind r f)"
  by (cases r) simp_all

lemma only_value_emap: "(\<And>x. x \<in> set xs \<Longrightarrow> only_value (f x)) \<Longrightarrow> only_value (emap f xs)"
  by (induction xs) (auto intro!: only_value_ebind)

lemma only_value_if: "(c \<Longrightarrow> only_value x) \<Longrightarrow> (\<not> c \<Longrightarrow> only_value y) \<Longrightarrow> only_value (if c then x else y)"
  by simp

lemma require_fields_item: "require_fields v ks = Inr x \<Longrightarrow> k \<in> set ks \<Longrightarrow> \<exists>y. item v k = Inr y"
proof -
  assume a: "require_fields v ks = Inr x" "k \<in> set ks"
  then obtain kvs where v: "v = JObj kvs" "set (map fst kvs) = set ks"
    by (cases v) (auto simp: require_fields_def has_fields_def split: if_splits)
  then have "map_of kvs k \<noteq> None" using a(2) by (simp add: map_of_eq_None_iff)
  then show ?thesis by (auto simp: v(1) item_def)
qed

lemma only_value_item: "require_fields v ks = Inr x \<Longrightarrow> k \<in> set ks \<Longrightarrow> only_value (item v k)"
  using require_fields_item by fastforce

lemma only_value_leaves:
  "only_value (require_fields v ks)" "only_value (check_name v)" "only_value (check_unique v seen)" "only_value (check_index v u)"
  "only_value (device_list v)"
  by (cases v; auto simp: require_fields_def check_name_def check_unique_def check_index_def device_list_def
    intro!: only_value_ebind)+

lemma only_value_path: "(\<And>b p. only_value (rsv b p)) \<Longrightarrow> only_value (check_path rsv base v)"
  by (cases v) (simp_all add: check_path_def)

lemma only_value_model: "(\<And>b p. only_value (rsv b p)) \<Longrightarrow> only_value (check_model rsv base m)"
  by (cases m; unfold check_model_def Let_def)
    (auto intro!: only_value_ebind only_value_leaves only_value_path only_value_if elim: only_value_item
      dest: only_value_item [where k = "''artifact''"] split: if_splits)

lemma only_value_device: "(\<And>b p. only_value (rsv b p)) \<Longrightarrow> only_value (check_device rsv base j u)"
  unfolding check_device_def
  by (intro only_value_ebind only_value_leaves only_value_if only_value_model; (erule only_value_item)?; simp)

lemma only_value_devices: "(\<And>b p. only_value (rsv b p)) \<Longrightarrow> only_value (check_devices rsv base js u)"
  by (induction js arbitrary: u) (auto intro!: only_value_ebind only_value_device split: prod.splits)

lemma only_value_validate: "(\<And>b p. only_value (rsv b p)) \<Longrightarrow> only_value (validate_config rsv data base)"
  unfolding validate_config_def
  by (intro only_value_ebind only_value_leaves only_value_if only_value_path only_value_devices; (erule only_value_item)?; (simp split: prod.splits)?)

lemma only_value_mapping: "only_value (read_mapping e k)"
proof -
  have "only_value (parse_mapping es vs)" for es vs
    by (induction es arbitrary: vs) (auto split: option.splits)
  then show ?thesis unfolding read_mapping_def required_def Let_def by (intro only_value_ebind only_value_if) simp_all
qed

lemma only_value_bus: "only_value (parse_bus ids models modes sets es indices)"
  by (induction es arbitrary: indices) (auto intro!: only_value_ebind split: option.splits prod.splits)

lemma only_value_artifact: "made_from ids models modes sets j \<Longrightarrow> only_value (add_artifact e j)"
  by (auto simp: made_from_def make_device_def add_artifact_def item_def Let_def)

lemma only_value_environment:
  assumes "\<And>b p. only_value (rsv b p)"
  shows "only_value (load_environment rsv e base)"
  unfolding load_environment_def required_def Let_def
  by (intro only_value_ebind only_value_if only_value_mapping only_value_simps(1) only_value_bus only_value_validate assms)
    (auto intro!: only_value_emap only_value_if only_value_ebind only_value_validate assms dest!: parse_bus_made
      elim!: only_value_artifact simp: list_all_iff only_value_artifact)

lemma only_value_tokens: "only_value (read_tokens st q t s)"
  by (induction st q t s rule: read_tokens.induct) (auto intro!: only_value_ebind)

lemma only_value_lines: "only_value (read_lines ls p result)"
proof (induction ls p result rule: read_lines.induct)
  case (2 l ls pending result)
  then show ?case
    by (auto simp: Let_def shlex_split_def split: option.splits intro!: only_value_ebind only_value_tokens)
qed simp

text \<open>
  C35. Whatever the text of an environment file holds, loading it returns a configuration or
  raises a value error; no other exception escapes while paths can be resolved.
\<close>

theorem load_config_errors:
  assumes "\<And>b p. \<exists>r. rsv b p = Inr r" "load_config rsv text parent = Inl x"
  shows "x = ValueError"
proof -
  have "only_value (rsv b p)" for b p using assms(1) [of b p] by auto
  then have "only_value (load_config rsv text parent)" unfolding load_config_def read_env_def
    by (intro only_value_ebind only_value_lines only_value_environment)
  then show ?thesis using assms(2) by simp
qed

end
