(* ===== verification/Registry.thy ===== *)
theory Registry
  imports Copley Configuration Drive Fleet
begin

text \<open>
  From the configuration to running drives: the CMMT description read from the ESI document
  (device_descriptions/cmmt_as/description.py), the adapter that the registry creates for a device
  (adapter/registry.py) and the start of a fleet (runtime/fleet.py). A fleet may mix F-KR and Copley
  drives: an adapter object is a value of the type \<open>drive\<close>. Every artifact has its own FMI unit.
\<close>

section \<open>The device description\<close>

text \<open>\<open>identity.json\<close>\<close>

definition identity_product_code :: int where
  "identity_product_code = 8067733"

definition identity_revision :: int where
  "identity_revision = 36120"

text \<open>\<open>text.replace('#x', '0x')\<close>\<close>

fun hash_to_zero :: "string \<Rightarrow> string" where
  "hash_to_zero (c # d # cs) = (if c = CHR ''#'' \<and> d = CHR ''x'' then CHR ''0'' # CHR ''x'' # hash_to_zero cs else c # hash_to_zero (d # cs))"
| "hash_to_zero cs = cs"

definition esi_vendor_id :: "element \<Rightarrow> int res" where
  "esi_vendor_id doc = (case first (children2 ''Vendor'' ''Id'' doc) of
      None \<Rightarrow> Inl AttributeError
    | Some e \<Rightarrow> int_of_str 0 (hash_to_zero (etext e)))"

record cmmt_description =
  cd_catalog :: CMMTEsiCatalog
  cd_vendor_id :: int
  cd_parameters :: "ConfiguredValue list"

definition CmmtAsDescription :: "element \<Rightarrow> string \<Rightarrow> cmmt_description res" where
  "CmmtAsDescription doc mode =
     (if mode \<notin> {''linear'', ''rotary''} then Inl ValueError
      else
        ebind (parse_cmmt_esi_catalog ''as'' doc) (\<lambda>c.
        if (esi_product_code c, esi_revision c) \<noteq> (identity_product_code, identity_revision) then Inl ValueError
        else
          ebind (esi_vendor_id doc) (\<lambda>vendor.
          ebind (cmmt_parameters mode) (\<lambda>parameters.
          Inr \<lparr>cd_catalog = c, cd_vendor_id = vendor, cd_parameters = parameters\<rparr>))))"

text \<open>\<open>object_dictionary_entries\<close>: what the dictionary reads of the entries of the flat table.\<close>

definition object_dictionary_entries :: "CMMTEsiCatalog \<Rightarrow> catalog_objects" where
  "object_dictionary_entries c =
     map (\<lambda>(k, x). (k, \<lparr>cat_name = obj_name x, cat_data_type = obj_data_type x, cat_bit_size = obj_bit_size x, cat_access = obj_access x\<rparr>))
       (esi_objects c)"

definition CiA402DriveProfile :: "cmmt_description \<Rightarrow> DeviceProfile res" where
  "CiA402DriveProfile d = cmmt_profile (object_dictionary_entries (cd_catalog d)) (cd_parameters d)"

definition description_identity :: "cmmt_description \<Rightarrow> identity" where
  "description_identity d = \<lparr>id_vendor = cd_vendor_id d, id_product = esi_product_code (cd_catalog d), id_revision = esi_revision (cd_catalog d)\<rparr>"

section \<open>Drives of either kind\<close>

datatype 'f drive = FKrDrive servo | CopleyDrive string "'f copley"

type_synonym 'f units = "string \<Rightarrow> 'f fmu \<times> model_description res"

text \<open>A call on an adapter object runs the method of its class.\<close>

definition on_drive :: "'a servo_m \<Rightarrow> (string \<Rightarrow> ('f, 'a) copley_m) \<Rightarrow> ('f drive, 'a) pym" where
  "on_drive m n = (\<lambda>d. case d of
      FKrDrive s \<Rightarrow> (case m s of (x, s') \<Rightarrow> (x, FKrDrive s'))
    | CopleyDrive a s \<Rightarrow> (case n a s of (x, s') \<Rightarrow> (x, CopleyDrive a s')))"

definition drive_ops :: "'f units \<Rightarrow> 'f drive adapter_ops" where
  "drive_ops units = (let cp = (\<lambda>a. copley_ops (fst (units a))) in
     \<lparr>ad_read_sdo = (\<lambda>i k n. on_drive (ad_read_sdo fkr_ops i k n) (\<lambda>a. ad_read_sdo (cp a) i k n)),
      ad_write_sdo = (\<lambda>i k p. on_drive (ad_write_sdo fkr_ops i k p) (\<lambda>a. ad_write_sdo (cp a) i k p)),
      ad_apply_outputs = (\<lambda>p. on_drive (ad_apply_outputs fkr_ops p) (\<lambda>a. ad_apply_outputs (cp a) p)),
      ad_step = (\<lambda>dt. on_drive (ad_step fkr_ops dt) (\<lambda>a. ad_step (cp a) dt)),
      ad_read_inputs = on_drive (ad_read_inputs fkr_ops) (\<lambda>a. ad_read_inputs (cp a)),
      ad_od_definition = (\<lambda>i k. on_drive (ad_od_definition fkr_ops i k) (\<lambda>a. ad_od_definition (cp a) i k)),
      ad_od_read = (\<lambda>i k. on_drive (ad_od_read fkr_ops i k) (\<lambda>a. ad_od_read (cp a) i k)),
      ad_od_write = (\<lambda>i v k. on_drive (ad_od_write fkr_ops i v k) (\<lambda>a. ad_od_write (cp a) i v k)),
      ad_od_write_role = (\<lambda>r v. on_drive (ad_od_write_role fkr_ops r v) (\<lambda>a. ad_od_write_role (cp a) r v)),
      ad_persistent_roles = (\<lambda>d. case d of FKrDrive s \<Rightarrow> ad_persistent_roles fkr_ops s | CopleyDrive a s \<Rightarrow> ad_persistent_roles (cp a) s),
      ad_validate_parameters = (\<lambda>d. case d of FKrDrive s \<Rightarrow> ad_validate_parameters fkr_ops s | CopleyDrive a s \<Rightarrow> ad_validate_parameters (cp a) s)\<rparr>)"

section \<open>The registry\<close>

text \<open>
  The adapter is given with the identity and the profile it was created for. \<open>validate_adapter\<close> looks for
  the members that the type of operations requires; both classes have them.
\<close>

definition create_adapter :: "'f units \<Rightarrow> element \<Rightarrow> device \<Rightarrow> (identity \<times> DeviceProfile \<times> 'f drive) res" where
  "create_adapter units doc dev =
     (if dev_type dev \<noteq> ''cia402-drive'' then Inl ValueError
      else
        ebind (CmmtAsDescription doc (model_mode dev)) (\<lambda>description.
        ebind (CiA402DriveProfile description) (\<lambda>p.
        ebind (if model_type dev = ''copley_drive_sim''
               then (case artifact dev of
                   None \<Rightarrow> Inl KeyError
                 | Some a \<Rightarrow> ebind (fst (copley_open (fst (units a)) (snd (units a)) p)) (\<lambda>s. Inr (CopleyDrive a s)))
               else if model_type dev \<noteq> ''f_kr_cmmt'' then Inl ValueError
               else ebind (fkr_init p) (\<lambda>s. Inr (FKrDrive s))) (\<lambda>d.
        Inr (description_identity description, p, d)))))"

section \<open>Starting a fleet\<close>

definition create_model :: "'f units \<Rightarrow> element \<Rightarrow> string \<Rightarrow> device \<Rightarrow> 'f drive axis res" where
  "create_model units doc source_hash dev =
     ebind (create_adapter units doc dev) (\<lambda>(idn, p, d). model_init (drive_ops units) dev idn source_hash p d)"

text \<open>The models in the order of the configuration; with the first failure, those created before it.\<close>

fun create_models :: "'f units \<Rightarrow> element \<Rightarrow> string \<Rightarrow> device list \<Rightarrow> unit res \<times> 'f drive axis list" where
  "create_models units doc source_hash [] = (Inr (), [])"
| "create_models units doc source_hash (dev # devs) =
     (case create_model units doc source_hash dev of
        Inl e \<Rightarrow> (Inl e, [])
      | Inr a \<Rightarrow> (case create_models units doc source_hash devs of (r, as) \<Rightarrow> (r, a # as)))"

text \<open>\<open>Model.close\<close>: only the Copley adapter has something to close.\<close>

definition close_model :: "'f units \<Rightarrow> 'f drive axis \<Rightarrow> unit res" where
  "close_model units a = (case ax_adapter a of
      FKrDrive _ \<Rightarrow> Inr ()
    | CopleyDrive u s \<Rightarrow> fst (cp_close (fst (units u)) s))"

text \<open>
  \<open>close\<close> of the fleet, the last model first; a failure ends it. Loading and saving parameters does not
  touch the runner of a drive, so that closing the models as they were created has the same outcome.
\<close>

definition close_fleet :: "'f units \<Rightarrow> 'f drive axis list \<Rightarrow> unit res" where
  "close_fleet units as = ebind (emap (close_model units) (rev as)) (\<lambda>_. Inr ())"

definition closing :: "'f units \<Rightarrow> 'f drive axis list \<Rightarrow> pyexc \<Rightarrow> 'a res" where
  "closing units as e = (case close_fleet units as of Inl e' \<Rightarrow> Inl e' | Inr _ \<Rightarrow> Inl e)"

definition open_fleet ::
  "'f units \<Rightarrow> element \<Rightarrow> string \<Rightarrow> hashes \<Rightarrow> io \<Rightarrow> device list \<Rightarrow> (device \<Rightarrow> stored option) \<Rightarrow> 'f drive fleet res" where
  "open_fleet units doc source_hash hs io devs files =
     (case create_models units doc source_hash devs of
        (Inl e, as) \<Rightarrow> closing units as e
      | (Inr _, as) \<Rightarrow>
          (case fleet_init hs (drive_ops units) io (map (\<lambda>a. (a, files (ax_device a))) as) of
             Inl e \<Rightarrow> closing units as e
           | Inr f \<Rightarrow> Inr f))"

section \<open>The boundary of mixed drives\<close>

definition drive_ok :: "'f drive \<Rightarrow> bool" where
  "drive_ok d = (case d of FKrDrive s \<Rightarrow> sv s | CopleyDrive _ s \<Rightarrow> cp_ok s)"

lemmas on_drive_case = on_drive_def split_def

lemma on_drive_pure:
  "(\<And>s. snd (m s) = s) \<Longrightarrow> (\<And>a s. snd (n a s) = s) \<Longrightarrow> snd (on_drive m n d) = d"
  by (cases d) (simp_all add: on_drive_case)

lemma on_drive_ok:
  "(\<And>s. sv s \<Longrightarrow> sv (snd (m s))) \<Longrightarrow> (\<And>a s. cp_ok s \<Longrightarrow> cp_ok (snd (n a s))) \<Longrightarrow> drive_ok d \<Longrightarrow> drive_ok (snd (on_drive m n d))"
  by (cases d) (simp_all add: on_drive_case drive_ok_def)

interpretation drives: drive_adapter "drive_ops units" drive_ok
  by unfold_locales
    (simp_all add: drive_ops_def on_drive_pure on_drive_ok fkr.read_sdo_pure fkr.read_inputs_pure fkr.od_read_pure fkr.write_sdo_ok
      fkr.apply_outputs_ok copley.read_sdo_pure copley.read_inputs_pure copley.od_read_pure copley.write_sdo_ok copley.apply_outputs_ok)

definition drive_od :: "'f drive \<Rightarrow> VirtualOdModel" where
  "drive_od d = (case d of FKrDrive s \<Rightarrow> sv_od s | CopleyDrive _ s \<Rightarrow> cp_od s)"

definition put_drive_od :: "VirtualOdModel \<Rightarrow> 'f drive \<Rightarrow> 'f drive" where
  "put_drive_od od d = (case d of FKrDrive s \<Rightarrow> FKrDrive (s\<lparr>sv_od := od\<rparr>) | CopleyDrive a s \<Rightarrow> CopleyDrive a (s\<lparr>cp_od := od\<rparr>))"

lemma on_drive_part:
  "on_drive (on_part sv_od (\<lambda>od s. s\<lparr>sv_od := od\<rparr>) m) (\<lambda>a. on_part cp_od (\<lambda>od s. s\<lparr>cp_od := od\<rparr>) m) = on_part drive_od put_drive_od m"
  by (rule ext) (simp add: on_drive_def on_part_def drive_od_def put_drive_od_def split: drive.splits prod.splits)

interpretation drives_store: od_backed "drive_ops units" drive_od put_drive_od
  by unfold_locales
    (simp_all add: drive_ops_def fkr_store.definition_op fkr_store.read_op fkr_store.write_op fkr_store.sdo_op
      copley_store.definition_op copley_store.read_op copley_store.write_op copley_store.sdo_op on_drive_part
      fkr_store.roles_put copley_store.roles_put drive_od_def put_drive_od_def split: drive.splits)

section \<open>Drives of a configuration\<close>

text \<open>
  A usable ESI document: the description of the mode is read from it, its objects have the types that
  the profile expects, every data type has a default, and the command words are numeric.
\<close>

definition esi_supports :: "element \<Rightarrow> string \<Rightarrow> bool" where
  "esi_supports doc mode = (case CmmtAsDescription doc mode of
      Inl _ \<Rightarrow> False
    | Inr d \<Rightarrow> (case CiA402DriveProfile d of
        Inl _ \<Rightarrow> False
      | Inr p \<Rightarrow> validate_catalog_support p = Inr () \<and> defaults_known (prof_catalog p) \<and> numeric_commands (prof_catalog p)))"

lemma catalog_distinct:
  assumes "parse_cmmt_esi_catalog variant doc = Inr c"
  shows "distinct (map fst (object_dictionary_entries c))"
proof -
  have "distinct (map fst (esi_objects c))"
    using parsed_tables [OF assms] parse_objects_agree unfolding tables_agree_def by blast
  moreover have "map fst (object_dictionary_entries c) = map fst (esi_objects c)"
    by (simp add: object_dictionary_entries_def split_def comp_def)
  ultimately show ?thesis by simp
qed

lemma description_profile:
  assumes "CmmtAsDescription doc mode = Inr d"
  shows "\<exists>p. CiA402DriveProfile d = Inr p \<and> servo_profile p \<and> distinct (map fst (prof_catalog p))"
proof -
  obtain c v where c: "parse_cmmt_esi_catalog ''as'' doc = Inr c" "cmmt_parameters mode = Inr v" "cd_catalog d = c" "cd_parameters d = v"
    using assms unfolding CmmtAsDescription_def by (auto simp: ebind_Inr_iff split: if_splits)
  obtain p where "cmmt_profile (object_dictionary_entries c) v = Inr p" "servo_profile p" "prof_catalog p = object_dictionary_entries c"
    using cmmt_profile_serves [OF c(2)] by blast
  then show ?thesis using c catalog_distinct [OF c(1)] by (simp add: CiA402DriveProfile_def)
qed

lemma esi_supportsD:
  assumes "esi_supports doc mode"
  obtains d p where "CmmtAsDescription doc mode = Inr d" "CiA402DriveProfile d = Inr p" "servo_profile p" "supports p"
proof -
  obtain d p where d: "CmmtAsDescription doc mode = Inr d" "CiA402DriveProfile d = Inr p" "validate_catalog_support p = Inr ()"
    "defaults_known (prof_catalog p)" "numeric_commands (prof_catalog p)"
    using assms unfolding esi_supports_def by (auto split: sum.splits)
  moreover obtain q where "CiA402DriveProfile d = Inr q" "servo_profile q" "distinct (map fst (prof_catalog q))"
    using description_profile [OF d(1)] by blast
  ultimately show ?thesis using that by (simp add: supports_def)
qed

lemma create_fkr:
  assumes "device_ok dev" "model_type dev = ''f_kr_cmmt''" "esi_supports doc (model_mode dev)"
  shows "\<exists>idn p s. create_adapter units doc dev = Inr (idn, p, FKrDrive s) \<and> device_profile s = p \<and> sv s"
proof -
  obtain d p where p: "CmmtAsDescription doc (model_mode dev) = Inr d" "CiA402DriveProfile d = Inr p" "servo_profile p" "supports p"
    using esi_supportsD [OF assms(3)] .
  obtain s where s: "fkr_init p = Inr s" using fkr_starts [OF p(3,4)] by blast
  then have "sv s" "device_profile s = p" using fkr_init_ok [OF s p(3)] p(4) by (simp_all add: supports_def)
  then show ?thesis using p s assms(1,2) by (simp add: create_adapter_def device_ok_def)
qed

text \<open>
  A validated configuration lists its devices with distinct names and parameter sets under the slave
  indices from 0 on, and each F-KR device among them gets a drive when the ESI document is usable; after any
  sequence of SDO downloads, process data and cycles of admissible length the next cycle of that drive returns.
\<close>

theorem configured_drives_run:
  assumes "validate_config rsv data base = Inr cfg"
  shows "\<exists>ds. config_devices cfg ds \<and>
    (\<forall>dev \<in> set ds. model_type dev = ''f_kr_cmmt'' \<and> esi_supports doc (model_mode dev) \<longrightarrow>
      (\<exists>idn p s. create_adapter units doc dev = Inr (idn, p, FKrDrive s) \<and>
        (\<forall>as dt. list_all admissible as \<and> dt_ok dt \<longrightarrow> fst (fkr_step dt (fkr_run as s)) = Inr ())))"
proof -
  obtain ds where ds: "config_devices cfg ds" using validated_devices [OF assms] by blast
  have "\<exists>idn p s. create_adapter units doc dev = Inr (idn, p, FKrDrive s) \<and>
        (\<forall>as dt. list_all admissible as \<and> dt_ok dt \<longrightarrow> fst (fkr_step dt (fkr_run as s)) = Inr ())"
    if dev: "dev \<in> set ds" "model_type dev = ''f_kr_cmmt''" "esi_supports doc (model_mode dev)" for dev
  proof -
    have "device_ok dev" using ds dev(1) by (auto simp: config_devices_def list_all_iff)
    from create_fkr [OF this dev(2,3), of units] obtain idn p s
      where s: "create_adapter units doc dev = Inr (idn, p, FKrDrive s)" "sv s" by blast
    then show ?thesis using fkr.step_total [OF fkr_run_keeps] by (simp add: fkr_ops_def)
  qed
  with ds show ?thesis by blast
qed

section \<open>The axes of a fleet\<close>

lemma model_init_device: "model_init ops dev idn h p s = Inr a \<Longrightarrow> ax_device a = dev"
  by (cases "pdo_size (prof_rx p)"; cases "pdo_size (prof_tx p)")
    (auto simp: model_init_def split: prod.split_asm sum.split_asm)

lemma create_models_devices:
  "create_models units doc h devs = (Inr u, as) \<Longrightarrow> map ax_device as = devs"
proof (induction devs arbitrary: as)
  case (Cons dev devs)
  then obtain a bs where a: "create_model units doc h dev = Inr a" "create_models units doc h devs = (Inr u, bs)" "as = a # bs"
    by (auto split: sum.splits prod.splits)
  have "ax_device a = dev" using a(1) model_init_device unfolding create_model_def by (fastforce simp: ebind_Inr_iff)
  then show ?case using Cons.IH [OF a(2)] a(3) by simp
qed simp

lemma load_device: "ax_device (snd (load dg ops snapshot_on_disk a)) = ax_device a"
  by (auto simp: load_def ad_def pym bnd_def split: option.splits prod.splits sum.splits)

lemma save_device: "ax_device (snd (save dg ops io a)) = ax_device a"
  by (auto simp: save_def ad_def pym bnd_def thn_def Let_def split: option.splits prod.splits sum.splits)

lemma load_all_devices: "load_all hs ops axes = Inr ls \<Longrightarrow> map (ax_device \<circ> fst) ls = map (ax_device \<circ> fst) axes"
proof (induction hs ops axes arbitrary: ls rule: load_all.induct)
  case (2 hs ops a snap as)
  then obtain b x bs where b: "run_axis (load (digest hs) ops snap) (attach_store snap a) = Inr (b, x)" "load_all hs ops as = Inr bs" "ls = (b, x) # bs"
    by (auto simp: ebind_Inr_iff)
  have "ax_device b = ax_device a"
    using b(1) load_device [of "digest hs" ops snap "attach_store snap a"]
    by (auto simp: run_axis_def attach_store_def split: prod.splits sum.splits)
  then show ?case using 2 b by simp
qed simp

lemma save_missing_devices: "save_missing hs ops io ls = Inr as \<Longrightarrow> map ax_device as = map (ax_device \<circ> fst) ls"
proof (induction hs ops io ls arbitrary: as rule: save_missing.induct)
  case (2 hs ops io a loaded ls)
  then obtain b x bs where b: "(if loaded then Inr (a, ()) else run_axis (save (digest hs) ops io) a) = Inr (b, x)"
    "save_missing hs ops io ls = Inr bs" "as = b # bs"
    by (fastforce simp: ebind_Inr_iff)
  have "ax_device b = ax_device a"
    using b(1) save_device [of "digest hs" ops io a] by (auto simp: run_axis_def split: prod.splits sum.splits if_splits)
  then show ?case using 2 b by simp
qed simp

lemma closing_raises: "closing units as e \<noteq> Inr f"
  by (simp add: closing_def split: sum.splits)

text \<open>
  The fleet that starts from a validated configuration has one axis per device, in the order of the
  slave indices: the axis that answers requests for a slave index is the device configured with it.
\<close>

theorem fleet_matches_configuration:
  assumes "validate_config rsv data base = Inr cfg"
  shows "\<exists>ds. config_devices cfg ds \<and> (\<forall>f. open_fleet units doc h hs io ds files = Inr f \<longrightarrow>
    map ax_device (models f) = ds \<and> (\<forall>k < length (models f). slave_index (ax_device (models f ! k)) = int k))"
proof -
  obtain ds where ds: "config_devices cfg ds" using validated_devices [OF assms] by blast
  have "map ax_device (models f) = ds" if o: "open_fleet units doc h hs io ds files = Inr f" for f
  proof -
    obtain as where as: "create_models units doc h ds = (Inr (), as)"
      "fleet_init hs (drive_ops units) io (map (\<lambda>a. (a, files (ax_device a))) as) = Inr f"
      using o by (auto simp: open_fleet_def closing_raises split: prod.splits sum.splits)
    obtain ls where "load_all hs (drive_ops units) (map (\<lambda>a. (a, files (ax_device a))) as) = Inr ls"
      "save_missing hs (drive_ops units) io ls = Inr (models f)"
      using as(2) by (auto simp: fleet_init_def ebind_Inr_iff)
    from load_all_devices [OF this(1)] save_missing_devices [OF this(2)] create_models_devices [OF as(1)]
    show ?thesis by (simp add: comp_def)
  qed
  moreover have "slave_index (ax_device (models f ! k)) = int k" if "map ax_device (models f) = ds" "k < length (models f)" for f :: "'a drive fleet" and k
  proof -
    have "map slave_index ds ! k = int k" using ds that by (auto simp: config_devices_def)
    then show ?thesis using that by auto
  qed
  ultimately show ?thesis using ds by blast
qed

end
