(* ===== verification/Startup.thy ===== *)
theory Startup
  imports Registry
begin

text \<open>
  The start of a whole installation: a validated configuration of F-KR devices and a usable ESI document
  give a fleet with one axis per device, each with a snapshot of its parameters.
\<close>

section \<open>Entries that an axis can serve\<close>

text \<open>An entry that an axis describes: a type of the protocol, a size in whole bytes, and a value that its type encodes.\<close>

definition entry_serves :: "VirtualOdEntry \<Rightarrow> bool" where
  "entry_serves e = (let d = ent_definition e in
     map_of TYPES (normalize_od_data_type (def_data_type d)) \<noteq> None \<and> def_bit_size d \<in> {8, 16, 32} \<and>
     \<not> isl (encode_od_value (def_data_type d) (ent_value e) (Some (nat (def_bit_size d div 8)))))"

definition address_serves :: "VirtualOdModel \<Rightarrow> int \<times> int \<Rightarrow> bool" where
  "address_serves od = (\<lambda>(i, k). case look od (storage_key i k) of None \<Rightarrow> False | Some e \<Rightarrow> entry_serves e)"

definition tx_serves :: "VirtualOdModel \<Rightarrow> ObjectDictionaryEntry \<Rightarrow> bool" where
  "tx_serves od e = (case byte_length e of
      Inl _ \<Rightarrow> False
    | Inr n \<Rightarrow> is_padding e \<or> (case od_val od (ode_index e) (ode_subindex e) of
        None \<Rightarrow> False
      | Some v \<Rightarrow> \<not> isl (encode_od_value (ode_data_type e) v (Some (nat n)))))"

definition servable :: "DeviceProfile \<Rightarrow> VirtualOdModel \<Rightarrow> bool" where
  "servable p od \<longleftrightarrow> \<not> isl (pdo_size (prof_rx p)) \<and> \<not> isl (pdo_size (prof_tx p)) \<and>
     list_all (address_serves od) (required_addresses p) \<and> list_all (tx_serves od) (prof_tx p) \<and>
     list_all (address_serves od) (fkr_persistent_roles p)"

lemma mapM_runs:
  "(\<And>x. x \<in> set xs \<Longrightarrow> \<exists>y. f x s = (Inr y, s)) \<Longrightarrow> \<exists>ys. mapM f xs s = (Inr ys, s)"
proof (induction xs)
  case (Cons x xs)
  then obtain ys where "mapM f xs s = (Inr ys, s)" by auto
  moreover obtain y where "f x s = (Inr y, s)" using Cons.prems [of x] by auto
  ultimately show ?case by (simp add: bnd_Inr ret_def)
qed (simp add: ret_def)

context od_backed
begin

lemma served:
  assumes "address_serves (get_od s) (i, k)"
  obtains d raw t where "fst (ad_od_definition ops i k s) = Inr d" "map_of TYPES (normalize_od_data_type (def_data_type d)) = Some t"
    "def_bit_size d \<in> {8, 16, 32}" "fst (ad_read_sdo ops i k (nat (def_bit_size d div 8)) s) = Inr raw"
proof -
  obtain e where e: "look (get_od s) (storage_key i k) = Some e" "entry_serves e"
    using assms by (auto simp: address_serves_def split: option.splits)
  have d: "fst (ad_od_definition ops i k s) = Inr (ent_definition e)"
    using e(1) by (simp add: definition_op on_part_def od_definition_def look_def)
  have v: "fst (ad_od_read ops i k s) = Inr (ent_value e)"
    using e(1) by (simp add: read_op on_part_def od_read_def look_def)
  have "\<not> isl (encode_od_value (def_data_type (ent_definition e)) (ent_value e) (Some (nat (def_bit_size (ent_definition e) div 8))))"
    using e(2) by (simp add: entry_serves_def Let_def)
  then obtain raw where "fst (ad_read_sdo ops i k (nat (def_bit_size (ent_definition e) div 8)) s) = Inr raw"
    using sdo_encodes [OF d v] by (metis sum.collapse(2))
  moreover obtain t where "map_of TYPES (normalize_od_data_type (def_data_type (ent_definition e))) = Some t"
    and "def_bit_size (ent_definition e) \<in> {8, 16, 32}"
    using e(2) unfolding entry_serves_def Let_def by blast
  ultimately show ?thesis using d by (intro that)
qed

lemma axis_entry_runs:
  assumes "address_serves (get_od s) x"
  shows "\<exists>y. axis_entry ops x s = (Inr y, s)"
proof -
  obtain i k where x: "x = (i, k)" by (cases x)
  with assms obtain d raw t where "fst (ad_od_definition ops i k s) = Inr d" "map_of TYPES (normalize_od_data_type (def_data_type d)) = Some t"
    "def_bit_size d \<in> {8, 16, 32}" "fst (ad_read_sdo ops i k (nat (def_bit_size d div 8)) s) = Inr raw"
    using served by blast
  then show ?thesis unfolding x axis_entry_def Let_def prod.case bnd_definition by (simp only: sum.case option.case simp_thms if_False bnd_sdo) (simp add: ret_def)
qed

lemma value_runs:
  assumes "address_serves (get_od s) x"
  shows "\<exists>y. parameter_value ops x s = (Inr y, s)"
proof -
  obtain i k where x: "x = (i, k)" by (cases x)
  with assms obtain d raw where "fst (ad_od_definition ops i k s) = Inr d" "fst (ad_read_sdo ops i k (nat (def_bit_size d div 8)) s) = Inr raw"
    using served by blast
  then show ?thesis by (simp add: x parameter_value_def bnd_definition bnd_sdo ret_def)
qed

lemma entries_run: "list_all (address_serves (get_od s)) xs \<Longrightarrow> \<exists>ys. mapM (axis_entry ops) xs s = (Inr ys, s)"
  using axis_entry_runs by (intro mapM_runs) (simp add: list_all_iff)

lemma values_exist:
  "list_all (address_serves (get_od s)) (ad_persistent_roles ops s) \<Longrightarrow> \<exists>ys. parameter_values ops s = (Inr ys, s)"
proof -
  assume "list_all (address_serves (get_od s)) (ad_persistent_roles ops s)"
  then obtain ys where "mapM (parameter_value ops) (ad_persistent_roles ops s) s = (Inr ys, s)"
    using mapM_runs [of "ad_persistent_roles ops s" "parameter_value ops" s] value_runs unfolding list_all_iff by blast
  then show ?thesis by (simp add: values_run)
qed

end

lemma tx_served: "list_all (tx_serves od) es \<Longrightarrow> \<exists>raw. tx_loop acc es od = (Inr raw, od)"
proof (induction es arbitrary: acc)
  case (Cons e es)
  then obtain n where n: "byte_length e = Inr n" by (auto simp: tx_serves_def split: sum.splits)
  show ?case
  proof (cases "is_padding e")
    case True
    then show ?thesis using Cons n by (simp add: bnd_lift)
  next
    case False
    then obtain v raw where "od_val od (ode_index e) (ode_subindex e) = Some v" "encode_od_value (ode_data_type e) v (Some (nat n)) = Inr raw"
      using Cons.prems n by (auto simp: tx_serves_def split: option.splits) (metis sum.collapse(2))
    then show ?thesis using Cons False n by (simp add: bnd_lift bnd_Inr od_read_some)
  qed
qed (simp add: ret_def)

section \<open>Creating an axis\<close>

lemma fkr_init_od: "fkr_init p = Inr s \<Longrightarrow> ConfiguredObjectDictionary p = Inr (sv_od s)"
  by (auto simp: fkr_init_def servo_init_def ebind_Inr_iff)

definition esi_serves :: "element \<Rightarrow> string \<Rightarrow> bool" where
  "esi_serves doc mode \<longleftrightarrow> esi_supports doc mode \<and>
     (case ebind (CmmtAsDescription doc mode) CiA402DriveProfile of
        Inl _ \<Rightarrow> False
      | Inr p \<Rightarrow> (case ConfiguredObjectDictionary p of Inl _ \<Rightarrow> False | Inr od \<Rightarrow> servable p od))"

text \<open>An axis whose drive runs and whose parameters can be saved.\<close>

definition startable :: "'f units \<Rightarrow> 'f drive axis \<Rightarrow> bool" where
  "startable units a \<longleftrightarrow> drive_ok (ax_adapter a) \<and> ad_validate_parameters (drive_ops units) (ax_adapter a) = None \<and>
     (\<exists>ys. parameter_values (drive_ops units) (ax_adapter a) = (Inr ys, ax_adapter a))"

lemma model_starts:
  assumes "servable p (sv_od s)" "device_profile s = p" "sv s"
  shows "\<exists>a. model_init (drive_ops units) dev idn h p (FKrDrive s) = Inr a \<and> ax_device a = dev \<and> startable units a"
proof -
  have od: "drive_od (FKrDrive s :: 'a drive) = sv_od s" by (simp add: drive_od_def)
  obtain n m where nm: "pdo_size (prof_rx p) = Inr n" "pdo_size (prof_tx p) = Inr m"
    using assms(1) unfolding servable_def by (metis sum.collapse(2))
  obtain es where es: "mapM (axis_entry (drive_ops units)) (required_addresses p) (FKrDrive s) = (Inr es, FKrDrive s)"
    using drives_store.entries_run [of "FKrDrive s" "required_addresses p" units] assms(1) by (auto simp: servable_def od)
  obtain raw where raw: "ad_read_inputs (drive_ops units) (FKrDrive s) = (Inr raw, FKrDrive s)"
    using tx_served [of "sv_od s" "prof_tx p" "[]"] assms(1,2)
    by (auto simp: servable_def drive_ops_def on_drive_def fkr_ops_def fkr_read_inputs_def od_op_def od_to_txpdo_payload_def pym bnd_def)
  have roles: "ad_persistent_roles (drive_ops units) (FKrDrive s) = fkr_persistent_roles p"
    "ad_validate_parameters (drive_ops units) (FKrDrive s) = None"
    by (simp_all add: drive_ops_def fkr_ops_def assms(2))
  obtain ys where "parameter_values (drive_ops units) (FKrDrive s) = (Inr ys, FKrDrive s)"
    using drives_store.values_exist [of "FKrDrive s" units] assms(1) by (auto simp: servable_def od roles)
  then show ?thesis
    using nm es raw roles assms(3) by (simp add: model_init_def startable_def drive_ok_def)
qed

lemma axis_starts:
  assumes "device_ok dev" "model_type dev = ''f_kr_cmmt''" "esi_serves doc (model_mode dev)"
  shows "\<exists>a. create_model units doc h dev = Inr a \<and> ax_device a = dev \<and> startable units a"
proof -
  obtain d p where p: "CmmtAsDescription doc (model_mode dev) = Inr d" "CiA402DriveProfile d = Inr p" "servo_profile p" "supports p"
    using assms(3) esi_supportsD [of doc "model_mode dev"] unfolding esi_serves_def by blast
  obtain s where s: "fkr_init p = Inr s" using fkr_starts [OF p(3,4)] by blast
  then have "sv s" "device_profile s = p" using fkr_init_ok [OF s p(3)] p(4) by (simp_all add: supports_def)
  moreover have "servable p (sv_od s)" using assms(3) p(1,2) fkr_init_od [OF s] by (simp add: esi_serves_def)
  ultimately obtain a where "model_init (drive_ops units) dev (description_identity d) h p (FKrDrive s) = Inr a" "ax_device a = dev" "startable units a"
    using model_starts [of p s units dev "description_identity d" h] by blast
  then show ?thesis using p s assms(1,2) by (simp add: create_model_def create_adapter_def device_ok_def)
qed

lemma models_start:
  assumes "list_all device_ok ds" "list_all (\<lambda>dev. model_type dev = ''f_kr_cmmt'' \<and> esi_serves doc (model_mode dev)) ds"
  shows "\<exists>as. create_models units doc h ds = (Inr (), as) \<and> map ax_device as = ds \<and> list_all (startable units) as"
  using assms
proof (induction ds)
  case (Cons dev ds)
  then obtain as where "create_models units doc h ds = (Inr (), as)" "map ax_device as = ds" "list_all (startable units) as" by auto
  moreover obtain a where "create_model units doc h dev = Inr a" "ax_device a = dev" "startable units a"
    using axis_starts [of dev doc units h] Cons.prems by auto
  ultimately show ?case by simp
qed simp

section \<open>The fleet\<close>

lemma startable_saves:
  assumes "startable units a"
  shows "\<exists>b. save dg (drive_ops units) None (attach_store None a) = (Inr (), b) \<and> ax_device b = ax_device a \<and>
    ax_adapter b = ax_adapter a \<and> ax_file b \<noteq> None"
  using assms
  by (auto simp: startable_def attach_store_def save_def save_checks_def ad_def on_part_def pym bnd_def thn_def Let_def)

definition started :: "'f drive axis \<Rightarrow> bool" where
  "started a \<longleftrightarrow> drive_ok (ax_adapter a) \<and> ax_file a \<noteq> None"

lemma fleet_init_starts:
  assumes "list_all (startable units) as"
  shows "\<exists>f. fleet_init hs (drive_ops units) None (map (\<lambda>a. (a, None)) as) = Inr f \<and>
    map ax_device (models f) = map ax_device as \<and> list_all started (models f)"
proof -
  have l: "load_all hs (drive_ops units) (map (\<lambda>a. (a, None)) as) = Inr (map (\<lambda>a. (attach_store None a, False)) as)"
    by (induction as) (simp_all add: load_def run_axis_def ret_def)
  have "\<exists>bs. save_missing hs (drive_ops units) None (map (\<lambda>a. (attach_store None a, False)) as) = Inr bs \<and>
      map ax_device bs = map ax_device as \<and> list_all started bs"
    using assms
  proof (induction as)
    case (Cons a as)
    then obtain bs where "save_missing hs (drive_ops units) None (map (\<lambda>a. (attach_store None a, False)) as) = Inr bs"
      "map ax_device bs = map ax_device as" "list_all started bs" by auto
    moreover obtain b where "save (digest hs) (drive_ops units) None (attach_store None a) = (Inr (), b)"
      "ax_device b = ax_device a" "ax_adapter b = ax_adapter a" "ax_file b \<noteq> None"
      using startable_saves [of units a "digest hs"] Cons.prems by auto
    moreover from this have "started b" using Cons.prems by (simp add: started_def startable_def)
    ultimately show ?case by (simp add: run_axis_def)
  qed simp
  then show ?thesis using l by (auto simp: fleet_init_def)
qed

text \<open>
  C31. A validated configuration of F-KR devices starts when the ESI document can serve it and no
  parameters are stored yet: there is one axis per device, in the order of the slave indices, each
  with a working drive and with a snapshot of its parameters.
\<close>

theorem installation_starts:
  assumes "validate_config rsv data base = Inr cfg"
  shows "\<exists>ds. config_devices cfg ds \<and>
    (list_all (\<lambda>dev. model_type dev = ''f_kr_cmmt'' \<and> esi_serves doc (model_mode dev)) ds \<longrightarrow>
      (\<exists>f. open_fleet units doc h hs None ds (\<lambda>_. None) = Inr f \<and> map ax_device (models f) = ds \<and> list_all started (models f)))"
proof -
  obtain ds where ds: "config_devices cfg ds" using validated_devices [OF assms] by blast
  have "\<exists>f. open_fleet units doc h hs None ds (\<lambda>_. None) = Inr f \<and> map ax_device (models f) = ds \<and> list_all started (models f)"
    if f: "list_all (\<lambda>dev. model_type dev = ''f_kr_cmmt'' \<and> esi_serves doc (model_mode dev)) ds"
  proof -
    obtain as where as: "create_models units doc h ds = (Inr (), as)" "map ax_device as = ds" "list_all (startable units) as"
      using models_start [OF _ f, of units h] ds by (auto simp: config_devices_def)
    then show ?thesis using fleet_init_starts [OF as(3), of hs] by (auto simp: open_fleet_def)
  qed
  with ds show ?thesis by blast
qed

end
