(* ===== verification/Numerals.thy ===== *)
theory Numerals
  imports Catalog
begin

text \<open>
  Numbers as text: the decimal and hexadecimal formats of f-strings that the generated descriptions use
  (\<open>str\<close>, \<open>04X\<close>, \<open>08X\<close>), and that the parser of the ESI catalog reads them back.
\<close>

definition hex_upper_digit :: "nat \<Rightarrow> char" where
  "hex_upper_digit n = (if n < 10 then char_of (48 + n) else char_of (55 + n))"

fun nat_hex :: "nat \<Rightarrow> string" where
  "nat_hex n = (if n < 16 then [hex_upper_digit n] else nat_hex (n div 16) @ [hex_upper_digit (n mod 16)])"

declare nat_hex.simps [simp del]

text \<open>The format \<open>0wX\<close>.\<close>

definition format_X :: "nat \<Rightarrow> int \<Rightarrow> string" where
  "format_X w v = (if v < 0 then CHR ''-'' # zero_fill (w - 1) (nat_hex (nat (- v))) else zero_fill w (nat_hex (nat v)))"

section \<open>Digits\<close>

lemma digits_val_snoc:
  assumes "digits_val b p a s = Some v" "digit_val c = Some d" "d < b" "c \<noteq> CHR ''_''"
  shows "digits_val b p a (s @ [c]) = Some (int b * v + int d)"
  using assms(1)
proof (induction s arbitrary: p a)
  case Nil
  then show ?case using assms by (auto split: if_splits)
next
  case (Cons x s)
  then show ?case using assms by (auto split: if_splits option.splits)
qed

lemma decimal_digit:
  assumes "n < 10"
  shows "digit_val (char_of (48 + n)) = Some n" "char_of (48 + n) \<notin> set ''_-+xXoObB#''" "\<not> is_space (char_of (48 + n))"
    "lower_char (char_of (48 + n)) = char_of (48 + n)"
proof -
  have v: "of_char (char_of (48 + n) :: char) = 48 + n" using assms by simp
  have "char_of (48 + n) \<noteq> c" if "of_char c \<notin> {48..57 :: nat}" for c
    using that v assms by auto
  then show "char_of (48 + n) \<notin> set ''_-+xXoObB#''" by auto
  show "digit_val (char_of (48 + n)) = Some n" "\<not> is_space (char_of (48 + n))" 
    "lower_char (char_of (48 + n)) = char_of (48 + n)"
    using v assms by (simp_all add: digit_val_def is_space_def lower_char_def Let_def)
qed

lemma hex_upper_facts:
  assumes "n < 16"
  shows "digit_val (hex_upper_digit n) = Some n" "hex_upper_digit n \<notin> set ''_-+xX#''" "\<not> is_space (hex_upper_digit n)"
    "lower_char (hex_upper_digit n) \<noteq> CHR ''x''"
proof -
  have v: "of_char (hex_upper_digit n) = (if n < 10 then 48 + n else 55 + n)" using assms by (simp add: hex_upper_digit_def)
  have ne: "hex_upper_digit n \<noteq> c" if "of_char c \<notin> {48..57} \<union> {65..70 :: nat}" for c
    using that v assms by (cases "n < 10") auto
  show "hex_upper_digit n \<notin> set ''_-+xX#''" using ne by auto
  show "digit_val (hex_upper_digit n) = Some n" "\<not> is_space (hex_upper_digit n)"
    using v assms by (auto simp: digit_val_def is_space_def Let_def)
  have "of_char (lower_char (hex_upper_digit n)) = (if n < 10 then 48 + n else 87 + n)"
    using v assms by (simp add: lower_char_def Let_def)
  then show "lower_char (hex_upper_digit n) \<noteq> CHR ''x''" using assms by (auto split: if_splits)
qed

lemma digits_val_decimal: "digits_val 10 False 0 (nat_digits n) = Some (int n)"
proof (induction n rule: nat_digits.induct)
  case (1 n)
  show ?case
  proof (cases "n < 10")
    case True
    then show ?thesis using decimal_digit [OF True] by (simp add: nat_digits.simps [of n])
  next
    case False
    then have "digits_val 10 False 0 (nat_digits (n div 10) @ [char_of (48 + n mod 10)]) = Some (int 10 * int (n div 10) + int (n mod 10))"
      using 1 decimal_digit [of "n mod 10"] by (intro digits_val_snoc) auto
    moreover have "10 * int (n div 10) + int (n mod 10) = int n" by presburger
    ultimately show ?thesis using False by (simp add: nat_digits.simps [of n])
  qed
qed

lemma digits_val_hex: "digits_val 16 False 0 (nat_hex n) = Some (int n)"
proof (induction n rule: nat_hex.induct)
  case (1 n)
  show ?case
  proof (cases "n < 16")
    case True
    then show ?thesis using hex_upper_facts [OF True] by (simp add: nat_hex.simps [of n])
  next
    case False
    then have "digits_val 16 False 0 (nat_hex (n div 16) @ [hex_upper_digit (n mod 16)]) = Some (int 16 * int (n div 16) + int (n mod 16))"
      using 1 hex_upper_facts [of "n mod 16"] by (intro digits_val_snoc) auto
    moreover have "16 * int (n div 16) + int (n mod 16) = int n" by presburger
    ultimately show ?thesis using False by (simp add: nat_hex.simps [of n])
  qed
qed

section \<open>Reading numbers back\<close>

lemma digits_val_zeros:
  assumes "digits_val b False 0 s = Some v" "0 < b"
  shows "digits_val b False 0 (replicate k CHR ''0'' @ s) = Some v"
proof -
  obtain c cs where s: "s = c # cs" "c \<noteq> CHR ''_''" using assms by (cases s) (auto split: if_splits)
  have z: "digit_val CHR ''0'' = Some 0" by code_simp
  have "digits_val b p 0 (replicate k CHR ''0'' @ s) = digits_val b (p \<or> 0 < k) 0 s" for p
    using assms(2) z by (induction k arbitrary: p) (simp_all split: if_splits)
  moreover have "digits_val b True 0 s = digits_val b False 0 s" using s by simp
  ultimately show ?thesis using assms(1) by (cases "0 < k") simp_all
qed

lemma set_nat_digits: "c \<in> set (nat_digits n) \<Longrightarrow> \<exists>d < 10 :: nat. c = char_of (48 + d)"
proof (induction n rule: nat_digits.induct)
  case (1 n)
  then show ?case
    by (cases "n < 10") (auto simp: nat_digits.simps [of n] intro: exI [of _ n] exI [of _ "n mod 10"])
qed

lemma set_nat_hex: "c \<in> set (nat_hex n) \<Longrightarrow> \<exists>d < 16. c = hex_upper_digit d"
proof (induction n rule: nat_hex.induct)
  case (1 n)
  then show ?case
    by (cases "n < 16") (auto simp: nat_hex.simps [of n] intro: exI [of _ n] exI [of _ "n mod 16"])
qed

lemma nat_digits_Cons: "\<exists>c cs. nat_digits n = c # cs"
  by (subst nat_digits.simps) (auto simp: neq_Nil_conv [symmetric])

lemma nat_digits_head: "0 < n \<Longrightarrow> \<not> startswith (nat_digits n) ''0''"
proof (induction n rule: nat_digits.induct)
  case (1 n)
  have z: "char_of (48 + d) = CHR ''0'' \<longleftrightarrow> d = 0" if "d < 10" for d :: nat
  proof -
    have "of_char (char_of (48 + d) :: char) = 48 + d" using that by simp
    moreover have "(of_char CHR ''0'' :: nat) = 48" by code_simp
    ultimately have "char_of (48 + d) = CHR ''0'' \<Longrightarrow> d = 0" by simp
    moreover have "char_of (48 + 0 :: nat) = CHR ''0''" by code_simp
    ultimately show ?thesis by auto
  qed
  show ?case
  proof (cases "n < 10")
    case True
    then show ?thesis using 1 z [of n] by (simp add: nat_digits.simps [of n] startswith_def)
  next
    case False
    then have "\<not> startswith (nat_digits (n div 10)) ''0''" using 1 by simp
    moreover obtain c cs where "nat_digits (n div 10) = c # cs" using nat_digits_Cons by blast
    ultimately show ?thesis using False by (simp add: nat_digits.simps [of n] startswith_def)
  qed
qed

lemma parse_str_of_int: "0 \<le> v \<Longrightarrow> parse_int (str_of_int v) = Inr v"
proof -
  assume "0 \<le> v"
  define s where "s = nat_digits (nat v)"
  have sv: "str_of_int v = s" using \<open>0 \<le> v\<close> by (simp add: str_of_int_def s_def)
  have dg: "c \<notin> set ''_-+xXoObB#'' \<and> \<not> is_space c \<and> lower_char c = c" if "c \<in> set s" for c
    using set_nat_digits [of c "nat v"] that decimal_digit unfolding s_def by fastforce
  have st: "strip s = s" using dg by (intro strip_id) blast
  obtain c cs where c: "s = c # cs" using nat_digits_Cons s_def by blast
  have l: "lower t = t" if "set t \<subseteq> set s" for t using that dg unfolding lower_def by (intro map_idI) blast
  have "lower s = s" by (rule l) simp
  then have "\<not> startswith (lower s) ''#x''" using dg [of c] c by (simp add: startswith_def)
  moreover have "strip_sign s = (False, s)" using dg [of c] c by simp
  moreover have "lower (take 2 s) = take 2 s" by (rule l) (rule set_take_subset)
  then have "lower (take 2 s) \<notin> {''0x'', ''0o'', ''0b''}"
    using dg c by (cases cs) auto
  moreover have "digits_val 10 False 0 s = Some v" using digits_val_decimal [of "nat v"] \<open>0 \<le> v\<close> by (simp add: s_def)
  moreover have "\<not> (v \<noteq> 0 \<and> startswith s ''0'')" using nat_digits_head [of "nat v"] \<open>0 \<le> v\<close> s_def by auto
  ultimately show ?thesis using st c by (simp add: sv parse_int_def int_of_str_def unsigned_val_def Let_def)
qed

lemma parse_format_X: "0 \<le> v \<Longrightarrow> parse_int (''#x'' @ format_X w v) = Inr v"
proof -
  assume v: "0 \<le> v"
  define s where "s = format_X w v"
  have s: "s = replicate (w - length (nat_hex (nat v))) CHR ''0'' @ nat_hex (nat v)"
    using v by (simp add: s_def format_X_def zero_fill_def)
  have z: "CHR ''0'' = hex_upper_digit 0" by code_simp
  have "\<exists>d < 16. c = hex_upper_digit d" if "c \<in> set s" for c
    using that set_nat_hex [of c "nat v"] z by (auto simp: s intro: exI [of _ 0])
  then have dg: "c \<notin> set ''_-+xX#'' \<and> \<not> is_space c \<and> lower_char c \<noteq> CHR ''x''" if "c \<in> set s" for c
    using that hex_upper_facts by metis
  have st: "strip s = s" using dg by (intro strip_id) blast
  have "\<not> is_space CHR ''#''" "\<not> is_space CHR ''x''" by code_simp+
  then have st2: "strip (''#x'' @ s) = ''#x'' @ s" using dg by (intro strip_id) auto
  have ls: "lower (''#x'' @ s) = ''#x'' @ lower s" unfolding lower_def by simp code_simp
  have dv: "digits_val 16 False 0 s = Some v"
    using digits_val_zeros [OF digits_val_hex [of "nat v"]] v by (simp add: s)
  then obtain c cs where c: "s = c # cs" by (cases s) auto
  have "strip_sign s = (False, s)" using dg [of c] c by simp
  moreover have "lower (take 2 s) \<noteq> ''0x''" using dg c by (cases cs) (auto simp: lower_def)
  ultimately have "int_of_str 16 s = Inr v" using dv st by (simp add: int_of_str_def unsigned_val_def Let_def)
  then show ?thesis using st2 ls by (simp add: parse_int_def Let_def startswith_def flip: s_def)
qed

end
