(* ===== verification/Fixture.thy ===== *)
theory Fixture
  imports Numerals Axis
begin

text \<open>
  The generated device description (device_descriptions/cmmt_as/fixture.py): an ESI element tree for the
  contract of an axis, with the communication objects, the objects of the contract and the process data.
  The tree is what is built in memory; indenting and writing the files are left out.
\<close>

unbundle bit_operations_syntax

section \<open>Building the tree\<close>

definition leaf :: "string \<Rightarrow> string \<Rightarrow> element" where
  "leaf n t = Element n [] t '''' []"

definition node :: "string \<Rightarrow> element list \<Rightarrow> element" where
  "node n cs = Element n [] '''' '''' cs"

definition fx_value :: "int \<Rightarrow> int \<Rightarrow> string \<Rightarrow> string \<Rightarrow> int \<Rightarrow> int \<Rightarrow> od_entry res" where
  "fx_value index sub name typ bits number =
     ebind (to_bytes False (nat (bits div 8)) number) (\<lambda>b.
     Inr \<lparr>en_index = index, en_subindex = sub, en_name = name, en_type = typ, en_bits = bits, en_access = ''ro'',
          en_initial = hex b\<rparr>)"

type_synonym groups = "(int \<times> od_entry list) list"

definition group_entries :: "od_entry list \<Rightarrow> groups" where
  "group_entries es = foldl (\<lambda>d e. append_at (en_index e) e d) [] es"

definition mapping_value :: "pdo_field \<Rightarrow> int" where
  "mapping_value e = push_bit 16 (pf_index e) OR push_bit 8 (pf_subindex e) OR pf_bits e"

definition pdo_groups :: "int \<Rightarrow> int \<Rightarrow> pdo_field list \<Rightarrow> groups \<Rightarrow> groups res" where
  "pdo_groups index assignment pdos groups =
     ebind (fx_value index 0 ''Count'' ''USINT'' 8 (int (length pdos))) (\<lambda>count.
     ebind (emap (\<lambda>(k, e). fx_value index (int k) (''Mapping '' @ str_of_int (int k)) ''UDINT'' 32 (mapping_value e))
       (enumerate 1 pdos)) (\<lambda>mappings.
     ebind (fx_value assignment 0 ''Count'' ''USINT'' 8 1) (\<lambda>one.
     ebind (fx_value assignment 1 ''PDO'' ''UINT'' 16 index) (\<lambda>pdo.
     Inr (AList.update assignment [one, pdo] (AList.update index (count # mappings) groups))))))"

definition fixture_groups :: "contract \<Rightarrow> groups res" where
  "fixture_groups spec =
     ebind (fx_value 0x1000 0 ''Device type'' ''UDINT'' 32 402) (\<lambda>device_type.
     ebind (fx_value 0x1018 0 ''Count'' ''USINT'' 8 4) (\<lambda>count.
     ebind (emap (\<lambda>(i, n, v). fx_value 0x1018 i n ''UDINT'' 32 v)
       [(1, ''Vendor'', id_vendor (ct_identity spec)), (2, ''Product'', id_product (ct_identity spec)),
        (3, ''Revision'', id_revision (ct_identity spec)), (4, ''Serial'', 1)]) (\<lambda>identity.
     ebind (emap (\<lambda>(i, v). fx_value 0x1c00 (int i) (''SM'' @ str_of_int (int i)) ''USINT'' 8 v)
       (enumerate 0 [4, 1, 2, 3, 4])) (\<lambda>managers.
     ebind (pdo_groups 0x1600 0x1c12 (ct_rx spec)
       (AList.update 0x1c00 managers (AList.update 0x1018 (count # identity)
         (AList.update 0x1000 [device_type] (group_entries (ct_entries spec)))))) (\<lambda>groups.
     pdo_groups 0x1a00 0x1c13 (ct_tx spec) groups)))))"

section \<open>Objects\<close>

definition access_or_ro :: "od_entry \<Rightarrow> string" where
  "access_or_ro e = or_else (en_access e) ''ro''"

definition sub_label :: "od_entry \<Rightarrow> string" where
  "sub_label e = ''Sub '' @ str_of_int (en_subindex e) @ '' '' @ en_name e"

definition fixture_subitem :: "int \<Rightarrow> od_entry \<Rightarrow> element" where
  "fixture_subitem offset e = node ''SubItem''
     [leaf ''SubIdx'' (str_of_int (en_subindex e)), leaf ''Name'' (sub_label e), leaf ''Type'' (en_type e),
      leaf ''BitSize'' (str_of_int (en_bits e)), leaf ''BitOffs'' (str_of_int offset),
      node ''Flags'' [leaf ''Access'' (access_or_ro e)]]"

fun fixture_subitems :: "int \<Rightarrow> od_entry list \<Rightarrow> element list" where
  "fixture_subitems offset [] = []"
| "fixture_subitems offset (e # es) =
     fixture_subitem offset e # fixture_subitems (if en_subindex e = 0 then 16 else offset + en_bits e) es"

definition fixture_default :: "od_entry \<Rightarrow> element" where
  "fixture_default e = node ''SubItem'' [leaf ''Name'' (sub_label e), node ''Info'' [leaf ''DefaultData'' (en_initial e)]]"

definition object_head :: "int \<Rightarrow> string \<Rightarrow> int \<Rightarrow> element list" where
  "object_head index typ bits =
     [leaf ''Index'' (''#x'' @ format_X 4 index), leaf ''Name'' (''Simulator object '' @ format_X 4 index),
      leaf ''Type'' typ, leaf ''BitSize'' (str_of_int bits)]"

text \<open>The sub-items of a structured object; a missing count is added in front.\<close>

definition with_count :: "int \<Rightarrow> od_entry list \<Rightarrow> od_entry list res" where
  "with_count index es =
     (if en_subindex (hd es) \<noteq> 0
      then ebind (fx_value index 0 ''Count'' ''USINT'' 8 (Max (set (map en_subindex es)))) (\<lambda>c. Inr (c # es))
      else Inr es)"

definition type_label :: "int \<Rightarrow> string" where
  "type_label index = ''SIM_'' @ format_X 4 index"

definition total_bits :: "od_entry list \<Rightarrow> int" where
  "total_bits es = 16 + sum_list (map en_bits (tl es))"

text \<open>The element of an object and the data types it needs.\<close>

definition fixture_object :: "int \<Rightarrow> od_entry list \<Rightarrow> (element \<times> element list) res" where
  "fixture_object index grp =
     (let es = sort_key en_subindex grp in
      if length es = 1 \<and> en_subindex (hd es) = 0 then
        (let e = hd es in
         Inr (node ''Object'' (object_head index (en_type e) (en_bits e) @
           [node ''Info'' [leaf ''DefaultData'' (en_initial e)], node ''Flags'' [leaf ''Access'' (access_or_ro e)]]), []))
      else
        ebind (with_count index es) (\<lambda>es.
        Inr (node ''Object'' (object_head index (type_label index) (total_bits es) @
               [node ''Info'' (map fixture_default es)]),
             [node ''DataType'' ([leaf ''Name'' (type_label index), leaf ''BitSize'' (str_of_int (total_bits es))] @
               fixture_subitems 0 es)])))"

definition base_types :: "element list" where
  "base_types = map (\<lambda>(name, bits). node ''DataType'' [leaf ''Name'' name, leaf ''BitSize'' (str_of_int bits)])
     [(''USINT'', 8), (''SINT'', 8), (''UINT'', 16), (''INT'', 16), (''UDINT'', 32), (''DINT'', 32), (''REAL'', 32)]"

section \<open>The device\<close>

definition fixture_sm :: "string \<times> int \<times> int \<times> int \<Rightarrow> element" where
  "fixture_sm = (\<lambda>(name, size, address, control). Element ''Sm''
     [(''DefaultSize'', str_of_int size), (''StartAddress'', ''#x'' @ format_X 4 address),
      (''ControlByte'', ''#x'' @ format_X 2 control), (''Enable'', ''1'')] name '''' [])"

definition fixture_entry :: "pdo_field \<Rightarrow> element" where
  "fixture_entry e = node ''Entry''
     [leaf ''Index'' (''#x'' @ format_X 4 (pf_index e)), leaf ''SubIndex'' (str_of_int (pf_subindex e)),
      leaf ''BitLen'' (str_of_int (pf_bits e)), leaf ''Name'' (pf_name e), leaf ''DataType'' (pf_type e)]"

definition fixture_pdo :: "string \<Rightarrow> pdo_field list \<Rightarrow> int \<Rightarrow> int \<Rightarrow> element" where
  "fixture_pdo t pdos index manager = Element t [(''Fixed'', ''1''), (''Mandatory'', ''1''), (''Sm'', str_of_int manager)] '''' ''''
     ([leaf ''Index'' (''#x'' @ format_X 4 index), leaf ''Name'' t] @ map fixture_entry pdos)"

definition fixture_device :: "contract \<Rightarrow> (element \<times> element list) list \<Rightarrow> element" where
  "fixture_device spec objects = Element ''Device'' [(''Physics'', ''YY'')] '''' ''''
     ([Element ''Type'' [(''ProductCode'', ''#x'' @ format_X 8 (id_product (ct_identity spec))),
          (''RevisionNo'', ''#x'' @ format_X 8 (id_revision (ct_identity spec)))] ''CMMT_AS_SIM'' '''' [],
       leaf ''Name'' ''CMMT-AS software model (limited test fixture)'', leaf ''GroupType'' ''CMMT_SIM'',
       node ''Profile'' [leaf ''ProfileNo'' (str_of_int 402),
         node ''Dictionary'' [node ''DataTypes'' (base_types @ concat (map snd objects)),
           node ''Objects'' (map fst objects)]],
       leaf ''Fmmu'' ''Outputs'', leaf ''Fmmu'' ''Inputs''] @
      map fixture_sm [(''MBoxOut'', 128, 0x1000, 0x26), (''MBoxIn'', 128, 0x1400, 0x22),
        (''Outputs'', ct_rx_size spec, 0x1800, 0x64), (''Inputs'', ct_tx_size spec, 0x1c00, 0x20)] @
      [fixture_pdo ''RxPdo'' (ct_rx spec) 0x1600 2, fixture_pdo ''TxPdo'' (ct_tx spec) 0x1a00 3,
       Element ''Mailbox'' [(''DataLinkLayer'', ''true'')] '''' ''''
         [Element ''CoE'' [(''SdoInfo'', ''true''), (''CompleteAccess'', ''true''), (''PdoAssign'', ''false''),
            (''PdoConfig'', ''false'')] '''' '''' []],
       node ''Eeprom'' [leaf ''ByteSize'' (str_of_int 2048), leaf ''ConfigData'' ''8002006EFF00FF000000'']])"

definition fixture_document :: "contract \<Rightarrow> (element \<times> element list) list \<Rightarrow> element" where
  "fixture_document spec objects = Element ''EtherCATInfo'' [(''Version'', ''1.6'')] '''' ''''
     [node ''Vendor'' [leaf ''Id'' (''#x'' @ format_X 8 (id_vendor (ct_identity spec))),
        leaf ''Name'' ''Festo identity - simulation test fixture''],
      node ''Descriptions'' [node ''Groups'' [node ''Group'' [leaf ''Type'' ''CMMT_SIM'', leaf ''Name'' ''CMMT simulation'']],
        node ''Devices'' [fixture_device spec objects]]]"

definition generate_fixture :: "contract \<Rightarrow> element res" where
  "generate_fixture spec =
     ebind (fixture_groups spec) (\<lambda>groups.
     ebind (emap (\<lambda>(index, grp). fixture_object index grp) (sort_key fst groups)) (\<lambda>objects.
     Inr (fixture_document spec objects)))"

section \<open>Finding elements\<close>

definition found :: "string \<Rightarrow> element \<Rightarrow> element list" where
  "found t e = filter (\<lambda>c. etag c = t) (subtree e)"

lemma found_Element [simp]:
  "found t (Element n a x l cs) = (if n = t then [Element n a x l cs] else []) @ concat (map (found t) cs)"
  by (simp add: found_def [abs_def] filter_concat o_def)

lemma descendants_found: "descendants t e = concat (map (found t) (kids e))"
  by (simp add: descendants_def found_def [abs_def] filter_concat o_def)

lemmas tree_defs = leaf_def node_def children_def child_def children2_def descendants_found

lemma xml_text_leaf [simp]: "xml_text (Some (Element n a t l [])) = strip t"
  by (simp add: xml_text_def)

text \<open>The tags that the parser looks for at any depth.\<close>

definition deep_tags :: "string set" where
  "deep_tags = {''Device'', ''DataType'', ''Object''}"

lemma found_subitems: "t \<in> deep_tags \<Longrightarrow> x \<in> set (fixture_subitems k es) \<Longrightarrow> found t x = []"
  by (induction es arbitrary: k) (auto simp: fixture_subitem_def tree_defs deep_tags_def)

lemma found_default: "t \<in> deep_tags \<Longrightarrow> found t (fixture_default e) = []"
  by (auto simp: fixture_default_def tree_defs deep_tags_def)

lemma found_sm: "t \<in> deep_tags \<Longrightarrow> found t (fixture_sm x) = []"
  by (cases x) (auto simp: fixture_sm_def deep_tags_def)

lemma found_base_types: "concat (map (found ''DataType'') base_types) = base_types"
    "t \<in> deep_tags - {''DataType''} \<Longrightarrow> x \<in> set base_types \<Longrightarrow> found t x = []"
  by (auto simp: base_types_def tree_defs deep_tags_def)

section \<open>Parsing the data types back\<close>

definition base_type_names :: "string list" where
  "base_type_names = [''USINT'', ''SINT'', ''UINT'', ''INT'', ''UDINT'', ''DINT'', ''REAL'']"

text \<open>An entry that the tree can hold: a base type and numbers that are not negative.\<close>

definition entry_ok :: "od_entry \<Rightarrow> bool" where
  "entry_ok e \<longleftrightarrow> 0 \<le> en_subindex e \<and> 0 \<le> en_bits e \<and> en_type e \<in> set base_type_names"

definition sub_info :: "int \<Rightarrow> od_entry \<Rightarrow> CMMTEsiSubItemInfo" where
  "sub_info offset e = \<lparr>sub_subindex = en_subindex e, sub_name = strip (sub_label e), sub_data_type = en_type e,
     sub_bit_size = en_bits e, sub_bit_offset = offset, sub_access = lower (strip (strip (access_or_ro e)))\<rparr>"

fun sub_infos :: "int \<Rightarrow> od_entry list \<Rightarrow> CMMTEsiSubItemInfo list" where
  "sub_infos offset [] = []"
| "sub_infos offset (e # es) = sub_info offset e # sub_infos (if en_subindex e = 0 then 16 else offset + en_bits e) es"

lemma strip_digits: "0 \<le> v \<Longrightarrow> strip (str_of_int v) = str_of_int v"
  using set_nat_digits decimal_digit(3) by (intro strip_id) (fastforce simp: str_of_int_def)

lemma strip_base_type: "t \<in> set base_type_names \<Longrightarrow> strip t = t"
proof -
  have "list_all (\<lambda>t. strip t = t) base_type_names" by code_simp
  then show "t \<in> set base_type_names \<Longrightarrow> strip t = t" by (auto simp: list_all_iff)
qed

lemma parse_subitem_fixture:
  assumes "entry_ok e" "0 \<le> offset"
  shows "parse_subitem [] (fixture_subitem offset e) = Inr [sub_info offset e]"
  using assms
  by (simp add: parse_subitem_def fixture_subitem_def tree_defs Let_def entry_ok_def strip_digits parse_str_of_int
    strip_base_type english_display_name_def or_else_def access_text_def sub_info_def)

lemma parse_subitems_fixture:
  "list_all entry_ok es \<Longrightarrow> 0 \<le> offset \<Longrightarrow>
   emap (parse_subitem []) (fixture_subitems offset es) = Inr (map (\<lambda>i. [i]) (sub_infos offset es))"
proof (induction es arbitrary: offset)
  case (Cons e es)
  then have "0 \<le> offset + en_bits e" by (simp add: entry_ok_def)
  then show ?case using Cons by (simp add: parse_subitem_fixture)
qed simp

lemma subitems_are_children: "filter (\<lambda>c. etag c = ''SubItem'') (fixture_subitems k es) = fixture_subitems k es"
  by (induction es arbitrary: k) (simp_all add: fixture_subitem_def node_def)

lemma subitems_tag: "t \<noteq> ''SubItem'' \<Longrightarrow> filter (\<lambda>c. etag c = t) (fixture_subitems k es) = []"
  by (induction es arbitrary: k) (auto simp: fixture_subitem_def node_def)

definition sim_type :: "int \<Rightarrow> od_entry list \<Rightarrow> element" where
  "sim_type index es = node ''DataType'' ([leaf ''Name'' (type_label index), leaf ''BitSize'' (str_of_int (total_bits es))] @
     fixture_subitems 0 es)"

lemma strip_hex: "0 \<le> v \<Longrightarrow> c \<in> set (format_X w v) \<Longrightarrow> \<not> is_space c"
proof -
  assume v: "0 \<le> v" "c \<in> set (format_X w v)"
  have "\<not> is_space CHR ''0''" by code_simp
  then show ?thesis using v set_nat_hex hex_upper_facts(3) by (fastforce simp: format_X_def zero_fill_def)
qed

lemma strip_type_label: "0 \<le> index \<Longrightarrow> strip (type_label index) = type_label index"
proof -
  assume i: "0 \<le> index"
  have "list_all (\<lambda>c. \<not> is_space c) ''SIM_''" by code_simp
  then show ?thesis using strip_hex [OF i] by (intro strip_id) (auto simp: type_label_def)
qed

lemma total_bits_nonneg: "list_all entry_ok es \<Longrightarrow> 0 \<le> total_bits es"
  by (cases es) (auto simp: total_bits_def entry_ok_def list_all_iff intro!: add_nonneg_nonneg sum_list_nonneg)

lemma add_sim_type:
  assumes "list_all entry_ok es" "0 \<le> index"
  shows "add_data_type [] (sim_type index es) d = Inr (append_at (type_label index) (total_bits es, sub_infos 0 es) d)"
proof -
  have n: "text_at ''Name'' (sim_type index es) = type_label index"
    using assms by (simp add: sim_type_def tree_defs strip_type_label)
  have b: "int_at ''BitSize'' (sim_type index es) = Inr (total_bits es)"
    using total_bits_nonneg [OF assms(1)] by (simp add: sim_type_def tree_defs strip_digits parse_str_of_int)
  have c: "children ''SubItem'' (sim_type index es) = fixture_subitems 0 es"
    by (simp add: sim_type_def tree_defs subitems_are_children)
  have "concat (map (\<lambda>i. [i]) xs) = xs" for xs :: "CMMTEsiSubItemInfo list" by (induction xs) simp_all
  then have "parse_data_type_subitems [] (sim_type index es) = Inr (sub_infos 0 es)"
    unfolding parse_data_type_subitems_def c using parse_subitems_fixture [OF assms(1)] by simp
  moreover have "type_label index \<noteq> []" by (simp add: type_label_def)
  ultimately show ?thesis unfolding add_data_type_def n b by simp
qed

section \<open>Rows: the groups with their sub-items\<close>

text \<open>\<open>None\<close>: a simple object; \<open>Some fs\<close>: a structured one with the sub-items \<open>fs\<close>.\<close>

definition expanded :: "int \<Rightarrow> od_entry list \<Rightarrow> od_entry list option res" where
  "expanded index grp =
     (let es = sort_key en_subindex grp in
      if length es = 1 \<and> en_subindex (hd es) = 0 then Inr None
      else ebind (with_count index es) (\<lambda>fs. Inr (Some fs)))"

type_synonym row = "int \<times> od_entry list \<times> od_entry list option"

definition row_object :: "row \<Rightarrow> element" where
  "row_object = (\<lambda>(index, grp, x). case x of
      None \<Rightarrow> (let e = hd grp in node ''Object'' (object_head index (en_type e) (en_bits e) @
           [node ''Info'' [leaf ''DefaultData'' (en_initial e)], node ''Flags'' [leaf ''Access'' (access_or_ro e)]]))
    | Some fs \<Rightarrow> node ''Object'' (object_head index (type_label index) (total_bits fs) @ [node ''Info'' (map fixture_default fs)]))"

definition row_types :: "row \<Rightarrow> element list" where
  "row_types = (\<lambda>(index, grp, x). case x of None \<Rightarrow> [] | Some fs \<Rightarrow> [sim_type index fs])"

lemma length_1_sort: "length (sort_key f xs) = 1 \<Longrightarrow> hd (sort_key f xs) = hd xs"
  by (cases xs; cases "tl xs") auto

lemma fixture_object_row:
  "fixture_object index grp = ebind (expanded index grp) (\<lambda>x. Inr (row_object (index, grp, x), row_types (index, grp, x)))"
proof (cases "length (sort_key en_subindex grp) = 1 \<and> en_subindex (hd (sort_key en_subindex grp)) = 0")
  case True
  then have h: "hd (sort_key en_subindex grp) = hd grp" using length_1_sort by blast
  show ?thesis using True
    by (simp add: fixture_object_def expanded_def row_object_def row_types_def Let_def h del: length_sort)
next
  case False
  have "fixture_object index grp = ebind (with_count index (sort_key en_subindex grp)) (\<lambda>fs.
      Inr (row_object (index, grp, Some fs), row_types (index, grp, Some fs)))"
    unfolding fixture_object_def Let_def if_not_P [OF False] by (simp add: row_object_def row_types_def sim_type_def)
  moreover have "expanded index grp = ebind (with_count index (sort_key en_subindex grp)) (\<lambda>fs. Inr (Some fs))"
    unfolding expanded_def Let_def if_not_P [OF False] ..
  ultimately show ?thesis by (simp add: ebind_assoc)
qed

definition group_ok :: "int \<times> od_entry list \<Rightarrow> bool" where
  "group_ok = (\<lambda>(index, grp). 0 < index \<and> grp \<noteq> [] \<and> list_all entry_ok grp \<and> distinct (map en_subindex grp))"

definition row_ok :: "row \<Rightarrow> bool" where
  "row_ok = (\<lambda>(index, grp, x). 0 < index \<and> (case x of
      None \<Rightarrow> (\<exists>e. grp = [e] \<and> en_subindex e = 0 \<and> entry_ok e)
    | Some fs \<Rightarrow> fs \<noteq> [] \<and> list_all entry_ok fs \<and> distinct (map en_subindex fs) \<and> set grp \<subseteq> set fs))"

lemma fx_value_fields:
  assumes "fx_value index sub name typ bits number = Inr e"
  shows "en_index e = index" "en_subindex e = sub" "en_type e = typ" "en_bits e = bits" "en_access e = ''ro''"
  using assms by (auto simp: fx_value_def ebind_Inr_iff)

lemma with_count_ok:
  assumes "with_count index es = Inr fs" "es \<noteq> []" "list_all entry_ok es" "distinct (map en_subindex es)" "sorted (map en_subindex es)"
  shows "fs \<noteq> [] \<and> list_all entry_ok fs \<and> distinct (map en_subindex fs) \<and> set es \<subseteq> set fs"
proof (cases "en_subindex (hd es) = 0")
  case True
  then show ?thesis using assms by (simp add: with_count_def)
next
  case False
  then obtain c where c: "fx_value index 0 ''Count'' ''USINT'' 8 (Max (set (map en_subindex es))) = Inr c" "fs = c # es"
    using assms(1) by (auto simp: with_count_def ebind_Inr_iff)
  have "0 < en_subindex (hd es)" using False assms(2,3) by (cases es) (auto simp: entry_ok_def)
  then have "0 \<notin> set (map en_subindex es)" using assms(2,5) by (cases es) auto
  then show ?thesis using assms c fx_value_fields [OF c(1)] by (auto simp: entry_ok_def base_type_names_def)
qed

lemma expanded_ok:
  assumes "expanded index grp = Inr x" "group_ok (index, grp)"
  shows "row_ok (index, grp, x)"
proof (cases "length (sort_key en_subindex grp) = 1 \<and> en_subindex (hd (sort_key en_subindex grp)) = 0")
  case True
  then have "length grp = 1" "en_subindex (hd grp) = 0" using length_1_sort [of en_subindex grp] by auto
  then obtain e where "grp = [e]" "en_subindex e = 0" by (cases grp) auto
  moreover have "x = None" using assms(1) True unfolding expanded_def Let_def by simp
  ultimately show ?thesis using assms(2) by (simp add: row_ok_def group_ok_def)
next
  case False
  then obtain fs where fs: "with_count index (sort_key en_subindex grp) = Inr fs" "x = Some fs"
    using assms(1) unfolding expanded_def Let_def if_not_P [OF False] by (auto simp: ebind_Inr_iff)
  have "length (sort_key en_subindex grp) \<noteq> 0" using assms(2) by (simp add: group_ok_def)
  then have "sort_key en_subindex grp \<noteq> []" by (simp only: length_0_conv) simp
  moreover have "distinct (map en_subindex (sort_key en_subindex grp))"
    using assms(2) by (simp add: group_ok_def distinct_map)
  ultimately show ?thesis
    using with_count_ok [OF fs(1)] assms(2) fs(2) by (simp add: row_ok_def group_ok_def list_all_iff)
qed

section \<open>The table of data types\<close>

lemma efold_append: "efold f (xs @ ys) d = ebind (efold f xs d) (efold f ys)"
proof (induction xs arbitrary: d)
  case (Cons x xs)
  then show ?case by (cases "f x d") simp_all
qed simp

lemma efold_skip: "(\<And>x. x \<in> set xs \<Longrightarrow> f x d = Inr d) \<Longrightarrow> efold f xs d = Inr d"
  by (induction xs) auto

lemma type_label_inject: "0 \<le> i \<Longrightarrow> 0 \<le> j \<Longrightarrow> type_label i = type_label j \<longleftrightarrow> i = j"
proof
  assume ij: "0 \<le> i" "0 \<le> j" and "type_label i = type_label j"
  then have "parse_int (''#x'' @ format_X 4 i) = parse_int (''#x'' @ format_X 4 j)" by (simp add: type_label_def)
  then show "i = j" unfolding parse_format_X [OF ij(1)] parse_format_X [OF ij(2)] by simp
qed simp

lemma row_types_fold:
  assumes "list_all row_ok rows" "distinct (map fst rows)" "\<And>r. r \<in> set rows \<Longrightarrow> map_of d (type_label (fst r)) = None"
  shows "\<exists>d'. efold (add_data_type []) (concat (map row_types rows)) d = Inr d' \<and>
    (\<forall>n. n \<notin> type_label ` fst ` set rows \<longrightarrow> map_of d' n = map_of d n) \<and>
    (\<forall>i g fs. (i, g, Some fs) \<in> set rows \<longrightarrow> map_of d' (type_label i) = Some [(total_bits fs, sub_infos 0 fs)])"
  using assms
proof (induction rows arbitrary: d)
  case (Cons r rows)
  obtain i g x where r: "r = (i, g, x)" by (cases r)
  have pos: "0 < fst s" if "s \<in> set (r # rows)" for s using Cons.prems(1) that by (auto simp: list_all_iff row_ok_def)
  have fresh: "type_label (fst s) \<noteq> type_label i" if "s \<in> set rows" for s
    using Cons.prems(2) pos [of s] pos [of r] that by (auto simp: type_label_inject r)
  define e where "e = (case x of None \<Rightarrow> d | Some fs \<Rightarrow> append_at (type_label i) (total_bits fs, sub_infos 0 fs) d)"
  have e: "efold (add_data_type []) (row_types r) d = Inr e"
    using Cons.prems(1) add_sim_type [of _ i d] by (auto simp: r row_types_def e_def row_ok_def split: option.splits)
  have e1: "map_of e n = map_of d n" if "n \<noteq> type_label i" for n
    using that by (auto simp: e_def append_at_def split: option.splits)
  have e2: "map_of e (type_label i) = Some [(total_bits fs, sub_infos 0 fs)]" if "x = Some fs" for fs
    using that Cons.prems(3) [of r] by (simp add: e_def append_at_def r)
  have "map_of e (type_label (fst s)) = None" if "s \<in> set rows" for s
    using e1 [OF fresh [OF that]] Cons.prems(3) that by simp
  then obtain d' where d': "efold (add_data_type []) (concat (map row_types rows)) e = Inr d'"
    "\<And>n. n \<notin> type_label ` fst ` set rows \<Longrightarrow> map_of d' n = map_of e n"
    "\<And>i g fs. (i, g, Some fs) \<in> set rows \<Longrightarrow> map_of d' (type_label i) = Some [(total_bits fs, sub_infos 0 fs)]"
    using Cons.IH [of e] Cons.prems(1,2) by auto
  have "type_label i \<notin> type_label ` fst ` set rows" using fresh by fastforce
  then have "map_of d' (type_label j) = Some [(total_bits fs, sub_infos 0 fs)]" if "(j, h, Some fs) \<in> set (r # rows)" for j h fs
    using that d'(2) [of "type_label i"] d'(3) e2 r by auto
  moreover have "map_of d' n = map_of d n" if "n \<notin> type_label ` fst ` set (r # rows)" for n
    using that d'(2) [of n] e1 [of n] r by auto
  moreover have "efold (add_data_type []) (concat (map row_types (r # rows))) d = Inr d'"
    using e d'(1) by (simp add: efold_append)
  ultimately show ?case by blast
qed simp

text \<open>The types below the objects of the dictionary and, as leaves, those of the process data entries.\<close>

definition types_fit :: "data_types \<Rightarrow> row list \<Rightarrow> bool" where
  "types_fit dts rows \<longleftrightarrow>
     (\<forall>t \<in> set base_type_names. \<exists>bits. map_of dts t = Some [(bits, [])]) \<and>
     (\<forall>i g fs. (i, g, Some fs) \<in> set rows \<longrightarrow> map_of dts (type_label i) = Some [(total_bits fs, sub_infos 0 fs)])"

definition base_table :: data_types where
  "base_table = map (\<lambda>(n, b). (n, [(b, [])]))
     [(''USINT'', 8), (''SINT'', 8), (''UINT'', 16), (''INT'', 16), (''UDINT'', 32), (''DINT'', 32), (''REAL'', 32)]"

lemma base_types_fold: "efold (add_data_type []) base_types [] = Inr base_table"
  by code_simp

lemma type_label_not_base: "type_label i \<notin> set base_type_names"
  by (simp add: type_label_def base_type_names_def)

lemma types_fold:
  assumes "list_all row_ok rows" "distinct (map fst rows)" "\<And>x. x \<in> set ls \<Longrightarrow> text_at ''Name'' x = []"
  shows "\<exists>dts. efold (add_data_type []) (base_types @ concat (map row_types rows) @ ls) [] = Inr dts \<and> types_fit dts rows"
proof -
  have k: "map_of base_table n = None" if "n \<notin> set base_type_names" for n using that by (simp add: base_table_def base_type_names_def)
  obtain d where d: "efold (add_data_type []) (concat (map row_types rows)) base_table = Inr d"
    "\<And>n. n \<notin> type_label ` fst ` set rows \<Longrightarrow> map_of d n = map_of base_table n"
    "\<And>i g fs. (i, g, Some fs) \<in> set rows \<Longrightarrow> map_of d (type_label i) = Some [(total_bits fs, sub_infos 0 fs)]"
    using row_types_fold [OF assms(1,2), of base_table] k type_label_not_base by blast
  have "efold (add_data_type []) ls d = Inr d"
    using assms(3) by (intro efold_skip) (simp add: add_data_type_def)
  then have f: "efold (add_data_type []) (base_types @ concat (map row_types rows) @ ls) [] = Inr d"
    using d(1) base_types_fold by (simp add: efold_append)
  have "\<exists>bits. map_of d t = Some [(bits, [])]" if "t \<in> set base_type_names" for t
  proof -
    have "map_of d t = map_of base_table t" using that type_label_not_base by (intro d(2)) auto
    then show ?thesis using that by (auto simp: base_table_def base_type_names_def)
  qed
  then show ?thesis using f d(3) by (auto simp: types_fit_def)
qed

section \<open>Parsing the objects back\<close>

definition row_info :: "row \<Rightarrow> CMMTEsiObjectInfo" where
  "row_info = (\<lambda>(i, g, x).
     \<lparr>obj_index = i, obj_name = strip (''Simulator object '' @ format_X 4 i),
      obj_data_type = (case x of None \<Rightarrow> en_type (hd g) | Some fs \<Rightarrow> type_label i),
      obj_bit_size = (case x of None \<Rightarrow> en_bits (hd g) | Some fs \<Rightarrow> total_bits fs),
      obj_access = (case x of None \<Rightarrow> lower (strip (strip (access_or_ro (hd g)))) | Some fs \<Rightarrow> ''''),
      obj_subitems = (case x of None \<Rightarrow> [] | Some fs \<Rightarrow> sub_infos 0 fs)\<rparr>)"

lemma strip_label: "0 \<le> v \<Longrightarrow> strip (''#x'' @ format_X w v) = ''#x'' @ format_X w v"
proof -
  assume v: "0 \<le> v"
  have "\<not> is_space CHR ''#''" "\<not> is_space CHR ''x''" by code_simp+
  then show ?thesis using strip_hex [OF v] by (intro strip_id) auto
qed

lemma row_index: "row_ok r \<Longrightarrow> int_at ''Index'' (row_object r) = Inr (fst r)"
  using parse_format_X [of "fst r" 4] strip_label [of "fst r" 4]
  by (cases r) (auto simp: row_object_def row_ok_def object_head_def tree_defs Let_def split: option.splits)

lemma same_names_nil: "same_subitem_names xs [] = False"
  by (simp add: same_subitem_names_def)

lemma no_access: "access_text (Element n a t l cs) = ''''" if "filter (\<lambda>c. etag c = ''Flags'') cs = []"
proof -
  have "lower (strip '''') = ''''" by code_simp
  then show ?thesis using that by (simp add: access_text_def tree_defs xml_text_def)
qed

lemma row_parse:
  assumes "row_ok r" "types_fit dts rows" "r \<in> set rows"
  shows "parse_object dts (fst r) (row_object r) = Inr (row_info r)"
proof -
  obtain i g x where r: "r = (i, g, x)" by (cases r)
  show ?thesis
  proof (cases x)
    case None
    then obtain e where g: "g = [e]" "entry_ok e" using assms(1) by (auto simp: r row_ok_def)
    then have e: "strip (en_type e) = en_type e" "strip (str_of_int (en_bits e)) = str_of_int (en_bits e)"
      "parse_int (str_of_int (en_bits e)) = Inr (en_bits e)"
      by (simp_all add: entry_ok_def strip_base_type strip_digits parse_str_of_int)
    obtain b where "map_of dts (en_type e) = Some [(b, [])]"
      using assms(2) g(2) by (auto simp: types_fit_def entry_ok_def)
    then have "object_subitems obj (en_type e) n dts = []" for obj n
      by (simp add: object_subitems_def same_names_nil)
    then show ?thesis using None g e
      by (simp add: parse_object_def r row_object_def row_info_def object_head_def tree_defs Let_def access_text_def)
  next
    case (Some fs)
    then have fs: "list_all entry_ok fs" "0 < i" using assms(1) by (auto simp: r row_ok_def)
    have t: "strip (str_of_int (total_bits fs)) = str_of_int (total_bits fs)"
      "parse_int (str_of_int (total_bits fs)) = Inr (total_bits fs)" "strip (type_label i) = type_label i"
      using fs total_bits_nonneg [OF fs(1)] by (simp_all add: strip_digits parse_str_of_int strip_type_label)
    have "map_of dts (type_label i) = Some [(total_bits fs, sub_infos 0 fs)]"
      using assms(2,3) Some r unfolding types_fit_def by blast
    then have "object_subitems obj (type_label i) (total_bits fs) dts = sub_infos 0 fs" for obj
      by (simp add: object_subitems_def)
    then show ?thesis using Some t
      by (simp add: parse_object_def r row_object_def row_info_def object_head_def tree_defs Let_def no_access)
  qed
qed

lemma row_objects_fold:
  assumes "list_all row_ok rows" "types_fit dts all" "set rows \<subseteq> set all" "distinct (map fst rows)"
  shows "\<exists>ro' os'. efold (add_object dts) (map row_object rows) (ro, os) = Inr (ro', os') \<and>
    (\<forall>i. i \<notin> fst ` set rows \<longrightarrow> map_of ro' i = map_of ro i) \<and> (\<forall>r \<in> set rows. map_of ro' (fst r) = Some (row_info r))"
  using assms
proof (induction rows arbitrary: ro os)
  case (Cons r rows)
  let ?ro = "AList.update (fst r) (row_info r) ro" and ?os = "put_all (flat_entries (row_info r)) os"
  have r: "row_ok r" "r \<in> set all" using Cons.prems by auto
  have a: "add_object dts (row_object r) (ro, os) = Inr (?ro, ?os)"
    using row_index [OF r(1)] row_parse [OF r(1) Cons.prems(2) r(2)] r(1)
    by (cases r) (simp add: add_object_def row_ok_def)
  obtain ro' os' where o: "efold (add_object dts) (map row_object rows) (?ro, ?os) = Inr (ro', os')"
    "\<forall>i. i \<notin> fst ` set rows \<longrightarrow> map_of ro' i = map_of ?ro i" "\<forall>r \<in> set rows. map_of ro' (fst r) = Some (row_info r)"
    using Cons.IH [of ?ro ?os] Cons.prems by auto
  then have "map_of ro' (fst r) = Some (row_info r)" using Cons.prems(4) by (simp add: image_iff)
  then show ?case using a o by (intro exI [of _ ro'] exI [of _ os']) (auto simp: image_iff)
qed simp

section \<open>The document\<close>

lemma found_row:
  "found ''Object'' (row_object r) = [row_object r]" "found ''DataType'' (row_object r) = []" "found ''Device'' (row_object r) = []"
  "concat (map (found ''Object'') (row_types r)) = []" "concat (map (found ''Device'') (row_types r)) = []"
  "concat (map (found ''DataType'') (row_types r)) = row_types r"
  by (cases r; auto simp: row_object_def row_types_def sim_type_def Let_def object_head_def tree_defs found_subitems
    found_default deep_tags_def split: option.splits)+

lemma found_rows:
  "concat (map (found ''Object'') (map row_object rows)) = map row_object rows"
  "concat (map (found ''DataType'') (map row_object rows)) = []" "concat (map (found ''Device'') (map row_object rows)) = []"
  "concat (map (found ''Object'') (concat (map row_types rows))) = []"
  "concat (map (found ''Device'') (concat (map row_types rows))) = []"
  "concat (map (found ''DataType'') (concat (map row_types rows))) = concat (map row_types rows)"
  by (induction rows) (simp_all only: list.map concat.simps concat_append map_append found_row append_Nil append_Cons append_Nil2)

lemma found_base:
  "concat (map (found ''Object'') base_types) = []" "concat (map (found ''Device'') base_types) = []"
  using found_base_types(2) [of "''Object''"] found_base_types(2) [of "''Device''"] by (auto simp: deep_tags_def)

definition entry_types :: "pdo_field list \<Rightarrow> element list" where
  "entry_types pdos = map (\<lambda>f. leaf ''DataType'' (pf_type f)) pdos"

lemma found_pdo:
  assumes "u \<in> {''RxPdo'', ''TxPdo''}"
  shows "found ''Object'' (fixture_pdo u pdos i k) = []" "found ''Device'' (fixture_pdo u pdos i k) = []"
    "found ''DataType'' (fixture_pdo u pdos i k) = entry_types pdos"
proof -
  have "concat (map (found ''DataType'') (map fixture_entry pdos)) = entry_types pdos"
    by (induction pdos) (simp_all add: fixture_entry_def tree_defs entry_types_def)
  then show "found ''DataType'' (fixture_pdo u pdos i k) = entry_types pdos"
    using assms by (auto simp: fixture_pdo_def leaf_def)
  have "concat (map (found ''Object'') (map fixture_entry pdos)) = []" "concat (map (found ''Device'') (map fixture_entry pdos)) = []"
    by (simp_all add: fixture_entry_def tree_defs)
  then show "found ''Object'' (fixture_pdo u pdos i k) = []" "found ''Device'' (fixture_pdo u pdos i k) = []"
    using assms by (auto simp: fixture_pdo_def leaf_def)
qed

abbreviation row_elements :: "row list \<Rightarrow> (element \<times> element list) list" where
  "row_elements rows \<equiv> map (\<lambda>r. (row_object r, row_types r)) rows"

lemma row_elements_split: "map fst (row_elements rows) = map row_object rows" "map snd (row_elements rows) = map row_types rows"
  by simp_all

lemmas device_found = found_rows found_base found_base_types(1) found_pdo found_sm deep_tags_def row_elements_split

lemma device_descendants:
  "concat (map (found ''Device'') (kids (fixture_device spec (row_elements rows)))) = []"
  "descendants ''Object'' (fixture_device spec (row_elements rows)) = map row_object rows"
  "concat (map (found ''DataType'') (kids (fixture_device spec (row_elements rows)))) =
     base_types @ concat (map row_types rows) @ entry_types (ct_rx spec) @ entry_types (ct_tx spec)"
  by (simp_all add: fixture_device_def descendants_found leaf_def node_def device_found del: map_map)

lemma document_descendants:
  "descendants ''Device'' (fixture_document spec (row_elements rows)) = [fixture_device spec (row_elements rows)]"
  "descendants ''DataType'' (fixture_document spec (row_elements rows)) =
     base_types @ concat (map row_types rows) @ entry_types (ct_rx spec) @ entry_types (ct_tx spec)"
proof -
  have f: "found t d = (if etag d = t then [d] else []) @ concat (map (found t) (kids d))" for t d by (cases d) simp
  have t: "etag (fixture_device spec objs) = ''Device''" for objs by (simp add: fixture_device_def)
  show "descendants ''Device'' (fixture_document spec (row_elements rows)) = [fixture_device spec (row_elements rows)]"
    by (simp add: fixture_document_def descendants_found leaf_def node_def f [of _ "fixture_device _ _"] t device_descendants)
  show "descendants ''DataType'' (fixture_document spec (row_elements rows)) =
     base_types @ concat (map row_types rows) @ entry_types (ct_rx spec) @ entry_types (ct_tx spec)"
    by (simp add: fixture_document_def descendants_found leaf_def node_def f [of _ "fixture_device _ _"] t device_descendants)
qed

lemma document_arrays: "parse_array_data_types (fixture_document spec (row_elements rows)) = Inr []"
proof -
  have "child ''ArrayInfo'' x = None"
    if "x \<in> set (base_types @ concat (map row_types rows) @ entry_types (ct_rx spec) @ entry_types (ct_tx spec))" for x
    using that subitems_tag [of "''ArrayInfo''"]
    by (auto simp: base_types_def row_types_def sim_type_def entry_types_def tree_defs split: option.splits prod.splits)
  then show ?thesis unfolding parse_array_data_types_def document_descendants
    by (intro efold_skip) (simp add: add_array_type_def)
qed

lemma document_types:
  assumes "list_all row_ok rows" "distinct (map fst rows)"
  shows "\<exists>dts. parse_data_types (fixture_document spec (row_elements rows)) = Inr dts \<and> types_fit dts rows"
proof -
  let ?ls = "entry_types (ct_rx spec) @ entry_types (ct_tx spec)"
  have "text_at ''Name'' x = []" if "x \<in> set ?ls" for x
    using that by (auto simp: entry_types_def tree_defs xml_text_def)
  from types_fold [OF assms, of ?ls, OF this] show ?thesis
    by (simp add: parse_data_types_def document_arrays document_descendants del: map_map)
qed

section \<open>Parsing the process data back\<close>

definition field_ok :: "pdo_field \<Rightarrow> bool" where
  "field_ok f \<longleftrightarrow> 0 \<le> pf_index f \<and> pf_index f < 0x10000 \<and> 0 \<le> pf_subindex f \<and> pf_subindex f < 0x100 \<and>
     0 \<le> pf_bits f \<and> pf_bits f < 0x100 \<and> (pf_index f = 0 \<longrightarrow> pf_subindex f = 0)"

definition entry_info :: "pdo_field \<Rightarrow> CMMTEsiPdoEntryInfo" where
  "entry_info f = \<lparr>pde_index = pf_index f, pde_subindex = pf_subindex f, pde_bit_length = pf_bits f,
     pde_name = strip (pf_name f), pde_data_type = strip (pf_type f)\<rparr>"

lemma parse_entry_fixture: "field_ok f \<Longrightarrow> parse_pdo_entry (fixture_entry f) = Inr (entry_info f)"
proof -
  assume f: "field_ok f"
  then have "strip (''#x'' @ format_X 4 (pf_index f)) = ''#x'' @ format_X 4 (pf_index f)"
    "parse_int (''#x'' @ format_X 4 (pf_index f)) = Inr (pf_index f)"
    using strip_label parse_format_X by (simp_all only: field_ok_def)
  then show ?thesis using f
    by (simp add: parse_pdo_entry_def fixture_entry_def tree_defs entry_info_def field_ok_def strip_digits parse_str_of_int)
qed

lemma entry_info_word: "field_ok f \<Longrightarrow> esi_mapping_entry (entry_info f) = mapping_value f"
  by (auto simp: field_ok_def esi_mapping_entry_def entry_info_def mapping_value_def and_255 and_65535)

lemma parse_pdo_fixture:
  assumes "list_all field_ok pdos" "0 < index"
  shows "add_pdo (fixture_pdo t pdos index k) [] =
    Inr [(index, \<lparr>pdo_index = index, pdo_name = strip t, pdo_entries = map entry_info pdos\<rparr>)]"
proof -
  have i: "strip (''#x'' @ format_X 4 index) = ''#x'' @ format_X 4 index"
    "parse_int (''#x'' @ format_X 4 index) = Inr index"
    using strip_label parse_format_X assms(2) by simp_all
  have "filter (\<lambda>c. etag c = ''Entry'') (map fixture_entry pdos) = map fixture_entry pdos"
    by (simp add: filter_id_conv fixture_entry_def node_def)
  moreover have "emap parse_pdo_entry (map fixture_entry pdos) = Inr (map entry_info pdos)"
    using assms(1) parse_entry_fixture by (induction pdos) simp_all
  ultimately show ?thesis using i assms(2) by (simp add: add_pdo_def fixture_pdo_def tree_defs)
qed

lemma device_children:
  "children ''RxPdo'' (fixture_device spec objs) = [fixture_pdo ''RxPdo'' (ct_rx spec) 0x1600 2]"
  "children ''TxPdo'' (fixture_device spec objs) = [fixture_pdo ''TxPdo'' (ct_tx spec) 0x1a00 3]"
  "child ''Type'' (fixture_device spec objs) = Some (Element ''Type'' [(''ProductCode'', ''#x'' @ format_X 8 (id_product (ct_identity spec))),
      (''RevisionNo'', ''#x'' @ format_X 8 (id_revision (ct_identity spec)))] ''CMMT_AS_SIM'' '''' [])"
  by (simp_all add: fixture_device_def tree_defs fixture_pdo_def fixture_sm_def)

section \<open>Groups\<close>

lemma append_at_keys: "distinct (map fst d) \<Longrightarrow> distinct (map fst (append_at k v d))"
  by (simp add: append_at_def distinct_update)

lemma group_entries_snoc: "group_entries (es @ [e]) = append_at (en_index e) e (group_entries es)"
  by (simp add: group_entries_def)

lemma group_entries_keys: "distinct (map fst (group_entries es))"
proof (induction es rule: rev_induct)
  case (snoc e es)
  then show ?case unfolding group_entries_snoc by (rule append_at_keys)
qed (simp add: group_entries_def)

lemma group_entries_lookup:
  "map_of (group_entries es) i = (let l = filter (\<lambda>e. en_index e = i) es in if l = [] then None else Some l)"
proof (induction es rule: rev_induct)
  case (snoc e es)
  then show ?case
    by (cases "en_index e = i") (auto simp: group_entries_snoc append_at_def Let_def split: option.splits)
qed (simp add: group_entries_def)

definition groups_ok :: "groups \<Rightarrow> bool" where
  "groups_ok gs \<longleftrightarrow> distinct (map fst gs) \<and> (\<forall>i g. map_of gs i = Some g \<longrightarrow> group_ok (i, g))"

lemma groups_ok_update: "groups_ok gs \<Longrightarrow> group_ok (i, g) \<Longrightarrow> groups_ok (AList.update i g gs)"
  by (simp add: groups_ok_def distinct_update update_conv')

text \<open>The entries of a contract that a tree can hold, each at an address of its own.\<close>

definition contract_ok :: "contract \<Rightarrow> bool" where
  "contract_ok spec \<longleftrightarrow>
     list_all (\<lambda>e. 0 < en_index e \<and> entry_ok e \<and> lower (strip (strip (access_or_ro e))) = access_or_ro e) (ct_entries spec) \<and>
     distinct (map (\<lambda>e. (en_index e, en_subindex e)) (ct_entries spec)) \<and>
     list_all field_ok (ct_rx spec) \<and> list_all field_ok (ct_tx spec)"

lemma group_entries_ok: "contract_ok spec \<Longrightarrow> groups_ok (group_entries (ct_entries spec))"
proof -
  assume c: "contract_ok spec"
  have "group_ok (i, g)" if "map_of (group_entries (ct_entries spec)) i = Some g" for i g
  proof -
    let ?l = "filter (\<lambda>e. en_index e = i) (ct_entries spec)"
    have g: "g = ?l" "?l \<noteq> []" using that by (auto simp: group_entries_lookup Let_def simp del: filter_empty_conv split: if_splits)
    have "distinct (map (\<lambda>e. (en_index e, en_subindex e)) ?l)"
      using c by (simp add: contract_ok_def distinct_map_filter)
    then have "distinct (map en_subindex ?l)" by (auto simp: distinct_map inj_on_def)
    moreover have "0 < i" using g(2) c by (auto simp: contract_ok_def list_all_iff neq_Nil_conv filter_empty_conv)
    ultimately show ?thesis using c g by (simp add: group_ok_def contract_ok_def list_all_iff)
  qed
  then show ?thesis by (simp add: groups_ok_def group_entries_keys)
qed

lemma numbered_values:
  assumes "emap (\<lambda>(k, x). fx_value index (sub k) (name k x) typ bits (number x)) xs = Inr ys"
  shows "map en_subindex ys = map (sub \<circ> fst) xs \<and> list_all (\<lambda>e. en_type e = typ \<and> en_bits e = bits) ys"
  using emap_list_all2 [OF assms] by (induction rule: list_all2_induct) (auto dest: fx_value_fields)

lemma numbered_group:
  assumes "emap (\<lambda>(k, x). fx_value index (sub k) (name k x) typ bits (number x)) xs = Inr ys" "0 < index" "0 \<le> bits"
    and "typ \<in> set base_type_names" "distinct (map (sub \<circ> fst) xs)" "list_all (\<lambda>k. 0 \<le> k) (map (sub \<circ> fst) xs)"
  shows "list_all entry_ok ys" "distinct (map en_subindex ys)" "set (map en_subindex ys) = set (map (sub \<circ> fst) xs)"
proof -
  note n = numbered_values [OF assms(1)]
  show "distinct (map en_subindex ys)" "set (map en_subindex ys) = set (map (sub \<circ> fst) xs)" using n assms(5) by simp_all
  have "\<forall>e \<in> set ys. 0 \<le> en_subindex e"
    using conjunct1 [OF n] assms(6) by (metis (mono_tags, lifting) image_eqI list.set_map list_all_iff)
  then show "list_all entry_ok ys" using n assms(3,4) by (simp add: entry_ok_def list_all_iff)
qed

lemma value_entry_ok:
  "fx_value index sub name typ bits number = Inr e \<Longrightarrow> 0 \<le> sub \<Longrightarrow> 0 \<le> bits \<Longrightarrow> typ \<in> set base_type_names \<Longrightarrow> entry_ok e"
  by (auto simp: entry_ok_def dest: fx_value_fields)

lemma enumerate_subs: "map (int \<circ> fst) (enumerate n xs) = map int [n..<n + length xs]"
  by (simp flip: map_map)

lemma pdo_groups_ok:
  assumes "pdo_groups index assignment pdos gs = Inr gs'" "groups_ok gs" "0 < index" "0 < assignment"
  shows "groups_ok gs' \<and> (\<forall>i. i \<noteq> index \<and> i \<noteq> assignment \<longrightarrow> map_of gs' i = map_of gs i)"
proof -
  obtain count mappings one pdo where v: "fx_value index 0 ''Count'' ''USINT'' 8 (int (length pdos)) = Inr count"
    "emap (\<lambda>(k, e). fx_value index (int k) (''Mapping '' @ str_of_int (int k)) ''UDINT'' 32 (mapping_value e)) (enumerate 1 pdos) = Inr mappings"
    "fx_value assignment 0 ''Count'' ''USINT'' 8 1 = Inr one" "fx_value assignment 1 ''PDO'' ''UINT'' 16 index = Inr pdo"
    "gs' = AList.update assignment [one, pdo] (AList.update index (count # mappings) gs)"
    using assms(1) unfolding pdo_groups_def by (auto simp: ebind_Inr_iff)
  have t: "''USINT'' \<in> set base_type_names" "''UDINT'' \<in> set base_type_names" "''UINT'' \<in> set base_type_names"
    by (simp_all add: base_type_names_def)
  have s: "map (int \<circ> fst) (enumerate 1 pdos) = map int [1..<1 + length pdos]" by (rule enumerate_subs)
  note m = numbered_group [where sub = int and number = mapping_value, OF v(2) assms(3) _ t(2), unfolded s]
  have "list_all entry_ok mappings" "distinct (map en_subindex mappings)" "0 \<notin> set (map en_subindex mappings)"
    using m by (auto simp: distinct_map list_all_iff)
  moreover have "en_subindex count = 0" "en_subindex one = 0" "en_subindex pdo = 1" "entry_ok count" "entry_ok one" "entry_ok pdo"
    using v(1,3,4) t value_entry_ok by (auto dest: fx_value_fields)
  ultimately have "group_ok (index, count # mappings)" "group_ok (assignment, [one, pdo])"
    using assms(3,4) by (auto simp: group_ok_def)
  then show ?thesis using v(5) assms(2) by (simp add: groups_ok_update update_conv')
qed

definition communication :: "int list" where
  "communication = [0x1000, 0x1018, 0x1c00, 0x1600, 0x1c12, 0x1a00, 0x1c13]"

lemma fixture_groups_ok:
  assumes "fixture_groups spec = Inr gs" "contract_ok spec"
  shows "groups_ok gs \<and> (\<forall>i. i \<notin> set communication \<longrightarrow> map_of gs i = map_of (group_entries (ct_entries spec)) i)"
proof -
  let ?ids = "[(1, ''Vendor'', id_vendor (ct_identity spec)), (2, ''Product'', id_product (ct_identity spec)),
        (3, ''Revision'', id_revision (ct_identity spec)), (4, ''Serial'', 1)]"
  obtain device_type count identity managers gs1 where v: "fx_value 0x1000 0 ''Device type'' ''UDINT'' 32 402 = Inr device_type"
    "fx_value 0x1018 0 ''Count'' ''USINT'' 8 4 = Inr count"
    "emap (\<lambda>(i, n, v). fx_value 0x1018 i n ''UDINT'' 32 v) ?ids = Inr identity"
    "emap (\<lambda>(i, v). fx_value 0x1c00 (int i) (''SM'' @ str_of_int (int i)) ''USINT'' 8 v) (enumerate 0 [4, 1, 2, 3, 4]) = Inr managers"
    "pdo_groups 0x1600 0x1c12 (ct_rx spec) (AList.update 0x1c00 managers (AList.update 0x1018 (count # identity)
         (AList.update 0x1000 [device_type] (group_entries (ct_entries spec))))) = Inr gs1"
    "pdo_groups 0x1a00 0x1c13 (ct_tx spec) gs1 = Inr gs"
    using assms(1) unfolding fixture_groups_def ebind_Inr_iff by (elim exE conjE) (rule that)
  have t: "''USINT'' \<in> set base_type_names" "''UDINT'' \<in> set base_type_names" by (simp_all add: base_type_names_def)
  have i: "list_all entry_ok identity" "distinct (map en_subindex identity)" "0 \<notin> set (map en_subindex identity)"
    using numbered_group [where sub = id and name = "\<lambda>k x. fst x" and number = snd, simplified case_prod_beta', of "0x1018" "''UDINT''" 32 ?ids identity] v(3) t
    by (simp_all add: case_prod_beta')
  have m: "list_all entry_ok managers" "distinct (map en_subindex managers)" "managers \<noteq> []"
    using numbered_group [where sub = int and number = "\<lambda>x. x", OF v(4) _ _ t(1)] emap_length [OF v(4)]
    by (auto simp: enumerate_eq_zip)
  have c: "entry_ok count" "entry_ok device_type" "en_subindex count = 0" "en_subindex device_type = 0"
    using v(1,2) t value_entry_ok by (auto dest: fx_value_fields)
  have "groups_ok (AList.update 0x1c00 managers (AList.update 0x1018 (count # identity)
         (AList.update 0x1000 [device_type] (group_entries (ct_entries spec)))))"
    using group_entries_ok [OF assms(2)] i m c by (intro groups_ok_update) (auto simp: group_ok_def)
  from pdo_groups_ok [OF v(5) this] have g1: "groups_ok gs1" "\<And>i. i \<notin> set communication \<Longrightarrow> map_of gs1 i = map_of (group_entries (ct_entries spec)) i"
    by (simp_all add: communication_def update_conv')
  from pdo_groups_ok [OF v(6) g1(1)] g1(2) show ?thesis by (simp add: communication_def)
qed

lemma fixture_rows:
  assumes "emap (\<lambda>(index, grp). fixture_object index grp) gs = Inr objects" "list_all group_ok gs"
  shows "\<exists>rows. objects = row_elements rows \<and> map (\<lambda>(i, g, x). (i, g)) rows = gs \<and> list_all row_ok rows"
  using assms
proof (induction gs arbitrary: objects)
  case (Cons p gs)
  obtain i g where p: "p = (i, g)" by (cases p)
  obtain x os where x: "expanded i g = Inr x" "emap (\<lambda>(index, grp). fixture_object index grp) gs = Inr os"
    "objects = (row_object (i, g, x), row_types (i, g, x)) # os"
    using Cons.prems(1) by (auto simp: p fixture_object_row ebind_Inr_iff)
  obtain rows where "os = row_elements rows" "map (\<lambda>(i, g, x). (i, g)) rows = gs" "list_all row_ok rows"
    using Cons.IH [OF x(2)] Cons.prems(2) by auto
  then show ?case using x expanded_ok [OF x(1)] Cons.prems(2) p by (intro exI [of _ "(i, g, x) # rows"]) simp
qed simp

section \<open>The round trip\<close>

lemma sub_infos_keys: "map sub_subindex (sub_infos k fs) = map en_subindex fs"
  by (induction fs arbitrary: k) (simp_all add: sub_info_def)

lemma sub_infos_member: "e \<in> set fs \<Longrightarrow> \<exists>off. sub_info off e \<in> set (sub_infos k fs)"
  by (induction fs arbitrary: k) auto

lemma access_or_ro_nonempty: "access_or_ro e \<noteq> []"
  by (simp add: access_or_ro_def or_else_def)

lemma row_lookup:
  assumes "row_ok (i, g, x)" "e \<in> set g" "lower (strip (strip (access_or_ro e))) = access_or_ro e"
  shows "\<exists>v. map_of (rev (flat_entries (row_info (i, g, x)))) (i, en_subindex e) = Some v \<and>
    obj_data_type v = en_type e \<and> obj_bit_size v = en_bits e \<and> obj_access v = access_or_ro e"
proof (cases x)
  case None
  then have "g = [e]" "en_subindex e = 0" using assms by (auto simp: row_ok_def)
  then show ?thesis using None assms(3) by (simp add: row_info_def flat_entries_def)
next
  case (Some fs)
  then have fs: "fs \<noteq> []" "distinct (map en_subindex fs)" "e \<in> set fs" using assms(1,2) by (auto simp: row_ok_def)
  define info where "info = row_info (i, g, x)"
  have subs: "obj_subitems info = sub_infos 0 fs" "obj_index info = i" using Some by (simp_all add: info_def row_info_def)
  have ne: "sub_infos 0 fs \<noteq> []" using fs(1) by (cases fs) simp_all
  then have fl: "flat_entries info = map (\<lambda>item. ((i, sub_subindex item), subitem_object info item)) (sub_infos 0 fs)"
    by (simp add: flat_entries_def subs)
  have "map fst (flat_entries info) = map (\<lambda>s. (i, s)) (map en_subindex fs)"
    unfolding fl sub_infos_keys [of 0 fs, symmetric] by simp
  then have d: "distinct (map fst (flat_entries info))" using fs(2) by (simp add: distinct_map inj_on_def)
  obtain off where "sub_info off e \<in> set (sub_infos 0 fs)" using sub_infos_member [OF fs(3)] by blast
  then have "((i, en_subindex e), subitem_object info (sub_info off e)) \<in> set (flat_entries info)"
    unfolding fl by (force simp: sub_info_def)
  then have "map_of (rev (flat_entries info)) (i, en_subindex e) = Some (subitem_object info (sub_info off e))"
    using d by (intro map_of_is_SomeI) (simp_all flip: rev_map)
  then show ?thesis using assms(3) access_or_ro_nonempty [of e]
    by (simp add: subitem_object_def sub_info_def or_else_def flip: info_def)
qed

lemma fixture_identity: "fixture_groups spec = Inr gs \<Longrightarrow> 0 \<le> id_product (ct_identity spec) \<and> 0 \<le> id_revision (ct_identity spec)"
  unfolding fixture_groups_def
  by (auto simp: ebind_Inr_iff fx_value_def to_bytes_def fits_def split: if_splits)

text \<open>The parser on a generated document: the tables of the rows, the identity and the process data.\<close>

definition pdo_table :: "string \<Rightarrow> int \<Rightarrow> pdo_field list \<Rightarrow> pdo_infos" where
  "pdo_table t index pdos = [(index, \<lparr>pdo_index = index, pdo_name = strip t, pdo_entries = map entry_info pdos\<rparr>)]"

lemma document_parses:
  assumes "list_all row_ok rows" "distinct (map fst rows)" "list_all field_ok (ct_rx spec)" "list_all field_ok (ct_tx spec)"
    and "0 \<le> id_product (ct_identity spec)" "0 \<le> id_revision (ct_identity spec)"
  shows "\<exists>c. parse_cmmt_esi_catalog variant (fixture_document spec (row_elements rows)) = Inr c \<and>
    esi_product_code c = id_product (ct_identity spec) \<and> esi_revision c = id_revision (ct_identity spec) \<and>
    tables_agree (esi_root_objects c) (esi_objects c) \<and>
    (\<forall>r \<in> set rows. map_of (esi_root_objects c) (fst r) = Some (row_info r)) \<and>
    esi_rxpdos c = pdo_table ''RxPdo'' 0x1600 (ct_rx spec) \<and> esi_txpdos c = pdo_table ''TxPdo'' 0x1a00 (ct_tx spec)"
proof -
  let ?doc = "fixture_document spec (row_elements rows)"
  define dev where "dev = fixture_device spec (row_elements rows)"
  obtain dts where dts: "parse_data_types ?doc = Inr dts" "types_fit dts rows"
    using document_types [OF assms(1,2)] by blast
  obtain ro os where os: "parse_objects dev dts = Inr (ro, os)" "\<forall>r \<in> set rows. map_of ro (fst r) = Some (row_info r)"
    using row_objects_fold [OF assms(1) dts(2) _ assms(2), of "[]" "[]"]
    by (auto simp: parse_objects_def dev_def device_descendants simp del: map_map)
  have "find_device ?doc = Inr dev"
    by (simp add: find_device_def document_descendants concrete_def device_children attribute_def dev_def del: map_map)
  moreover have "parse_pdos dev ''RxPdo'' = Inr (pdo_table ''RxPdo'' 0x1600 (ct_rx spec))"
    "parse_pdos dev ''TxPdo'' = Inr (pdo_table ''TxPdo'' 0x1a00 (ct_tx spec))"
    using parse_pdo_fixture assms(3,4) by (simp_all add: parse_pdos_def dev_def device_children pdo_table_def)
  ultimately obtain c where "parse_cmmt_esi_catalog variant ?doc = Inr c" "esi_product_code c = id_product (ct_identity spec)"
    "esi_revision c = id_revision (ct_identity spec)" "esi_root_objects c = ro" "esi_objects c = os"
    "esi_rxpdos c = pdo_table ''RxPdo'' 0x1600 (ct_rx spec)" "esi_txpdos c = pdo_table ''TxPdo'' 0x1a00 (ct_tx spec)"
    using dts(1) os(1) parse_format_X assms(5,6)
    by (simp add: parse_cmmt_esi_catalog_def Let_def device_children dev_def int_attribute_def attribute_def)
  then show ?thesis using os parse_objects_agree [OF os(1)] by auto
qed

lemma generated_rows:
  assumes "generate_fixture spec = Inr doc" "contract_ok spec"
  shows "\<exists>rows. doc = fixture_document spec (row_elements rows) \<and> list_all row_ok rows \<and> distinct (map fst rows) \<and>
    (\<forall>e \<in> set (ct_entries spec). en_index e \<notin> set communication \<longrightarrow> (\<exists>l x. (en_index e, l, x) \<in> set rows \<and> e \<in> set l)) \<and>
    0 \<le> id_product (ct_identity spec) \<and> 0 \<le> id_revision (ct_identity spec)"
proof -
  obtain gs objects where gs: "fixture_groups spec = Inr gs"
    "emap (\<lambda>(index, grp). fixture_object index grp) (sort_key fst gs) = Inr objects" "doc = fixture_document spec objects"
    using assms(1) by (auto simp: generate_fixture_def ebind_Inr_iff)
  note g = fixture_groups_ok [OF gs(1) assms(2)]
  have k: "distinct (map fst gs)" "list_all group_ok (sort_key fst gs)" using g by (auto simp: groups_ok_def list_all_iff)
  obtain rows where rows: "objects = row_elements rows" "map (\<lambda>(i, g, x). (i, g)) rows = sort_key fst gs" "list_all row_ok rows"
    using fixture_rows [OF gs(2) k(2)] by blast
  have "map fst rows = map fst (sort_key fst gs)" using arg_cong [OF rows(2), of "map fst"] by (simp add: o_def case_prod_beta')
  then have "distinct (map fst rows)" using k(1) by (simp add: distinct_map)
  moreover have "\<exists>l x. (en_index e, l, x) \<in> set rows \<and> e \<in> set l"
    if e: "e \<in> set (ct_entries spec)" "en_index e \<notin> set communication" for e
  proof -
    let ?l = "filter (\<lambda>f. en_index f = en_index e) (ct_entries spec)"
    have "map_of gs (en_index e) = Some ?l" using g e by (auto simp: group_entries_lookup Let_def filter_empty_conv)
    then have "(en_index e, ?l) \<in> set (map (\<lambda>(i, g, x). (i, g)) rows)" using rows(2) by (auto dest: map_of_SomeD)
    then show ?thesis using e(1) by auto
  qed
  ultimately show ?thesis using gs(3) rows(1,3) fixture_identity [OF gs(1)] by blast
qed

text \<open>
  C37. The ESI document that is generated from a well-formed contract of an axis is read back by
  the catalog parser with the identity of the contract, the type, size and access of every entry
  outside the communication objects, and the process data mapping of both directions.
\<close>

theorem fixture_round_trip:
  assumes "generate_fixture spec = Inr doc" "contract_ok spec"
  shows "\<exists>c. parse_cmmt_esi_catalog variant doc = Inr c \<and>
    esi_product_code c = id_product (ct_identity spec) \<and> esi_revision c = id_revision (ct_identity spec) \<and>
    (\<forall>e \<in> set (ct_entries spec). en_index e \<notin> set communication \<longrightarrow>
       (\<exists>v. object_info c (en_index e) (en_subindex e) = Inr v \<and> obj_data_type v = en_type e \<and>
          obj_bit_size v = en_bits e \<and> obj_access v = access_or_ro e)) \<and>
    rxpdo_mapping_entries c 0x1600 = Inr (map mapping_value (ct_rx spec)) \<and>
    txpdo_mapping_entries c 0x1a00 = Inr (map mapping_value (ct_tx spec))"
proof -
  obtain rows where rows: "doc = fixture_document spec (row_elements rows)" "list_all row_ok rows" "distinct (map fst rows)"
    "\<And>e. e \<in> set (ct_entries spec) \<Longrightarrow> en_index e \<notin> set communication \<Longrightarrow> \<exists>l x. (en_index e, l, x) \<in> set rows \<and> e \<in> set l"
    "0 \<le> id_product (ct_identity spec)" "0 \<le> id_revision (ct_identity spec)"
    using generated_rows [OF assms] by blast
  have f: "list_all field_ok (ct_rx spec)" "list_all field_ok (ct_tx spec)" using assms(2) by (auto simp: contract_ok_def)
  obtain c where c: "parse_cmmt_esi_catalog variant doc = Inr c" "esi_product_code c = id_product (ct_identity spec)"
    "esi_revision c = id_revision (ct_identity spec)" "tables_agree (esi_root_objects c) (esi_objects c)"
    "\<forall>r \<in> set rows. map_of (esi_root_objects c) (fst r) = Some (row_info r)"
    "esi_rxpdos c = pdo_table ''RxPdo'' 0x1600 (ct_rx spec)" "esi_txpdos c = pdo_table ''TxPdo'' 0x1a00 (ct_tx spec)"
    using document_parses [OF rows(2,3) f rows(5,6), of variant] rows(1) by blast
  have "\<exists>v. object_info c (en_index e) (en_subindex e) = Inr v \<and> obj_data_type v = en_type e \<and>
      obj_bit_size v = en_bits e \<and> obj_access v = access_or_ro e"
    if e: "e \<in> set (ct_entries spec)" "en_index e \<notin> set communication" for e
  proof -
    obtain l x where x: "(en_index e, l, x) \<in> set rows" "e \<in> set l" using rows(4) [OF e] by blast
    then have "row_ok (en_index e, l, x)" using rows(2) by (auto simp: list_all_iff)
    then obtain v where v: "map_of (rev (flat_entries (row_info (en_index e, l, x)))) (en_index e, en_subindex e) = Some v"
      "obj_data_type v = en_type e" "obj_bit_size v = en_bits e" "obj_access v = access_or_ro e"
      using row_lookup [of "en_index e" l x e] x(2) assms(2) e(1) by (auto simp: contract_ok_def list_all_iff)
    have "map_of (esi_root_objects c) (en_index e) = Some (row_info (en_index e, l, x))" using c(5) x by fastforce
    then have "map_of (esi_objects c) (en_index e, en_subindex e) = Some v" using v(1) c(4) unfolding tables_agree_def by blast
    then show ?thesis using v by (simp add: object_info_def get_key_def)
  qed
  moreover have "map (esi_mapping_entry \<circ> entry_info) fs = map mapping_value fs" if "list_all field_ok fs" for fs
    using that by (auto simp: list_all_iff entry_info_word)
  ultimately show ?thesis using c f
    by (intro exI [of _ c]) (simp add: rxpdo_mapping_entries_def txpdo_mapping_entries_def get_key_def mapping_entries_def pdo_table_def)
qed

end
