(* ===== verification/Supervisor.thy ===== *)
theory Supervisor
  imports Configuration
begin

text \<open>
  The supervisor of the container (docker/service.py): its settings, the checks of the network
  interface, the health check, and the life of the two child processes. The texts of the files
  under /proc and /sys, the outcome of starting a process, of writing the status file, of printing, of
  removing the socket and of making the folders, and what each pass of a waiting loop observes are
  arguments. A second poll of a process in the same pass sees what the first one saw.
\<close>

section \<open>Settings\<close>

record service_settings =
  ss_nic :: string
  ss_timing :: bool
  ss_timeout :: int
  ss_run_id :: string



section \<open>The network interface\<close>









section \<open>Status and health\<close>

datatype child = Model | Slave

record status =
  st_event :: string
  st_time :: pyfloat
  st_processes :: "(child \<times> int \<times> int option) list"
  st_error :: "pyexc option"

text \<open>
  \<open>healthcheck\<close>: \<open>stored\<close> is the parsed status file, \<open>now\<close> the time and \<open>alive\<close> the outcome of signal 0.
  A status file that cannot be read counts as unhealthy.
\<close>

definition healthcheck :: "status res \<Rightarrow> pyfloat \<Rightarrow> (int \<Rightarrow> unit res) \<Rightarrow> int res" where
  "healthcheck stored now alive =
     (case ebind stored (\<lambda>st.
        if st_event st \<noteq> ''ready'' \<or> flt (Fin 10) (fsub now (st_time st)) then Inr 1
        else ebind (emap (\<lambda>(_, pid, _). alive pid) (st_processes st)) (\<lambda>_. Inr 0)) of
        Inl e \<Rightarrow> if e = OSError \<or> is_ValueError e \<or> is_KeyError e then Inr 1 else Inl e
      | Inr code \<Rightarrow> Inr code)"

section \<open>Waiting\<close>

text \<open>
  What the operating system makes of a status: it is written (and printed); the file cannot be written
  or moved into place; or the file is in place and printing it fails.
\<close>

datatype writing = Written | NotWritten pyexc | NotPrinted pyexc

text \<open>
  What one pass of a loop observes, with the monotonic time and the clock, and how looking at the socket,
  reading the status file and writing it end in this pass.
\<close>

record tick =
  tk_stop :: bool
  tk_model :: "int option"
  tk_slave :: "int option"
  tk_socket :: "bool res"
  tk_owners :: "string list res"
  tk_time :: pyfloat
  tk_clock :: pyfloat
  tk_read :: "unit res"
  tk_write :: writing

datatype signal = Terminate | Kill

text \<open>
  The supervisor: the children it started, with their process numbers, the status file, the events that
  were printed, the signals sent, and whether the lock file is open.
\<close>

record supervisor =
  sp_children :: "(child \<times> int) list"
  sp_status :: "status option"
  sp_printed :: "string list"
  sp_signals :: "(child \<times> signal) list"
  sp_locked :: bool

type_synonym 'a service_m = "(supervisor, 'a) pym"

definition poll :: "tick \<Rightarrow> child \<Rightarrow> int option" where
  "poll k c = (case c of Model \<Rightarrow> tk_model k | Slave \<Rightarrow> tk_slave k)"

definition announce :: "string \<Rightarrow> unit res \<Rightarrow> unit service_m" where
  "announce event printed = thn (lift printed) (modify (\<lambda>s. s\<lparr>sp_printed := sp_printed s @ [event]\<rparr>))"

definition write_status :: "string \<Rightarrow> pyexc option \<Rightarrow> writing \<Rightarrow> tick \<Rightarrow> unit service_m" where
  "write_status event failure w k =
     thn (case w of NotWritten e \<Rightarrow> raise e | _ \<Rightarrow> ret ())
    (thn (modify (\<lambda>s. s\<lparr>sp_status := Some \<lparr>st_event = event, st_time = tk_clock k,
           st_processes = map (\<lambda>(c, pid). (c, pid, poll k c)) (sp_children s), st_error = failure\<rparr>\<rparr>))
         (whenm (event \<noteq> ''ready'') (announce event (case w of NotPrinted e \<Rightarrow> Inl e | _ \<Rightarrow> Inr ()))))"

text \<open>
  How a loop ends: because a stop was requested, with the validation, or with what it waited for and
  the observations behind it; it is still waiting when the observations end.
\<close>

datatype waited = Waiting | StopRequested | Validated tick | Ready "tick list"



text \<open>The session: a failed model is reported once and does not end it; a slave that exits does.\<close>

definition model_failed :: "supervisor \<Rightarrow> bool" where
  "model_failed s = (case sp_status s of None \<Rightarrow> False | Some st \<Rightarrow> st_event st = ''model-failed'')"

definition report :: "tick \<Rightarrow> unit service_m" where
  "report k = (case tk_model k of
      Some _ \<Rightarrow>
        thn (lift (tk_read k))
       (bnd (gets model_failed) (\<lambda>known. if known then ret () else write_status ''model-failed'' None (tk_write k) k))
    | None \<Rightarrow> write_status ''ready'' None (tk_write k) k)"

definition timed_out :: "service_settings \<Rightarrow> pyfloat \<Rightarrow> tick \<Rightarrow> bool" where
  "timed_out ss started k \<longleftrightarrow> ss_timeout ss \<noteq> 0 \<and> py_le (VInt (ss_timeout ss)) (VFloat (fsub (tk_time k) started)) = Inr True"

fun session :: "service_settings \<Rightarrow> pyfloat \<Rightarrow> tick list \<Rightarrow> waited service_m" where
  "session ss started [] = ret Waiting"
| "session ss started (k # ks) =
     (if tk_stop k then ret StopRequested
      else if tk_slave k \<noteq> None then raise RuntimeError
      else thn (report k) (if timed_out ss started k then raise RuntimeError else session ss started ks))"

section \<open>Ending\<close>


definition send :: "child \<Rightarrow> signal \<Rightarrow> unit service_m" where
  "send c a = modify (\<lambda>s. s\<lparr>sp_signals := sp_signals s @ [(c, a)]\<rparr>)"



section \<open>The service\<close>









section \<open>Signals\<close>

text \<open>Nothing but stopping sends a signal.\<close>

definition silent :: "'a service_m \<Rightarrow> bool" where
  "silent m \<longleftrightarrow> (\<forall>s. sp_signals (snd (m s)) = sp_signals s)"

named_theorems silent_intro \<open>computations that send no signal\<close>


lemma silent_leaf [silent_intro]: "silent (ret x)" "silent (raise e)" "silent (lift r)" "silent (gets f)"
  by (simp_all add: silent_def pym)

lemma silent_modify [silent_intro]: "(\<And>s. sp_signals (f s) = sp_signals s) \<Longrightarrow> silent (modify f)"
  by (simp add: silent_def pym)

lemma silent_bnd [silent_intro]: "silent m \<Longrightarrow> (\<And>x. silent (g x)) \<Longrightarrow> silent (bnd m g)"
  by (auto simp: silent_def bnd_def split: prod.splits sum.splits) (metis snd_conv)+

lemma silent_thn [silent_intro]: "silent m \<Longrightarrow> silent k \<Longrightarrow> silent (thn m k)"
  by (simp add: thn_def silent_bnd)

lemma silent_if [silent_intro]: "silent m \<Longrightarrow> silent n \<Longrightarrow> silent (if c then m else n)"
  by simp

lemma silent_whenm [silent_intro]: "silent m \<Longrightarrow> silent (whenm c m)"
  by (simp add: whenm_def silent_leaf)






section \<open>Properties\<close>



















definition calm :: "service_settings \<Rightarrow> pyfloat \<Rightarrow> tick \<Rightarrow> bool" where
  "calm ss started k \<longleftrightarrow> \<not> tk_stop k \<and> tk_slave k = None \<and> \<not> timed_out ss started k \<and> tk_read k = Inr () \<and> tk_write k = Written"

lemma report_run:
  assumes "tk_read k = Inr ()" "tk_write k = Written"
  shows "\<exists>t st. report k s = (Inr (), t) \<and> sp_children t = sp_children s \<and> sp_signals t = sp_signals s \<and>
    sp_status t = Some st \<and> st_event st = (if tk_model k = None then ''ready'' else ''model-failed'')"
  using assms
  by (auto simp: report_def write_status_def announce_def model_failed_def whenm_def pym bnd_def split: option.splits)

lemma session_last:
  "ks \<noteq> [] \<Longrightarrow> list_all (calm ss started) ks \<Longrightarrow>
   \<exists>t st. session ss started ks s = (Inr Waiting, t) \<and> sp_children t = sp_children s \<and> sp_signals t = sp_signals s \<and>
     sp_status t = Some st \<and> st_event st = (if tk_model (List.last ks) = None then ''ready'' else ''model-failed'')"
proof (induction ks arbitrary: s)
  case (Cons k ks)
  then have k: "calm ss started k" by simp
  then obtain t st where t: "report k s = (Inr (), t)" "sp_children t = sp_children s" "sp_signals t = sp_signals s"
    "sp_status t = Some st" "st_event st = (if tk_model k = None then ''ready'' else ''model-failed'')"
    using report_run [of k s] by (auto simp: calm_def)
  have run: "session ss started (k # ks) s = session ss started ks t" using k t(1) by (simp add: calm_def thn_def bnd_def)
  show ?case
  proof (cases "ks = []")
    case True
    then show ?thesis using run t by (simp add: ret_def)
  next
    case False
    then show ?thesis using Cons.IH [of t] Cons.prems(2) run t by simp
  qed
qed simp

text \<open>
  C40. A session that nobody stops goes on when the model process dies, as long as the slave
  lives, no time limit is reached and the status file can be read and written: no child is
  signalled, and the status says ready or model-failed by the last observation. With model-failed
  the health check of the container fails.
\<close>

theorem slave_survives_model:
  assumes "list_all (calm ss started) (ks @ [k])"
  shows "\<exists>s' st. session ss started (ks @ [k]) s = (Inr Waiting, s') \<and> sp_children s' = sp_children s \<and>
    sp_signals s' = sp_signals s \<and> sp_status s' = Some st \<and>
    (if tk_model k = None then st_event st = ''ready''
     else st_event st = ''model-failed'' \<and> healthcheck (Inr st) now alive = Inr 1)"
proof -
  obtain t st where t: "session ss started (ks @ [k]) s = (Inr Waiting, t)" "sp_children t = sp_children s" "sp_signals t = sp_signals s"
    "sp_status t = Some st" "st_event st = (if tk_model k = None then ''ready'' else ''model-failed'')"
    using session_last [OF _ assms, of s] by auto
  then show ?thesis by (auto simp: healthcheck_def)
qed

end
