(* ===== verification/ConfigExamples.thy ===== *)
theory ConfigExamples
  imports Startup Fixture Supervisor Specimen
begin

text \<open>
  The properties of the configuration at concrete inputs: an ESI document with the objects of the
  specimen drive, and an environment with one axis.
\<close>

section \<open>An ESI document\<close>

text \<open>The objects of the specimen drive: index, and subindex, type and bits of the entries.\<close>

type_synonym listed_object = "string \<times> (string \<times> string \<times> string) list"

definition listed_objects :: "listed_object list" where
  "listed_objects =
     [(''#x607D'', [(''1'', ''int32'', ''32''), (''2'', ''int32'', ''32'')]), (''#x6067'', [(''0'', ''uint32'', ''32'')]),
      (''#x6068'', [(''0'', ''uint16'', ''16'')]), (''#x607F'', [(''0'', ''uint32'', ''32'')]), (''#x6083'', [(''0'', ''uint32'', ''32'')]),
      (''#x6084'', [(''0'', ''uint32'', ''32'')]), (''#x6098'', [(''0'', ''int8'', ''8'')]),
      (''#x6099'', [(''1'', ''uint32'', ''32''), (''2'', ''uint32'', ''32'')]), (''#x609A'', [(''0'', ''uint32'', ''32'')]),
      (''#x60C5'', [(''0'', ''uint32'', ''32'')]), (''#x60C6'', [(''0'', ''uint32'', ''32'')]), (''#x60A4'', [(''1'', ''uint32'', ''32'')]),
      (''#x216E'', [(''1'', ''uint16'', ''16'')]),
      (''#x2194'', [(''1'', ''int8'', ''8''), (''2'', ''int8'', ''8''), (''3'', ''int8'', ''8''), (''4'', ''int8'', ''8'')]),
      (''#x2183'', [(''12'', ''float32'', ''32'')]), (''#x217B'', [(''13'', ''uint32'', ''32'')]),
      (''#x212E'', [(''1'', ''uint16'', ''16''), (''2'', ''float32'', ''32''), (''9'', ''float32'', ''32'')]),
      (''#x1C32'', [(''1'', ''uint16'', ''16''), (''2'', ''uint32'', ''32'')]), (''#x2000'', [(''1'', ''uint8'', ''8'')]),
      (''#x2005'', [(''1'', ''uint8'', ''8''), (''2'', ''uint8'', ''8''), (''3'', ''uint16'', ''16''), (''4'', ''uint16'', ''16''), (''5'', ''uint16'', ''16'')]),
      (''#x2145'', [(''12'', ''uint32'', ''32'')]), (''#x6040'', [(''0'', ''uint16'', ''16'')]), (''#x6060'', [(''0'', ''int8'', ''8'')]),
      (''#x607A'', [(''0'', ''int32'', ''32'')]), (''#x6081'', [(''0'', ''uint32'', ''32'')]), (''#x60FF'', [(''0'', ''int32'', ''32'')]),
      (''#x6071'', [(''0'', ''int16'', ''16'')]), (''#x60B1'', [(''0'', ''int32'', ''32'')]), (''#x60B2'', [(''0'', ''int16'', ''16'')]),
      (''#x6041'', [(''0'', ''uint16'', ''16'')]), (''#x6061'', [(''0'', ''int8'', ''8'')]), (''#x6064'', [(''0'', ''int32'', ''32'')]),
      (''#x606C'', [(''0'', ''int32'', ''32'')]), (''#x6077'', [(''0'', ''int16'', ''16'')])]"

definition document_flags :: element where
  "document_flags = node ''Flags'' [leaf ''Access'' ''rw'']"

definition document_subitem :: "string \<times> string \<times> string \<Rightarrow> element" where
  "document_subitem = (\<lambda>(k, t, b). node ''SubItem'' [leaf ''SubIdx'' k, leaf ''Name'' ''object'', leaf ''Type'' t, leaf ''BitSize'' b, document_flags])"

definition document_type :: "listed_object \<Rightarrow> element list" where
  "document_type = (\<lambda>(i, es). if fst (hd es) = ''0'' then [] else [node ''DataType'' (leaf ''Name'' (''DT'' @ i) # map document_subitem es)])"

definition document_object :: "listed_object \<Rightarrow> element" where
  "document_object = (\<lambda>(i, es). case hd es of (k, t, b) \<Rightarrow>
     node ''Object'' [leaf ''Index'' i, leaf ''Name'' ''object'', leaf ''Type'' (if k = ''0'' then t else ''DT'' @ i), leaf ''BitSize'' b, document_flags])"

definition specimen_device :: element where
  "specimen_device = node ''Device''
     ([Element ''Type'' [(''ProductCode'', ''8067733''), (''RevisionNo'', ''36120'')] ''CMMT'' '''' []] @
      concat (map document_type listed_objects) @ map document_object listed_objects)"

definition specimen_document :: element where
  "specimen_document = node ''EtherCATInfo'' [node ''Vendor'' [leaf ''Id'' ''#x001D''], specimen_device]"

lemma found_listed:
  "found ''Object'' (document_object x) = [document_object x]" "found ''DataType'' (document_object x) = []" "found ''Device'' (document_object x) = []"
  "concat (map (found ''Object'') (document_type x)) = []" "concat (map (found ''Device'') (document_type x)) = []"
  "concat (map (found ''DataType'') (document_type x)) = document_type x"
  by (auto simp: document_object_def document_type_def document_subitem_def document_flags_def tree_defs split: prod.splits)

lemma found_all_listed:
  "concat (map (found ''Object'') (map document_object xs)) = map document_object xs"
  "concat (map (found ''DataType'') (map document_object xs)) = []" "concat (map (found ''Device'') (map document_object xs)) = []"
  "concat (map (found ''Object'') (concat (map document_type xs))) = []"
  "concat (map (found ''Device'') (concat (map document_type xs))) = []"
  "concat (map (found ''DataType'') (concat (map document_type xs))) = concat (map document_type xs)"
  by (induction xs) (simp_all add: found_listed)

lemma specimen_descendants:
  "descendants ''Device'' specimen_document = [specimen_device]"
  "descendants ''DataType'' specimen_document = concat (map document_type listed_objects)"
  "descendants ''Object'' specimen_device = map document_object listed_objects"
  by (simp_all add: specimen_document_def specimen_device_def descendants_found node_def leaf_def found_all_listed del: map_map map_concat)

lemma specimen_device_children:
  "child ''Type'' specimen_device = Some (Element ''Type'' [(''ProductCode'', ''8067733''), (''RevisionNo'', ''36120'')] ''CMMT'' '''' [])"
  "children ''RxPdo'' specimen_device = []" "children ''TxPdo'' specimen_device = []"
  by (auto simp: specimen_device_def child_def children_def node_def filter_empty_conv document_type_def document_object_def split: prod.splits if_splits)

lemma specimen_arrays: "parse_array_data_types specimen_document = Inr []"
proof -
  have "child ''ArrayInfo'' x = None" if "x \<in> set (concat (map document_type listed_objects))" for x
    using that by (auto simp: document_type_def document_subitem_def tree_defs filter_empty_conv o_def split: prod.splits if_splits)
  then show ?thesis unfolding parse_array_data_types_def specimen_descendants
    by (intro efold_skip) (simp add: add_array_type_def)
qed

definition parsed_listing :: "(root_objects \<times> esi_objects) res" where
  "parsed_listing = ebind (efold (add_data_type []) (concat (map document_type listed_objects)) [])
     (\<lambda>data_types. efold (add_object data_types) (map document_object listed_objects) ([], []))"

definition entry_row :: "(int \<times> int) \<times> CMMTEsiObjectInfo \<Rightarrow> (int \<times> int) \<times> CatalogEntry" where
  "entry_row = (\<lambda>(k, x). (k, \<lparr>cat_name = obj_name x, cat_data_type = obj_data_type x, cat_bit_size = obj_bit_size x, cat_access = obj_access x\<rparr>))"

lemma listing_parses: "case parsed_listing of Inl _ \<Rightarrow> False | Inr (ro, os) \<Rightarrow> map entry_row os = specimen_catalog"
  by code_simp

lemma specimen_numbers: "parse_int ''8067733'' = Inr identity_product_code" "parse_int ''36120'' = Inr identity_revision"
  "int_of_str 0 ''0x001D'' = Inr 29" "strip ''CMMT'' = ''CMMT''"
  by code_simp+

lemma specimen_parses:
  "\<exists>c. parse_cmmt_esi_catalog ''as'' specimen_document = Inr c \<and> esi_product_code c = identity_product_code \<and>
     esi_revision c = identity_revision \<and> object_dictionary_entries c = specimen_catalog"
proof -
  obtain ro os where r: "parsed_listing = Inr (ro, os)" "map entry_row os = specimen_catalog"
    using listing_parses by (auto split: sum.splits)
  then obtain dts where d: "parse_data_types specimen_document = Inr dts" "parse_objects specimen_device dts = Inr (ro, os)"
    unfolding parsed_listing_def parse_data_types_def parse_objects_def specimen_arrays specimen_descendants by (auto simp: ebind_Inr_iff)
  have "find_device specimen_document = Inr specimen_device"
    by (simp add: find_device_def specimen_descendants concrete_def specimen_device_children attribute_def)
  then show ?thesis using d r(2)
    by (simp add: parse_cmmt_esi_catalog_def specimen_device_children Let_def int_attribute_def attribute_def specimen_numbers
        parse_pdos_def object_dictionary_entries_def entry_row_def)
qed

lemma specimen_description:
  "\<exists>d. CmmtAsDescription specimen_document ''linear'' = Inr d \<and> CiA402DriveProfile d = Inr specimen_profile"
proof -
  obtain c where c: "parse_cmmt_esi_catalog ''as'' specimen_document = Inr c" "esi_product_code c = identity_product_code"
     "esi_revision c = identity_revision" "object_dictionary_entries c = specimen_catalog"
    using specimen_parses by blast
  have "esi_vendor_id specimen_document = Inr 29"
    by (simp add: esi_vendor_id_def specimen_document_def specimen_device_def tree_defs specimen_numbers)
  then show ?thesis using c specimen_profile_ok(1)
    by (simp add: CmmtAsDescription_def CiA402DriveProfile_def cmmt_parameters_def)
qed

lemma specimen_esi_supports: "esi_supports specimen_document ''linear''"
  using specimen_description specimen_profile_ok(3,4) specimen_catalog_ok by (auto simp: esi_supports_def supports_def)

section \<open>The installation\<close>

text \<open>What the specimen drive holds under an address, and whether an axis can serve it.\<close>

definition held :: "DeviceProfile \<Rightarrow> int \<times> int \<Rightarrow> VirtualOdEntry option" where
  "held p = (\<lambda>(i, k). if (i, k) \<in> set (profile_addresses p) \<and> i \<noteq> 0 then
     (case map_of (prof_catalog p) (i, k) of
        None \<Rightarrow> None
      | Some c \<Rightarrow> (case default_value (cat_data_type c) (cat_bit_size c) of
          Inl _ \<Rightarrow> None
        | Inr v \<Rightarrow> Some (final_entry p (storage_key i k) (catalog_entry ((i, k), c) v)))) else None)"

definition held_serves :: "DeviceProfile \<Rightarrow> int \<times> int \<Rightarrow> bool" where
  "held_serves p x = (case held p x of None \<Rightarrow> False | Some e \<Rightarrow> entry_serves e)"

definition held_sends :: "DeviceProfile \<Rightarrow> ObjectDictionaryEntry \<Rightarrow> bool" where
  "held_sends p e = (case byte_length e of
      Inl _ \<Rightarrow> False
    | Inr n \<Rightarrow> is_padding e \<or> (case held p (ode_index e, ode_subindex e) of
        None \<Rightarrow> False
      | Some x \<Rightarrow> \<not> isl (encode_od_value (ode_data_type e) (ent_value x) (Some (nat n)))))"

lemma held_found:
  assumes "ConfiguredObjectDictionary p = Inr od" "plain_profile p" "distinct (map fst (prof_catalog p))" "held p (i, k) = Some e"
  shows "look od (storage_key i k) = Some e"
  using configured_address [OF assms(1-3), of i k] assms(4) by (auto simp: held_def split: if_splits option.splits sum.splits)

lemma specimen_sizes: "\<not> isl (pdo_size pdo_rx)" "\<not> isl (pdo_size pdo_tx)"
  by code_simp+

definition role_keys :: "DeviceProfile \<Rightarrow> (int \<times> int) list" where
  "role_keys p = map (\<lambda>r. (role_index r, role_subindex r)) (prof_roles p)"

definition pdo_keys :: "DeviceProfile \<Rightarrow> (int \<times> int) list" where
  "pdo_keys p = map (\<lambda>e. (ode_index e, ode_subindex e)) (filter (\<lambda>e. ode_index e \<noteq> 0) (prof_rx p @ prof_tx p))"

lemma specimen_pdo_held:
  "case cmmt_profile specimen_catalog linear_mm of Inl _ \<Rightarrow> False | Inr p \<Rightarrow> list_all (held_serves p) (pdo_keys p)"
  by code_simp

lemma specimen_roles_held_1:
  "case cmmt_profile specimen_catalog linear_mm of Inl _ \<Rightarrow> False | Inr p \<Rightarrow> list_all (held_serves p) (take 11 (role_keys p))"
  by code_simp

lemma specimen_roles_held_2:
  "case cmmt_profile specimen_catalog linear_mm of Inl _ \<Rightarrow> False | Inr p \<Rightarrow> list_all (held_serves p) (take 11 (drop 11 (role_keys p)))"
  by code_simp

lemma specimen_roles_held_3:
  "case cmmt_profile specimen_catalog linear_mm of Inl _ \<Rightarrow> False | Inr p \<Rightarrow> list_all (held_serves p) (drop 11 (drop 11 (role_keys p)))"
  by code_simp

lemma specimen_kept:
  "case cmmt_profile specimen_catalog linear_mm of Inl _ \<Rightarrow> False | Inr p \<Rightarrow>
     list_all (\<lambda>k. k \<in> set (pdo_keys p @ role_keys p)) (fkr_persistent_roles p) \<and> list_all (held_sends p) (prof_tx p)"
  by code_simp

lemma specimen_held: "k \<in> set (pdo_keys specimen_profile @ role_keys specimen_profile) \<Longrightarrow> held_serves specimen_profile k"
proof -
  assume k: "k \<in> set (pdo_keys specimen_profile @ role_keys specimen_profile)"
  let ?r = "role_keys specimen_profile" and ?P = "held_serves specimen_profile"
  have "list_all ?P (take 11 ?r)" "list_all ?P (take 11 (drop 11 ?r))" "list_all ?P (drop 11 (drop 11 ?r))"
    using specimen_roles_held_1 specimen_roles_held_2 specimen_roles_held_3 unfolding specimen_profile_ok(1) sum.case .
  then have "list_all ?P (take 11 ?r @ take 11 (drop 11 ?r) @ drop 11 (drop 11 ?r))" unfolding list_all_append by blast
  then have "list_all ?P ?r" unfolding append_take_drop_id .
  then show ?thesis using k specimen_pdo_held specimen_profile_ok(1) by (auto simp: list_all_iff)
qed

lemma profile_layout: "cmmt_profile cat v = Inr p \<Longrightarrow> prof_rx p = pdo_rx \<and> prof_tx p = pdo_tx"
  by (auto simp: cmmt_profile_def mk_profile_def Let_def ebind_Inr_iff)

lemma specimen_od: "ConfiguredObjectDictionary specimen_profile = Inr (sv_od specimen)"
  by (rule fkr_init_od [OF specimen_ok(1)])

lemma specimen_servable: "servable specimen_profile (sv_od specimen)"
proof -
  have p: "plain_profile specimen_profile" "distinct (map fst (prof_catalog specimen_profile))"
    using specimen_profile_ok specimen_catalog_ok by (simp_all add: servo_profile_def)
  note look = held_found [OF specimen_od p]
  have a: "address_serves (sv_od specimen) x" if "held_serves specimen_profile x" for x
    using that look by (cases x) (auto simp: held_serves_def address_serves_def split: option.splits)
  have t: "tx_serves (sv_od specimen) e" if "held_sends specimen_profile e" for e
    using that look [of "ode_index e" "ode_subindex e"]
    by (auto simp: held_sends_def tx_serves_def od_val_def look_def split: sum.splits option.splits)
  have "list_all (held_serves specimen_profile) (required_addresses specimen_profile)"
    using specimen_held by (auto simp: required_addresses_def list_all_iff pdo_keys_def role_keys_def)
  moreover have "list_all (held_serves specimen_profile) (fkr_persistent_roles specimen_profile)"
    "list_all (held_sends specimen_profile) (prof_tx specimen_profile)"
    using specimen_kept specimen_held specimen_profile_ok(1) unfolding list_all_iff by auto
  ultimately show ?thesis
    using a t specimen_sizes profile_layout [OF specimen_profile_ok(1)] by (auto simp: servable_def list_all_iff)
qed

lemma specimen_esi_serves: "esi_serves specimen_document ''linear''"
  using specimen_description specimen_esi_supports specimen_od specimen_servable by (auto simp: esi_serves_def)

definition one_axis :: json where
  "one_axis = JObj [(''schema_version'', JInt 1), (''ethercat'', JObj [(''interface'', JStr ''eth1'')]),
     (''storage'', JObj [(''directory'', JStr ''/state'')]),
     (''devices'', JList [JObj [(''slave_index'', JInt 0), (''id'', JStr ''x''), (''type'', JStr ''cia402-drive''),
        (''model'', JObj [(''type'', JStr ''f_kr_cmmt''), (''mode'', JStr ''linear'')]), (''parameter_set'', JStr ''x'')]])]"

definition one_axis_device :: device where
  "one_axis_device = \<lparr>slave_index = 0, dev_id = ''x'', dev_type = ''cia402-drive'', model_type = ''f_kr_cmmt'',
     model_mode = ''linear'', artifact = None, parameter_set = ''x''\<rparr>"

definition plain_paths :: resolver where
  "plain_paths base path = Inr path"

lemma one_axis_valid: "validate_config plain_paths one_axis ''/'' = Inr one_axis"
  by code_simp

lemma one_axis_devices: "config_devices one_axis ds \<Longrightarrow> ds = [one_axis_device]"
  by (auto simp: config_devices_def one_axis_def one_axis_device_def item_def device_json_def list_all2_Cons1 split: option.splits)

text \<open>A unit that answers every request and stands still.\<close>

definition still_unit :: "unit fmu" where
  "still_unit = \<lparr>fmu_mkdtemp = Inr (), fmu_cleanup = Inr (), fmu_load = Inr (), fmu_instantiate = ret (), fmu_set = (\<lambda>_ _ _. ret ()),
     fmu_get = (\<lambda>t _. ret (if t = ''Float64'' then FFloat (Fin 1) else FInt 0)),
     fmu_do_step = (\<lambda>_ _. ret (False, False, False)), fmu_terminate = ret (), fmu_component = (\<lambda>_. True), fmu_free = ret ()\<rparr>"

definition still_units :: "unit units" where
  "still_units a = (still_unit, Inl OSError)"

definition plain_hashes :: hashes where
  "plain_hashes = \<lparr>digest = snap_type, contract_hash = ct_preset\<rparr>"

theorem installation_starts_witness:
  "\<exists>f. open_fleet still_units specimen_document ''h'' plain_hashes None [one_axis_device] (\<lambda>_. None) = Inr f \<and>
    map ax_device (models f) = [one_axis_device] \<and> list_all started (models f)"
proof -
  obtain ds where ds: "config_devices one_axis ds"
    "list_all (\<lambda>dev. model_type dev = ''f_kr_cmmt'' \<and> esi_serves specimen_document (model_mode dev)) ds \<longrightarrow>
      (\<exists>f. open_fleet still_units specimen_document ''h'' plain_hashes None ds (\<lambda>_. None) = Inr f \<and>
        map ax_device (models f) = ds \<and> list_all started (models f))"
    using installation_starts [OF one_axis_valid, of specimen_document still_units "''h''" plain_hashes] by blast
  then show ?thesis using one_axis_devices [OF ds(1)] specimen_esi_serves by (simp add: one_axis_device_def)
qed

section \<open>Copley\<close>

definition still_runner :: "unit runner" where
  "still_runner = \<lparr>rn_fmu = Some (), rn_last = None, rn_initialized = True, rn_failed = False, rn_time = Fin 0,
     rn_variables = map (\<lambda>(n, t, c). (n, \<lparr>fv_type = t, fv_causality = c, fv_dimensions = False, fv_reference = 0\<rparr>)) SIGNATURE,
     rn_folder = True\<rparr>"

definition still_drive :: "unit copley" where
  "still_drive = \<lparr>cp_profile = specimen_profile, cp_od = sv_od specimen, cp_runner = still_runner, cp_remainder = Fin 0, cp_fault = False,
     cp_velocity_factor = Fin 1, cp_acceleration_factor = Fin 1, cp_persistent = []\<rparr>"

theorem copley_step_returns_witness:
  "\<exists>x s'. cp_step still_unit (flit (1 / 100)) still_drive = Some (x, s') \<and> cp_ok s'"
proof -
  have "cp_ok still_drive" using below_mono [OF below_0, of 2] below_mono [OF below_0, of 54] by (simp add: cp_ok_def still_drive_def)
  from copley_step_returns [OF this, of "flit (1 / 100)" still_unit] show ?thesis by simp
qed

section \<open>Environment\<close>

definition one_axis_env :: "(string \<times> string) list" where
  "one_axis_env = [(''KICKCAT_INTERFACE'', ''eth1''), (''DEVICE_SIMULATOR_STATE_DIR'', ''/state''),
     (''DEVICE_SIMULATOR_BUS'', ''0:axis:cia402-drive''), (''DEVICE_SIMULATOR_AXIS_IDS'', ''0:x''),
     (''DEVICE_SIMULATOR_AXIS_MODELS'', ''0:f_kr_cmmt''), (''DEVICE_SIMULATOR_AXIS_MODES'', ''0:linear''),
     (''DEVICE_SIMULATOR_AXIS_PARAMETER_SETS'', ''0:x'')]"

theorem environment_axes_witness:
  "\<exists>ids models modes sets ds. read_mapping one_axis_env ''IDS'' = Inr ids \<and> read_mapping one_axis_env ''MODELS'' = Inr models \<and>
    read_mapping one_axis_env ''MODES'' = Inr modes \<and> read_mapping one_axis_env ''PARAMETER_SETS'' = Inr sets \<and>
    config_devices one_axis ds \<and> list_all (listed ids models modes sets) ds"
proof -
  have "load_environment plain_paths one_axis_env ''/'' = Inr one_axis" by code_simp
  from environment_axes [OF this] show ?thesis .
qed

theorem load_config_errors_witness:
  "load_config plain_paths ''A=1'' ''/'' = Inl ValueError"
proof -
  have "\<exists>r. plain_paths b p = Inr r" for b p by (simp add: plain_paths_def)
  moreover have "isl (load_config plain_paths ''A=1'' ''/'')" by code_simp
  then obtain x where "load_config plain_paths ''A=1'' ''/'' = Inl x" by (auto simp: isl_def)
  ultimately show ?thesis using load_config_errors by metis
qed

theorem compose_env_reads_back_witness:
  "read_env (compose_env [(''A'', ''x y'')]) = Inr [(''A'', ''x y'')]"
proof -
  have "read_env (''A='' @ [double_quote] @ ''x y'' @ [double_quote]) = Inr [(''A'', ''x y'')]" by code_simp
  moreover have "list_all (\<lambda>(k, v). printable v) [(''A'', ''x y'')]" by code_simp
  ultimately show ?thesis by (rule compose_env_reads_back)
qed

section \<open>Documents\<close>

theorem catalog_lookup_witness:
  "\<exists>c. parse_cmmt_esi_catalog ''as'' specimen_document = Inr c \<and> object_info c 1 0 = Inl KeyError"
proof -
  obtain c where c: "parse_cmmt_esi_catalog ''as'' specimen_document = Inr c" "object_dictionary_entries c = specimen_catalog"
    using specimen_parses by blast
  have "list_all (\<lambda>x. fst (fst x) \<noteq> 1) specimen_catalog" by code_simp
  then have "list_all (\<lambda>x. fst (fst x) \<noteq> 1) (esi_objects c)"
    by (simp add: list_all_iff object_dictionary_entries_def split_beta flip: c(2))
  then have n: "map_of (esi_objects c) (1, 0) = None" by (auto simp: list_all_iff map_of_eq_None_iff)
  have "case map_of (esi_root_objects c) 1 of
        None \<Rightarrow> object_info c 1 0 = Inl KeyError
      | Some info \<Rightarrow> 0 < (1 :: int) \<and> obj_index info = 1 \<and>
          (\<forall>v. map_of (rev (flat_entries info)) (1, 0) = Some v \<longrightarrow> object_info c 1 0 = Inr v)"
    using catalog_lookup [OF c(1)] by blast
  then show ?thesis using c(1) n by (auto simp: object_info_def get_key_def)
qed

definition small_contract :: contract where
  "small_contract = \<lparr>ct_preset = ''linear_mm'', ct_source_hash = ''h'', ct_identity = \<lparr>id_vendor = 29, id_product = 1, id_revision = 2\<rparr>,
     ct_rx_size = 2, ct_tx_size = 0,
     ct_entries = [\<lparr>en_index = 100, en_subindex = 0, en_name = ''Control'', en_type = ''UINT'', en_bits = 16, en_access = ''rw'', en_initial = ''0000''\<rparr>],
     ct_rx = [\<lparr>pf_index = 100, pf_subindex = 0, pf_bits = 16, pf_name = ''Control'', pf_type = ''UINT''\<rparr>], ct_tx = []\<rparr>"

lemma emap_total: "list_all (\<lambda>x. \<not> isl (f x)) xs \<Longrightarrow> \<exists>ys. emap f xs = Inr ys"
proof (induction xs)
  case (Cons x xs)
  then show ?case by (cases "f x") auto
qed simp

lemma small_groups:
  "case fixture_groups small_contract of Inl _ \<Rightarrow> False | Inr gs \<Rightarrow> list_all (\<lambda>(i, g). \<not> isl (expanded i g)) (sort_key fst gs)"
  by code_simp

lemma small_fixture: "\<exists>doc. generate_fixture small_contract = Inr doc"
proof -
  obtain gs where gs: "fixture_groups small_contract = Inr gs" "list_all (\<lambda>(i, g). \<not> isl (expanded i g)) (sort_key fst gs)"
    using small_groups by (auto split: sum.splits)
  have "\<not> isl (fixture_object i g)" if "\<not> isl (expanded i g)" for i g
    using that by (cases "expanded i g") (simp_all add: fixture_object_row)
  then have "list_all (\<lambda>x. \<not> isl (case x of (i, g) \<Rightarrow> fixture_object i g)) (sort_key fst gs)"
    using gs(2) by (auto simp: list_all_iff)
  then show ?thesis using gs(1) emap_total by (fastforce simp: generate_fixture_def)
qed

theorem fixture_round_trip_witness:
  "\<exists>doc c. generate_fixture small_contract = Inr doc \<and> parse_cmmt_esi_catalog ''as'' doc = Inr c \<and> esi_revision c = 2 \<and>
    (\<exists>v. object_info c 100 0 = Inr v \<and> obj_data_type v = ''UINT'' \<and> obj_bit_size v = 16)"
proof -
  obtain doc where doc: "generate_fixture small_contract = Inr doc" using small_fixture by blast
  have "contract_ok small_contract" by code_simp
  from fixture_round_trip [OF doc this, of "''as''"] doc show ?thesis
    by (auto simp: small_contract_def communication_def)
qed

section \<open>Supervision\<close>

definition quiet_tick :: "int option \<Rightarrow> tick" where
  "quiet_tick model = \<lparr>tk_stop = False, tk_model = model, tk_slave = None, tk_socket = Inr True, tk_owners = Inr [''1''],
     tk_time = Fin 1, tk_clock = Fin 1, tk_read = Inr (), tk_write = Written\<rparr>"

definition free_settings :: service_settings where
  "free_settings = \<lparr>ss_nic = ''eth1'', ss_timing = False, ss_timeout = 0, ss_run_id = ''run''\<rparr>"

definition both_children :: supervisor where
  "both_children = \<lparr>sp_children = [(Model, 10), (Slave, 11)], sp_status = None, sp_printed = [], sp_signals = [], sp_locked = True\<rparr>"

theorem slave_survives_model_witness:
  "\<exists>s' st. session free_settings (Fin 0) [quiet_tick None, quiet_tick (Some 1)] both_children = (Inr Waiting, s') \<and>
    sp_children s' = [(Model, 10), (Slave, 11)] \<and> sp_status s' = Some st \<and> st_event st = ''model-failed'' \<and>
    healthcheck (Inr st) (Fin 2) (\<lambda>_. Inr ()) = Inr 1"
proof -
  have "list_all (calm free_settings (Fin 0)) ([quiet_tick None] @ [quiet_tick (Some 1)])"
    by (simp add: calm_def quiet_tick_def free_settings_def timed_out_def)
  from slave_survives_model [OF this, of both_children "Fin 2" "\<lambda>_. Inr ()"] show ?thesis
    by (auto simp: quiet_tick_def both_children_def)
qed





end
