(* ===== verification/Spec2Isabelle.thy ===== *)
theory Spec2Isabelle
  imports Examples ConfigExamples
begin

text \<open>
  Verification of the EtherCAT device simulator: the functional model of a CiA 402 drive
  (src/src/functional_model, Python), the CMMT device description it uses
  (src/device_descriptions/cmmt_as) and the configuration it starts from.

  \<^bold>\<open>The program.\<close> A configuration of axes is read from environment settings (configuration.py). The
  registry (adapter/registry.py) creates for each axis an adapter for a drive model, on an object
  dictionary that is configured from the ESI catalog of the device (catalog.py, description.py),
  roles, a preset and a PDO layout (profile/configured_od.py, profile/profile.py). A fleet of axes then
  answers requests of an EtherCAT slave process over a socket, one JSON object per line
  (ipc/server.py, runtime/fleet.py), and the slave gets an ESI document generated from the contract
  of the axes (fixture.py). An axis (runtime/axis.py) owns its adapter, the guard that keeps a failed
  model away from motion (diagnostics/fault.py), and a snapshot of its persistent parameters
  (storage/parameter_store.py). The F-KR adapter (adapter/f_kr_cmmt.py) runs a servo model
  (behaviour_model/f_kr_cmmt/servo_model.py) with a CiA 402 state machine; the Copley adapter
  (adapter/copley.py) runs an FMI unit (runtime/fmi/runner.py). SDO accesses and process data go
  through the bridge (profile/bridge.py) and the codec (profile/codec.py).

  \<^bold>\<open>Theories, in the order of the program.\<close>
  \<^item> \<open>Prelude\<close>: Python exceptions, results, and the state-and-exception monad \<open>pym\<close>; stateful
    methods are values of this type, \<open>raise\<close> and early \<open>return\<close> are branches.
  \<^item> \<open>PyFloat\<close>, \<open>PyText\<close>: IEEE double arithmetic by exact rational values and round to nearest
    even, \<open>int\<close>/\<open>bytes\<close>/\<open>str\<close> operations.
  \<^item> \<open>Metadata\<close>, \<open>Codec\<close>: PDO entries, mapping words, encoding of values. Shown: both round trips.
  \<^item> \<open>ObjectDictionary\<close>: the dictionary, its view and the role index. Shown: the index gives the
    same outcomes as the scan (locale \<open>od_interface\<close>, interpreted by both dictionaries).
  \<^item> \<open>Profile\<close>, \<open>CmmtData\<close>, \<open>Configured\<close>: the configured dictionary. Shown: for every catalog that
    supports the profile the construction succeeds, each address gets the value of its last
    overlay, roles are unique, and the CMMT profile fits the servo.
  \<^item> \<open>StateMachine\<close>: the drive state machine. Shown: exactly where it takes the transitions of CiA 402
    (\<open>standard_command\<close>, \<open>standard_step\<close>, stated by the bits of the control word) and where it differs,
    and the ladder that leads to operation enabled.
  \<^item> \<open>Servo\<close>: the servo, one definition per method. \<open>Magnitude\<close>, \<open>ServoInvariant\<close>, \<open>ServoTyping\<close>:
    the invariant \<open>sv\<close> (kinds and magnitudes of every value the servo touches) and that every
    method keeps it and raises nothing. \<open>ServoProps\<close>: the status word a cycle publishes, standstill outside
    operation enabled, profile motion does not pass its target, homing terminates, refused
    targets.
  \<^item> \<open>Bridge\<close>: SDO and process data images. \<open>Adapter\<close>: the adapter boundary (locales
    \<open>drive_adapter\<close>, \<open>total_adapter\<close>) and the F-KR adapter that interprets it. \<open>Drive\<close>: the drive
    as its master sees it.
  \<^item> \<open>FmiRunner\<close>, \<open>Copley\<close>: the runner of an FMI unit and the adapter on top of it, which interprets
    \<open>drive_adapter\<close> too. Shown: a failed opening terminates and frees the unit as it should (on a unit that
    records the calls made of it, \<open>watched\<close>), and the loop of a step ends.
  \<^item> \<open>Fault\<close>: the guard and its recovery ladder. \<open>Axis\<close>, \<open>ParameterStore\<close>, \<open>Dispatch\<close>: the axis, its
    snapshots and its requests. \<open>AxisProps\<close>: what the dispatcher guarantees for every adapter, among it
    that it drives the guard as \<open>guard_cycle\<close>, the cycle of the recovery ladder, says.
    \<open>StoreProps\<close>: what the store guarantees for every adapter that keeps its dictionary in its state
    (locales \<open>store_adapter\<close>, \<open>od_backed\<close>). \<open>Fleet\<close>: several axes and the line protocol.
  \<^item> \<open>Catalog\<close>, \<open>Numerals\<close>, \<open>Fixture\<close>: the parser of the ESI document and the generator of the fixture.
    Shown: the tables of the catalog agree, array items tile their type, mapping words decode to the
    mapped objects, and the generated document reads back as the contract.
  \<^item> \<open>Environment\<close>, \<open>Configuration\<close>: environment files and the configuration. Shown: the
    normalised file reads back, an accepted configuration has the axes of the settings, and only
    value errors are raised.
  \<^item> \<open>Registry\<close>, \<open>Startup\<close>: the description of the device, the adapter of either kind that the registry
    creates (type \<open>drive\<close>, which interprets both locales), and the start of a fleet from a configuration.
  \<^item> \<open>Supervisor\<close>: the container service (docker/service.py) that checks the interface, starts the model
    and the slave process and watches them. Shown: the slave outlives the model, and when the supervisor
    ends, with an exit code or an exception, every child was asked to terminate unless one survives a kill.
  \<^item> \<open>Specimen\<close>, \<open>Examples\<close>, \<open>ConfigExamples\<close>: a concrete drive, a document and a configuration for
    it, and the properties at concrete inputs.

  \<^bold>\<open>Correspondence.\<close> Definitions carry the names of the Python functions; a prefix (\<open>fkr_\<close>, \<open>cp_\<close>,
  \<open>sm_\<close>, \<open>od_\<close>, \<open>bridge_\<close>, \<open>fleet_\<close>, \<open>runner_\<close>) names the class where two classes share a method name. An
  object is a record of its fields; a method is a \<open>pym\<close> computation on it. A dictionary of Python
  is an association list in insertion order.

  \<^bold>\<open>Bounds.\<close> The servo is shown not to overflow for cycle times between \<open>2 ^ -30\<close> and 1 second;
  the runtime itself refuses cycles above 0.1 second. Positions stay below \<open>2 ^ 240\<close> and
  velocities below \<open>2 ^ 140\<close> in magnitude because an addition that would leave the range is
  absorbed by rounding. No definition uses fuel: every loop of the source runs over a list or a
  shrinking text, except the loop of a Copley step, which is a partial function (\<open>cp_loop\<close>) that is
  shown to return from every state that the adapter can be in. The waiting loops of the supervisor
  run over a finite list of observations and are still waiting when it ends.

  \<^bold>\<open>Parameters.\<close> Time, random identifiers and the failures of the file system are arguments of
  the definitions (\<open>io\<close> of a save, \<open>migrate_io\<close> of a migration, \<open>writing\<close> and the outcomes in \<open>world\<close> and
  \<open>tick\<close> of the supervisor, the folder operations of a runner); so are the hash functions, the parser of JSON text, the element tree of an XML
  file, the resolution of paths, the FMI unit with its model description, and what the supervisor
  observes of its processes and of the files of the system.

  \<^bold>\<open>Limits.\<close> Text is ASCII: the white space, line breaks and cases of other characters are not those of
  Python. \<open>int\<close> and \<open>float\<close> of a text value, and the text of a float or byte value, which the codec would
  need only for an object whose value does not have the kind of its type, are errors in the model. The
  content of a snapshot file is its parsed form, so that a backup counts as equal by content.

  \<^bold>\<open>Not modelled.\<close> Sockets, file locks and signals (operating system), the optional timing
  samples, the command line of the model process, the C++ slave, and the command line scripts other than the normalised environment.
\<close>

end
